(* ===== verification/Prelude.thy ===== *)
theory Prelude
  imports Main "HOL-Library.Sublist"
begin

text \<open>
  Shared vocabulary of the development: the collections of simplification rules the component
  theories feed, and the generic facts on lists that the SQL tables of the services rest on.
  A table is a list of rows in physical order; \<open>update_where\<close>, \<open>delete_where\<close> and
  \<open>count_where\<close> are the row operations behind \<^verbatim>\<open>UPDATE\<close>, \<^verbatim>\<open>DELETE\<close> and the
  affected-row count of a command tag.
\<close>

named_theorems wp_simps "weakest preconditions of the effectful primitives"
named_theorems db_simps "semantics of the SQL statements"
named_theorems keeps_rules "invariants of the database kept by a computation"
named_theorems json_simps "encoding and decoding of the messages"

section \<open>Tables as lists of rows\<close>

definition update_where :: "('r \<Rightarrow> bool) \<Rightarrow> ('r \<Rightarrow> 'r) \<Rightarrow> 'r list \<Rightarrow> 'r list" where
  "update_where P f rows = map (\<lambda>r. if P r then f r else r) rows"

definition delete_where :: "('r \<Rightarrow> bool) \<Rightarrow> 'r list \<Rightarrow> 'r list" where
  "delete_where P rows = filter (\<lambda>r. \<not> P r) rows"

definition count_where :: "('r \<Rightarrow> bool) \<Rightarrow> 'r list \<Rightarrow> nat" where
  "count_where P rows = length (filter P rows)"

lemma update_where_Nil [simp]: "update_where P f [] = []"
  by (simp add: update_where_def)

lemma update_where_Cons [simp]:
  "update_where P f (r # rs) = (if P r then f r else r) # update_where P f rs"
  by (simp add: update_where_def)

lemma update_where_append [simp]:
  "update_where P f (xs @ ys) = update_where P f xs @ update_where P f ys"
  by (simp add: update_where_def)

lemma length_update_where [simp]: "length (update_where P f rs) = length rs"
  by (simp add: update_where_def)

lemma in_set_update_where:
  "x \<in> set (update_where P f rs) \<longleftrightarrow> (\<exists>r \<in> set rs. x = (if P r then f r else r))"
  by (auto simp: update_where_def)

lemma update_where_none [simp]: "(\<And>r. r \<in> set rs \<Longrightarrow> \<not> P r) \<Longrightarrow> update_where P f rs = rs"
  by (induction rs) auto

lemma map_update_where:
  "(\<And>r. P r \<Longrightarrow> key (f r) = key r) \<Longrightarrow> map key (update_where P f rs) = map key rs"
  by (induction rs) auto

lemma map_update_where_cong [simp]:
  "(\<And>r. key (f r) = key r) \<Longrightarrow> map key (update_where P f rs) = map key rs"
  by (rule map_update_where)

lemma ball_update_where [simp]:
  "(\<forall>x \<in> set (update_where P f rs). Q x) \<longleftrightarrow> (\<forall>r \<in> set rs. Q (if P r then f r else r))"
  by (induction rs) simp_all

lemma bex_update_where [simp]:
  "(\<exists>x \<in> set (update_where P f rs). Q x) \<longleftrightarrow> (\<exists>r \<in> set rs. Q (if P r then f r else r))"
  by (induction rs) simp_all

lemma filter_update_where_other:
  "(\<And>r. P r \<Longrightarrow> \<not> Q r) \<Longrightarrow> (\<And>r. P r \<Longrightarrow> \<not> Q (f r)) \<Longrightarrow>
     filter Q (update_where P f rs) = filter Q rs"
  by (induction rs) auto

lemma set_delete_where [simp]: "set (delete_where P rs) = {r \<in> set rs. \<not> P r}"
  by (auto simp: delete_where_def)

lemma delete_where_Nil [simp]: "delete_where P [] = []"
  by (simp add: delete_where_def)

lemma delete_where_Cons [simp]:
  "delete_where P (r # rs) = (if P r then delete_where P rs else r # delete_where P rs)"
  by (simp add: delete_where_def)

lemma distinct_map_delete_where: "distinct (map key rs) \<Longrightarrow> distinct (map key (delete_where P rs))"
  by (simp add: delete_where_def distinct_map_filter)

lemma delete_where_none [simp]: "(\<And>r. r \<in> set rs \<Longrightarrow> \<not> P r) \<Longrightarrow> delete_where P rs = rs"
  by (induction rs) auto

lemma count_where_eq_0 [simp]: "count_where P rs = 0 \<longleftrightarrow> (\<forall>r \<in> set rs. \<not> P r)"
  by (simp add: count_where_def filter_empty_conv)

lemma count_where_pos [simp]: "0 < count_where P rs \<longleftrightarrow> (\<exists>r \<in> set rs. P r)"
  by (metis count_where_eq_0 gr0I less_numeral_extra(3))

section \<open>Looking a row up\<close>

lemma find_SomeD: "find P xs = Some x \<Longrightarrow> x \<in> set xs \<and> P x"
  by (auto simp: find_Some_iff in_set_conv_nth)

lemma find_NoneD: "find P xs = None \<Longrightarrow> x \<in> set xs \<Longrightarrow> \<not> P x"
  by (simp add: find_None_iff)

lemma find_append: "find P (xs @ ys) = (case find P xs of None \<Rightarrow> find P ys | Some x \<Rightarrow> Some x)"
  by (induction xs) auto

lemma find_key_unique:
  "distinct (map key xs) \<Longrightarrow> x \<in> set xs \<Longrightarrow> find (\<lambda>y. key y = key x) xs = Some x"
  by (induction xs) auto

lemma find_key_Some_iff:
  assumes "distinct (map key xs)"
  shows "find (\<lambda>y. key y = k) xs = Some x \<longleftrightarrow> x \<in> set xs \<and> key x = k"
  using assms find_key_unique [of key xs x] by (auto dest: find_SomeD)

lemma distinct_map_eqD:
  "distinct (map key xs) \<Longrightarrow> x \<in> set xs \<Longrightarrow> y \<in> set xs \<Longrightarrow> key x = key y \<Longrightarrow> x = y"
  by (auto simp: distinct_map inj_on_def)

lemma find_update_where_same:
  assumes "distinct (map key xs)" "x \<in> set xs" "\<And>r. key (f r) = key r" "P x"
  shows "find (\<lambda>y. key y = key x) (update_where P f xs) = Some (f x)"
proof -
  have "map key (update_where P f xs) = map key xs"
    by (rule map_update_where) (simp add: assms(3))
  moreover have "f x \<in> set (update_where P f xs)"
    using assms(2,4) by (force simp: in_set_update_where)
  ultimately show ?thesis
    using assms(1,3) find_key_unique [of key "update_where P f xs" "f x"] by simp
qed

section \<open>Ordered prefixes\<close>

lemma take_filter_subset: "set (take n (filter P xs)) \<subseteq> {x \<in> set xs. P x}"
  using set_take_subset [of n "filter P xs"] by auto

lemma distinct_take_filter:
  "distinct (map key xs) \<Longrightarrow> distinct (map key (take n (filter P xs)))"
  by (metis distinct_map_filter distinct_take take_map)

lemma case_sum_if:
  "(case (if b then x else y) of Inl a \<Rightarrow> f a | Inr c \<Rightarrow> g c)
   = (if b then (case x of Inl a \<Rightarrow> f a | Inr c \<Rightarrow> g c) else (case y of Inl a \<Rightarrow> f a | Inr c \<Rightarrow> g c))"
  by simp

end
