(* ===== verification/GoLib.thy ===== *)
theory GoLib
  imports Prelude
begin

text \<open>
  The parts of Go's standard library the services compute with: \<^verbatim>\<open>strings.TrimSpace\<close>,
  \<^verbatim>\<open>strings.Split\<close>, \<^verbatim>\<open>strings.HasPrefix\<close>, \<^verbatim>\<open>strconv.FormatInt\<close>,
  \<^verbatim>\<open>strconv.Atoi\<close>, \<^verbatim>\<open>encoding/hex\<close> and \<^verbatim>\<open>encoding/base64\<close>. A Go string is a
  sequence of bytes, here a list of 8-bit characters.
\<close>

section \<open>strings\<close>

definition HasPrefix :: "string \<Rightarrow> string \<Rightarrow> bool" where
  "HasPrefix s p = (take (length p) s = p)"

definition CutPrefix :: "string \<Rightarrow> string \<Rightarrow> string \<times> bool" where
  "CutPrefix s p = (if HasPrefix s p then (drop (length p) s, True) else (s, False))"

text \<open>The UTF-8 encodings of the runes for which \<^verbatim>\<open>unicode.IsSpace\<close> holds.\<close>

definition go_spaces :: "string list" where
  "go_spaces =
     [[CHR 0x09], [CHR 0x0A], [CHR 0x0B], [CHR 0x0C], [CHR 0x0D], [CHR 0x20],
      [CHR 0xC2, CHR 0x85], [CHR 0xC2, CHR 0xA0], [CHR 0xE1, CHR 0x9A, CHR 0x80],
      [CHR 0xE2, CHR 0x80, CHR 0x80], [CHR 0xE2, CHR 0x80, CHR 0x81],
      [CHR 0xE2, CHR 0x80, CHR 0x82], [CHR 0xE2, CHR 0x80, CHR 0x83],
      [CHR 0xE2, CHR 0x80, CHR 0x84], [CHR 0xE2, CHR 0x80, CHR 0x85],
      [CHR 0xE2, CHR 0x80, CHR 0x86], [CHR 0xE2, CHR 0x80, CHR 0x87],
      [CHR 0xE2, CHR 0x80, CHR 0x88], [CHR 0xE2, CHR 0x80, CHR 0x89],
      [CHR 0xE2, CHR 0x80, CHR 0x8A], [CHR 0xE2, CHR 0x80, CHR 0xA8],
      [CHR 0xE2, CHR 0x80, CHR 0xA9], [CHR 0xE2, CHR 0x80, CHR 0xAF],
      [CHR 0xE2, CHR 0x81, CHR 0x9F], [CHR 0xE3, CHR 0x80, CHR 0x80]]"

text \<open>Drop leading occurrences of the given byte sequences.\<close>

function trim_with :: "string list \<Rightarrow> string \<Rightarrow> string" where
  "trim_with ps s =
     (case find (\<lambda>p. p \<noteq> [] \<and> HasPrefix s p) ps of
        None \<Rightarrow> s
      | Some p \<Rightarrow> trim_with ps (drop (length p) s))"
  by pat_completeness auto
termination
  by (relation "measure (\<lambda>(ps, s). length s)")
    (auto simp: HasPrefix_def dest!: find_SomeD, metis diff_less length_greater_0_conv list.size(3) take_Nil)

declare trim_with.simps [simp del]

definition TrimSpace :: "string \<Rightarrow> string" where
  "TrimSpace s = rev (trim_with (map rev go_spaces) (rev (trim_with go_spaces s)))"

fun Split :: "string \<Rightarrow> char \<Rightarrow> string list" where
  "Split [] c = [[]]"
| "Split (x # xs) c =
     (if x = c then [] # Split xs c
      else (case Split xs c of [] \<Rightarrow> [[x]] | y # ys \<Rightarrow> (x # y) # ys))"

lemma Split_not_Nil [simp]: "Split s c \<noteq> []"
  by (induction s) (auto split: list.splits)

lemma Split_no_sep: "c \<notin> set s \<Longrightarrow> Split s c = [s]"
  by (induction s) auto

lemma Split_append_sep: "c \<notin> set s \<Longrightarrow> Split (s @ c # t) c = s # Split t c"
  by (induction s) auto

lemma trim_with_stop:
  "(\<And>p. p \<in> set ps \<Longrightarrow> p \<noteq> [] \<Longrightarrow> \<not> HasPrefix s p) \<Longrightarrow> trim_with ps s = s"
  by (subst trim_with.simps) (auto simp: find_None_iff dest!: find_SomeD split: option.splits)

lemma TrimSpace_Nil [simp]: "TrimSpace [] = []"
proof -
  have "trim_with ps [] = []" for ps
    by (rule trim_with_stop) (auto simp: HasPrefix_def)
  then show ?thesis by (simp add: TrimSpace_def)
qed

lemma trim_with_result:
  "(\<exists>t. s = t @ trim_with ps s) \<and> (\<forall>p \<in> set ps. p \<noteq> [] \<longrightarrow> \<not> HasPrefix (trim_with ps s) p)"
proof (induction ps s rule: trim_with.induct)
  case (1 ps s)
  show ?case
  proof (cases "find (\<lambda>p. p \<noteq> [] \<and> HasPrefix s p) ps")
    case None
    then have "trim_with ps s = s" by (subst trim_with.simps) simp
    then show ?thesis using None by (auto simp: find_None_iff)
  next
    case (Some p)
    then have eq: "trim_with ps s = trim_with ps (drop (length p) s)" by (subst trim_with.simps) simp
    obtain t where "drop (length p) s = t @ trim_with ps (drop (length p) s)" using 1 [OF Some] by blast
    then have "s = (take (length p) s @ t) @ trim_with ps s" unfolding eq by (metis append_assoc append_take_drop_id)
    then show ?thesis using 1 [OF Some] unfolding eq by blast
  qed
qed

lemma HasPrefix_longer: "HasPrefix s p \<Longrightarrow> HasPrefix (s @ t) p"
  unfolding HasPrefix_def by (metis append_assoc append_eq_conv_conj append_take_drop_id)

text \<open>Trimming twice is trimming once: what is left of the trimmed text at its end starts as before.\<close>

lemma TrimSpace_idem [simp]: "TrimSpace (TrimSpace s) = TrimSpace s"
proof -
  let ?l = "trim_with go_spaces s" and ?ps = "map rev go_spaces"
  let ?r = "trim_with ?ps (rev ?l)"
  obtain t where "rev ?l = t @ ?r" using trim_with_result [of "rev ?l" ?ps] by blast
  then have l: "?l = rev ?r @ rev t" by (metis rev_append rev_rev_ident)
  have "trim_with go_spaces (rev ?r) = rev ?r"
    by (rule trim_with_stop) (metis HasPrefix_longer l trim_with_result)
  moreover have "trim_with ?ps ?r = ?r"
    by (rule trim_with_stop) (use trim_with_result [of "rev ?l" ?ps] in blast)
  ultimately show ?thesis by (simp add: TrimSpace_def)
qed

section \<open>strconv\<close>

definition digit_char :: "nat \<Rightarrow> char" where
  "digit_char d = char_of (48 + d)"

fun show_nat :: "nat \<Rightarrow> string" where
  "show_nat n = (if n < 10 then [digit_char n] else show_nat (n div 10) @ [digit_char (n mod 10)])"

declare show_nat.simps [simp del]

definition FormatInt :: "int \<Rightarrow> string" where
  "FormatInt i = (if i < 0 then CHR ''-'' # show_nat (nat (- i)) else show_nat (nat i))"

definition char_digit :: "char \<Rightarrow> nat option" where
  "char_digit c = (let k = of_char c :: nat in if 48 \<le> k \<and> k \<le> 57 then Some (k - 48) else None)"

fun read_digits :: "nat \<Rightarrow> string \<Rightarrow> nat option" where
  "read_digits acc [] = Some acc"
| "read_digits acc (c # cs) =
     (case char_digit c of None \<Rightarrow> None | Some d \<Rightarrow> read_digits (10 * acc + d) cs)"

text \<open>\<^verbatim>\<open>strconv.Atoi\<close>: an optional sign, at least one digit, and a value that fits 64 bits.\<close>

definition Atoi :: "string \<Rightarrow> int option" where
  "Atoi s =
     (let (neg, ds) = (case s of
            [] \<Rightarrow> (False, [])
          | c # cs \<Rightarrow> if c = CHR ''-'' then (True, cs)
                      else if c = CHR ''+'' then (False, cs) else (False, s))
      in if ds = [] then None
         else case read_digits 0 ds of
                None \<Rightarrow> None
              | Some n \<Rightarrow>
                  (let v = (if neg then - int n else int n)
                   in if - (2 ^ 63) \<le> v \<and> v < 2 ^ 63 then Some v else None))"

lemma of_char_digit_char [simp]: "d < 10 \<Longrightarrow> (of_char (digit_char d) :: nat) = 48 + d"
  by (simp add: digit_char_def)

lemma char_digit_digit_char [simp]: "d < 10 \<Longrightarrow> char_digit (digit_char d) = Some d"
  by (simp add: char_digit_def)

lemma digit_char_inj: "a < 10 \<Longrightarrow> b < 10 \<Longrightarrow> digit_char a = digit_char b \<Longrightarrow> a = b"
  by (metis char_digit_digit_char option.inject)

lemma show_nat_not_Nil [simp]: "show_nat n \<noteq> []"
  by (subst show_nat.simps) simp

lemma show_nat_digits: "c \<in> set (show_nat n) \<Longrightarrow> \<exists>d < 10. c = digit_char d"
proof (induction n rule: show_nat.induct)
  case (1 n)
  show ?case
  proof (cases "n < 10")
    case True
    with "1.prems" show ?thesis by (subst (asm) show_nat.simps) auto
  next
    case False
    with "1.prems" have "c \<in> set (show_nat (n div 10)) \<or> c = digit_char (n mod 10)"
      by (subst (asm) show_nat.simps) auto
    with "1.IH" [OF False] show ?thesis
      by (metis mod_less_divisor zero_less_numeral)
  qed
qed

lemma read_digits_append:
  "read_digits acc (xs @ ys) = (case read_digits acc xs of None \<Rightarrow> None | Some n \<Rightarrow> read_digits n ys)"
  by (induction xs arbitrary: acc) (auto split: option.splits)

text \<open>Reading back what was printed.\<close>

lemma read_show_nat [simp]: "read_digits 0 (show_nat n) = Some n"
proof (induction n rule: show_nat.induct)
  case (1 n)
  then show ?case
    by (subst show_nat.simps) (auto simp: read_digits_append)
qed

lemma show_nat_inj: "show_nat a = show_nat b \<Longrightarrow> a = b"
  by (metis option.inject read_show_nat)

lemma minus_not_digit: "CHR ''-'' \<noteq> digit_char d" if "d < 10"
proof
  assume "CHR ''-'' = digit_char d"
  then have "(of_char CHR ''-'' :: nat) = 48 + d" using that by simp
  then show False by simp
qed

lemma FormatInt_inj: "FormatInt a = FormatInt b \<Longrightarrow> a = b"
proof -
  assume eq: "FormatInt a = FormatInt b"
  have neg: "show_nat m \<noteq> CHR ''-'' # s" for m s
  proof
    assume "show_nat m = CHR ''-'' # s"
    then have "CHR ''-'' \<in> set (show_nat m)" by simp
    then show False using show_nat_digits minus_not_digit by blast
  qed
  show "a = b"
  proof (cases "a < 0"; cases "b < 0")
    assume "a < 0" "b < 0"
    with eq show ?thesis by (auto simp: FormatInt_def dest!: show_nat_inj)
  next
    assume "a < 0" "\<not> b < 0"
    with eq have "show_nat (nat b) = CHR ''-'' # show_nat (nat (- a))" by (simp add: FormatInt_def)
    then show ?thesis using neg by blast
  next
    assume "\<not> a < 0" "b < 0"
    with eq have "show_nat (nat a) = CHR ''-'' # show_nat (nat (- b))" by (simp add: FormatInt_def)
    then show ?thesis using neg by blast
  next
    assume "\<not> a < 0" "\<not> b < 0"
    with eq show ?thesis by (auto simp: FormatInt_def dest!: show_nat_inj)
  qed
qed

lemma FormatInt_not_Nil [simp]: "FormatInt i \<noteq> []"
  by (simp add: FormatInt_def)

lemma FormatInt_first:
  obtains (digit) d where "d < 10" "hd (FormatInt i) = digit_char d"
  | (minus) "hd (FormatInt i) = CHR ''-''"
proof (cases "i < 0")
  case True
  then show ?thesis by (intro minus) (simp add: FormatInt_def)
next
  case False
  then have "hd (FormatInt i) \<in> set (show_nat (nat i))"
    by (simp add: FormatInt_def)
  then show ?thesis using show_nat_digits digit by blast
qed

lemma FormatInt_no_letter: "48 + 10 \<le> (of_char c :: nat) \<Longrightarrow> hd (FormatInt i) \<noteq> c"
proof (cases i rule: FormatInt_first)
  case (digit d)
  assume c: "48 + 10 \<le> (of_char c :: nat)"
  have "(of_char (hd (FormatInt i)) :: nat) = 48 + d" using digit by simp
  then show ?thesis using c digit(1) by auto
next
  case minus
  assume "48 + 10 \<le> (of_char c :: nat)"
  then show ?thesis using minus by auto
qed

end
