(* ===== verification/Json.thy ===== *)
theory Json
  imports GoLib
begin

text \<open>
  What the services use of \<^verbatim>\<open>encoding/json\<close>, on the level of JSON values: a payload is
  either the text of one JSON value or bytes that are no JSON text. \<^verbatim>\<open>json.Marshal\<close> of a
  struct is an object with the struct's tags as keys, and \<^verbatim>\<open>json.Unmarshal\<close> assigns the
  members in order: an unknown key is skipped, a key matches a field exactly or up to ASCII
  case, \<^verbatim>\<open>null\<close> leaves a field alone, a later duplicate wins, and a value of the wrong
  type makes the whole call fail.
\<close>

datatype json =
    JNull
  | JBool bool
  | JNum int
  | JFrac string
  | JStr string
  | JArr "json list"
  | JObj "(string \<times> json) list"

datatype bytes = Json json | NotJson string

definition json_Valid :: "bytes \<Rightarrow> bool" where
  "json_Valid b = (case b of Json _ \<Rightarrow> True | NotJson _ \<Rightarrow> False)"

definition lower_char :: "char \<Rightarrow> char" where
  "lower_char c = (let k = of_char c :: nat in if 65 \<le> k \<and> k \<le> 90 then char_of (k + 32) else c)"

definition fold_name :: "string \<Rightarrow> string" where
  "fold_name s = map lower_char s"

type_synonym 'r field = "string \<times> (json \<Rightarrow> 'r \<Rightarrow> 'r option)"

definition str_field :: "string \<Rightarrow> (string \<Rightarrow> 'r \<Rightarrow> 'r) \<Rightarrow> 'r field" where
  "str_field name upd =
     (name, \<lambda>v r. case v of JStr s \<Rightarrow> Some (upd s r) | JNull \<Rightarrow> Some r | _ \<Rightarrow> None)"

definition int64_field :: "string \<Rightarrow> (int \<Rightarrow> 'r \<Rightarrow> 'r) \<Rightarrow> 'r field" where
  "int64_field name upd =
     (name, \<lambda>v r. case v of
        JNum n \<Rightarrow> if - (2 ^ 63) \<le> n \<and> n < 2 ^ 63 then Some (upd n r) else None
      | JNull \<Rightarrow> Some r
      | _ \<Rightarrow> None)"

definition uint64_field :: "string \<Rightarrow> (int \<Rightarrow> 'r \<Rightarrow> 'r) \<Rightarrow> 'r field" where
  "uint64_field name upd =
     (name, \<lambda>v r. case v of
        JNum n \<Rightarrow> if 0 \<le> n \<and> n < 2 ^ 64 then Some (upd n r) else None
      | JNull \<Rightarrow> Some r
      | _ \<Rightarrow> None)"

text \<open>A \<^verbatim>\<open>json.RawMessage\<close> takes any value, \<^verbatim>\<open>null\<close> included.\<close>

definition raw_field :: "string \<Rightarrow> (json \<Rightarrow> 'r \<Rightarrow> 'r) \<Rightarrow> 'r field" where
  "raw_field name upd = (name, \<lambda>v r. Some (upd v r))"

definition find_field :: "'r field list \<Rightarrow> string \<Rightarrow> (json \<Rightarrow> 'r \<Rightarrow> 'r option) option" where
  "find_field fs k =
     (case find (\<lambda>f. fst f = k) fs of
        Some f \<Rightarrow> Some (snd f)
      | None \<Rightarrow> map_option snd (find (\<lambda>f. fold_name (fst f) = fold_name k) fs))"

fun assign_members :: "'r field list \<Rightarrow> (string \<times> json) list \<Rightarrow> 'r \<Rightarrow> 'r option" where
  "assign_members fs [] r = Some r"
| "assign_members fs ((k, v) # ms) r =
     (case find_field fs k of
        None \<Rightarrow> assign_members fs ms r
      | Some set_v \<Rightarrow> (case set_v v r of None \<Rightarrow> None | Some r' \<Rightarrow> assign_members fs ms r'))"

text \<open>\<open>json_Unmarshal fs zero data\<close> decodes \<open>data\<close> into a struct that starts as \<open>zero\<close>.\<close>

definition json_Unmarshal :: "'r field list \<Rightarrow> 'r \<Rightarrow> bytes \<Rightarrow> 'r option" where
  "json_Unmarshal fs zero data =
     (case data of
        NotJson _ \<Rightarrow> None
      | Json JNull \<Rightarrow> Some zero
      | Json (JObj ms) \<Rightarrow> assign_members fs ms zero
      | Json _ \<Rightarrow> None)"

lemma json_Unmarshal_NotJson [simp]: "json_Unmarshal fs z (NotJson s) = None"
  by (simp add: json_Unmarshal_def)

lemma json_Unmarshal_JObj [json_simps]:
  "json_Unmarshal fs z (Json (JObj ms)) = assign_members fs ms z"
  by (simp add: json_Unmarshal_def)

lemma find_field_hit [json_simps]: "find_field ((k, s) # fs) k = Some s"
  by (simp add: find_field_def)

lemma find_field_skip [json_simps]:
  assumes "k' \<noteq> k" "k \<in> fst ` set fs"
  shows "find_field ((k', s) # fs) k = find_field fs k"
proof -
  from assms(2) obtain f where "find (\<lambda>f. fst f = k) fs = Some f"
    by (metis (mono_tags, lifting) find_None_iff imageE not_None_eq)
  then show ?thesis using assms(1) by (simp add: find_field_def)
qed

lemmas field_defs [json_simps] = str_field_def int64_field_def uint64_field_def raw_field_def

end
