(* ===== verification/Encoding.thy ===== *)
theory Encoding
  imports GoLib
begin

text \<open>
  Byte encodings used for identifiers and tokens: \<^verbatim>\<open>hex.EncodeToString\<close> and
  \<^verbatim>\<open>base64.RawURLEncoding.EncodeToString\<close>, both injective, with the length and alphabet
  of what they produce.
\<close>

section \<open>encoding/hex\<close>

definition hex_digit :: "nat \<Rightarrow> char" where
  "hex_digit d = (if d < 10 then char_of (48 + d) else char_of (87 + d))"

definition hex_EncodeToString :: "string \<Rightarrow> string" where
  "hex_EncodeToString bs =
     concat (map (\<lambda>c. [hex_digit (of_char c div 16), hex_digit (of_char c mod 16)]) bs)"

lemma hex_digit_code: "d < 16 \<Longrightarrow> (of_char (hex_digit d) :: nat) = (if d < 10 then 48 + d else 87 + d)"
proof -
  assume d: "d < 16"
  have "(48 + d) mod 256 = 48 + d" "(87 + d) mod 256 = 87 + d"
    by (rule mod_less; use d in linarith)+
  then show ?thesis by (simp only: hex_digit_def of_char_of if_distrib [of of_char])
qed

lemma hex_digit_inj: "a < 16 \<Longrightarrow> b < 16 \<Longrightarrow> hex_digit a = hex_digit b \<Longrightarrow> a = b"
proof -
  assume ab: "a < 16" "b < 16" and eq: "hex_digit a = hex_digit b"
  have "(if a < 10 then 48 + a else 87 + a) = (if b < 10 then 48 + b else 87 + b)"
    using hex_digit_code [OF ab(1)] hex_digit_code [OF ab(2)] by (simp only: eq)
  then show ?thesis by (cases "a < 10"; cases "b < 10") simp_all
qed

lemma of_char_lt: "(of_char c :: nat) < 256"
proof -
  have "(of_char c :: nat) mod 256 < 256" by (rule mod_less_divisor) simp
  then show ?thesis by (simp only: of_char_mod_256)
qed

lemma byte_eqI: "(of_char a :: nat) = of_char b \<Longrightarrow> a = b"
  by simp

lemma length_hex [simp]: "length (hex_EncodeToString bs) = 2 * length bs"
  by (induction bs) (auto simp: hex_EncodeToString_def)

lemma hex_inj: "hex_EncodeToString xs = hex_EncodeToString ys \<Longrightarrow> xs = ys"
proof (induction xs arbitrary: ys)
  case Nil
  then show ?case by (cases ys) (auto simp: hex_EncodeToString_def)
next
  case (Cons x xs)
  then obtain y ys' where ys: "ys = y # ys'"
    by (cases ys) (auto simp: hex_EncodeToString_def)
  have hi: "hex_digit (of_char x div 16) = hex_digit (of_char y div 16)"
    and lo: "hex_digit (of_char x mod 16) = hex_digit (of_char y mod 16)"
    and rest: "hex_EncodeToString xs = hex_EncodeToString ys'"
    using Cons.prems by (auto simp: ys hex_EncodeToString_def)
  have "(of_char x :: nat) div 16 = of_char y div 16"
    by (rule hex_digit_inj [OF _ _ hi]) (simp_all add: less_mult_imp_div_less of_char_lt)
  moreover have "(of_char x :: nat) mod 16 = of_char y mod 16"
    by (rule hex_digit_inj [OF _ _ lo]) auto
  ultimately have "(of_char x :: nat) = of_char y"
    by (metis div_mult_mod_eq)
  with Cons.IH [OF rest] show ?case by (simp add: ys)
qed

section \<open>encoding/base64, raw URL alphabet\<close>

definition url_alphabet :: string where
  "url_alphabet = ''ABCDEFGHIJKLMNOPQRSTUVWXYZabcdefghijklmnopqrstuvwxyz0123456789-_''"

definition b64_char :: "nat \<Rightarrow> char" where
  "b64_char i = url_alphabet ! i"

text \<open>Three bytes give four characters; one or two left over give two or three, unpadded.\<close>

fun b64_groups :: "nat list \<Rightarrow> nat list" where
  "b64_groups [] = []"
| "b64_groups [a] = [a div 4, a mod 4 * 16]"
| "b64_groups [a, b] = [a div 4, a mod 4 * 16 + b div 16, b mod 16 * 4]"
| "b64_groups (a # b # c # rest) =
     [a div 4, a mod 4 * 16 + b div 16, b mod 16 * 4 + c div 64, c mod 64] @ b64_groups rest"

definition RawURLEncode :: "string \<Rightarrow> string" where
  "RawURLEncode bs = map b64_char (b64_groups (map of_char bs))"

lemma url_alphabet_distinct: "distinct url_alphabet"
  by (simp add: url_alphabet_def)

lemma length_url_alphabet [simp]: "length url_alphabet = 64"
  by (simp add: url_alphabet_def)

lemma b64_char_inj: "i < 64 \<Longrightarrow> j < 64 \<Longrightarrow> b64_char i = b64_char j \<Longrightarrow> i = j"
  by (simp add: b64_char_def nth_eq_iff_index_eq [OF url_alphabet_distinct])

lemma b64_groups_range:
  assumes "\<forall>x \<in> set xs. x < 256"
  shows "\<forall>i \<in> set (b64_groups xs). i < 64"
  using assms
proof (induction xs rule: b64_groups.induct)
  case (4 a b c rest)
  have "a mod 4 * 16 + b div 16 < 64" if "b < 256" for a b :: nat
    using that mod_less_divisor [of 4 a] by linarith
  moreover have "b mod 16 * 4 + c div 64 < 64" if "c < 256" for b c :: nat
    using that mod_less_divisor [of 16 b] by linarith
  ultimately show ?case using 4 by auto
next
  case (3 a b)
  have "a mod 4 * 16 + b div 16 < 64" if "b < 256"
    using that mod_less_divisor [of 4 a] by linarith
  then show ?case using 3 mod_less_divisor [of 16 b] by auto
next
  case (2 a)
  then show ?case using mod_less_divisor [of 4 a] by auto
qed simp

lemma length_b64_groups: "length (b64_groups xs) = (4 * length xs + 2) div 3"
  by (induction xs rule: b64_groups.induct) auto

lemma digits_unique:
  fixes q q' r r' :: nat
  assumes "q * n + r = q' * n + r'" "r < n" "r' < n"
  shows "q = q' \<and> r = r'"
proof -
  have "(q * n + r) div n = q" "(q' * n + r') div n = q'"
    using assms(2,3) by simp_all
  then have "q = q'" using assms(1) by metis
  then show ?thesis using assms(1) by simp
qed

text \<open>Each group of the encoding determines its bytes.\<close>

lemma b64_byte1:
  fixes a a' b b' :: nat
  assumes "a div 4 = a' div 4" "a mod 4 * 16 + b div 16 = a' mod 4 * 16 + b' div 16"
    "b < 256" "b' < 256"
  shows "a = a' \<and> b div 16 = b' div 16"
proof -
  have "a mod 4 = a' mod 4 \<and> b div 16 = b' div 16"
    by (rule digits_unique [OF assms(2)]) (use assms(3,4) in auto)
  with assms(1) show ?thesis by (metis div_mult_mod_eq)
qed

lemma b64_byte2:
  fixes b b' c c' :: nat
  assumes "b div 16 = b' div 16" "b mod 16 * 4 + c div 64 = b' mod 16 * 4 + c' div 64"
    "c < 256" "c' < 256"
  shows "b = b' \<and> c div 64 = c' div 64"
proof -
  have "b mod 16 = b' mod 16 \<and> c div 64 = c' div 64"
    by (rule digits_unique [OF assms(2)]) (use assms(3,4) in auto)
  with assms(1) show ?thesis by (metis div_mult_mod_eq)
qed

lemma b64_byte3:
  "(c::nat) div 64 = c' div 64 \<Longrightarrow> c mod 64 = c' mod 64 \<Longrightarrow> c = c'"
  by (metis div_mult_mod_eq)

lemma b64_byte_single:
  "(a::nat) div 4 = a' div 4 \<Longrightarrow> a mod 4 * 16 = a' mod 4 * 16 \<Longrightarrow> a = a'"
  by (metis div_mult_mod_eq mult_cancel_right zero_neq_numeral)

lemma b64_byte_two:
  "(b::nat) div 16 = b' div 16 \<Longrightarrow> b mod 16 * 4 = b' mod 16 * 4 \<Longrightarrow> b = b'"
  by (metis div_mult_mod_eq mult_cancel_right zero_neq_numeral)

lemma b64_groups_inj_same_length:
  assumes "length xs = length ys" "\<forall>x \<in> set xs. x < 256" "\<forall>y \<in> set ys. y < 256"
    "b64_groups xs = b64_groups ys"
  shows "xs = ys"
  using assms
proof (induction xs arbitrary: ys rule: b64_groups.induct)
  case 1
  then show ?case by simp
next
  case (2 a)
  then obtain a' where ys: "ys = [a']" by (cases ys) auto
  have "a div 4 = a' div 4" "a mod 4 * 16 = a' mod 4 * 16"
    using "2.prems" by (simp_all add: ys)
  then have "a = a'" by (rule b64_byte_single)
  then show ?case by (simp add: ys)
next
  case (3 a b)
  then obtain a' b' where ys: "ys = [a', b']" by (cases ys; cases "tl ys") auto
  have eqs: "a div 4 = a' div 4" "a mod 4 * 16 + b div 16 = a' mod 4 * 16 + b' div 16"
    "b mod 16 * 4 = b' mod 16 * 4" and rng: "b < 256" "b' < 256"
    using "3.prems" by (simp_all add: ys)
  from b64_byte1 [OF eqs(1,2) rng] have "a = a'" "b div 16 = b' div 16" by auto
  moreover from this(2) eqs(3) have "b = b'" by (rule b64_byte_two)
  ultimately show ?case by (simp add: ys)
next
  case (4 a b c rest)
  then obtain a' b' c' rest' where ys: "ys = a' # b' # c' # rest'"
    by (cases ys; cases "tl ys"; cases "tl (tl ys)") auto
  have eqs: "a div 4 = a' div 4" "a mod 4 * 16 + b div 16 = a' mod 4 * 16 + b' div 16"
    "b mod 16 * 4 + c div 64 = b' mod 16 * 4 + c' div 64" "c mod 64 = c' mod 64"
    "b64_groups rest = b64_groups rest'"
    and rng: "b < 256" "b' < 256" "c < 256" "c' < 256"
    using "4.prems" by (simp_all add: ys)
  from b64_byte1 [OF eqs(1,2) rng(1,2)] have ab: "a = a'" "b div 16 = b' div 16" by auto
  from b64_byte2 [OF ab(2) eqs(3) rng(3,4)] have bc: "b = b'" "c div 64 = c' div 64" by auto
  have "c = c'" using bc(2) eqs(4) by (rule b64_byte3)
  moreover have "rest = rest'"
    by (rule "4.IH") (use "4.prems" ys eqs(5) in auto)
  ultimately show ?case using ab bc ys by simp
qed

lemma length_RawURLEncode: "length (RawURLEncode bs) = (4 * length bs + 2) div 3"
  by (simp add: RawURLEncode_def length_b64_groups)

lemma set_RawURLEncode: "set (RawURLEncode bs) \<subseteq> set url_alphabet"
proof -
  have "\<forall>i \<in> set (b64_groups (map of_char bs)). i < 64"
    by (rule b64_groups_range) (auto simp: of_char_lt)
  then show ?thesis
    by (auto simp: RawURLEncode_def b64_char_def simp del: nth_mem intro!: nth_mem)
qed

lemma map_inj_onD:
  assumes "map f xs = map f ys" "inj_on f A" "set xs \<subseteq> A" "set ys \<subseteq> A"
  shows "xs = ys"
  using assms by (metis inj_on_map_eq_map inj_on_subset le_sup_iff)

lemma RawURLEncode_inj:
  assumes "length xs = length ys" "RawURLEncode xs = RawURLEncode ys"
  shows "xs = ys"
proof -
  have rng: "\<forall>i \<in> set (b64_groups (map of_char bs)). i < 64" for bs :: string
    by (rule b64_groups_range) (auto simp: of_char_lt)
  have "b64_groups (map of_char xs) = b64_groups (map of_char ys)"
    by (rule map_inj_onD [where f = b64_char and A = "{i. i < 64}"])
      (use assms(2) rng in \<open>auto simp: RawURLEncode_def inj_on_def intro: b64_char_inj\<close>)
  then have "(map of_char xs :: nat list) = map of_char ys"
    by (rule b64_groups_inj_same_length [rotated 3]) (simp_all add: assms(1) of_char_lt)
  then show ?thesis
    by (rule map_inj_onD [where A = UNIV]) (simp_all add: inj_on_def)
qed

end
