(* ===== verification/World.thy ===== *)
theory World
  imports Json Encoding "HOL-Library.State_Monad"
begin

text \<open>
  The effects of the services. A computation is a state transformer (\<^verbatim>\<open>State_Monad\<close>) over
  a \<open>world\<close>: the committed database, the transaction a handler has open, and what the
  environment decides. Every statement, commit and publish meets a \<open>fault\<close>: it works
  (\<open>Fine\<close>), it fails without effect (\<open>Fail\<close>), or its effect happens and only the answer is
  lost (\<open>AckLost\<close>). The environment is a list of faults that is consumed in order, so a
  theorem for every world is a theorem for every pattern of failures.

  Errors are values, as in Go: a computation returns \<open>error + 'a\<close>, and
  \<open>check r wrap k\<close> is \<^verbatim>\<open>if err != nil { return wrap(err) }\<close> followed by \<open>k\<close>.

  A transaction works on a copy of the database that \<open>Commit\<close> installs. A statement that fails
  inside a transaction aborts it (PostgreSQL's state 25P02): later statements fail, and so does
  its commit. Interleavings of several handlers are interleavings of their transactions and of
  their statements outside transactions.
\<close>

section \<open>Errors\<close>

datatype 'e error =
    Sentinel 'e                          \<comment> \<open>a package-level \<^verbatim>\<open>errors.New\<close>\<close>
  | ErrNoRows                            \<comment> \<open>\<^verbatim>\<open>pgx.ErrNoRows\<close>\<close>
  | PgError string string                \<comment> \<open>\<^verbatim>\<open>pgconn.PgError\<close>: code, constraint name\<close>
  | Opaque string                        \<comment> \<open>any other error, by its text\<close>
  | Wrap string "'e error"               \<comment> \<open>\<^verbatim>\<open>fmt.Errorf("msg: %w", err)\<close>\<close>
  | WrapEnd "'e error" string            \<comment> \<open>\<^verbatim>\<open>fmt.Errorf("%w: msg", err)\<close>\<close>

fun errors_Is :: "'e error \<Rightarrow> 'e error \<Rightarrow> bool" where
  "errors_Is (Wrap m e) t = (Wrap m e = t \<or> errors_Is e t)"
| "errors_Is (WrapEnd e m) t = (WrapEnd e m = t \<or> errors_Is e t)"
| "errors_Is e t = (e = t)"

text \<open>\<^verbatim>\<open>errors.AsType[*pgconn.PgError]\<close>: the first such error in the chain.\<close>

fun as_PgError :: "'e error \<Rightarrow> (string \<times> string) option" where
  "as_PgError (PgError code cn) = Some (code, cn)"
| "as_PgError (Wrap m e) = as_PgError e"
| "as_PgError (WrapEnd e m) = as_PgError e"
| "as_PgError _ = None"

definition UniqueViolation :: string where
  "UniqueViolation = ''23505''"

definition ForeignKeyViolation :: string where
  "ForeignKeyViolation = ''23503''"

definition StringDataRightTruncation :: string where
  "StringDataRightTruncation = ''22001''"

lemma errors_Is_Sentinel [simp]:
  "errors_Is (Sentinel a) (Sentinel b) \<longleftrightarrow> a = b"
  "\<not> errors_Is ErrNoRows (Sentinel b)"
  "\<not> errors_Is (PgError c k) (Sentinel b)"
  "\<not> errors_Is (Opaque s) (Sentinel b)"
  "errors_Is (Wrap m e) (Sentinel b) \<longleftrightarrow> errors_Is e (Sentinel b)"
  "errors_Is (WrapEnd e m) (Sentinel b) \<longleftrightarrow> errors_Is e (Sentinel b)"
  by auto

declare errors_Is.simps(1,2) [simp del]

section \<open>The world\<close>

datatype fault = Fine | Fail | AckLost

record js_msg =
  msg_subject :: string
  msg_data :: bytes
  msg_id :: string

record 'db world =
  committed :: 'db
  txn :: "('db \<times> bool) option"       \<comment> \<open>working copy, aborted\<close>
  faults :: "fault list"                \<comment> \<open>fate of the next database calls\<close>
  locked :: "int list"                  \<comment> \<open>row ids other transactions hold locked\<close>
  pg_clock :: int                       \<comment> \<open>\<^verbatim>\<open>now()\<close> of the database\<close>
  go_clock :: int                       \<comment> \<open>\<^verbatim>\<open>time.Now()\<close> of the process\<close>
  drift :: "nat list"                   \<comment> \<open>time that passes before each reading\<close>
  entropy :: "string list"              \<comment> \<open>results of the next \<^verbatim>\<open>rand.Read\<close> calls\<close>
  pub_faults :: "fault list"            \<comment> \<open>fate of the next publishes\<close>
  stream :: "js_msg list"               \<comment> \<open>messages the JetStream server has stored\<close>

type_synonym ('db, 'a) run = "('db world, 'a) state"
type_synonym ('db, 'e, 'a) io = "('db world, 'e error + 'a) state"

abbreviation ret :: "'a \<Rightarrow> ('s, 'a) state" where
  "ret \<equiv> State_Monad.return"

abbreviation ok :: "'a \<Rightarrow> ('s, 'e error + 'a) state" where
  "ok x \<equiv> ret (Inr x)"

abbreviation err :: "'e error \<Rightarrow> ('s, 'e error + 'a) state" where
  "err e \<equiv> ret (Inl e)"

definition check :: "'e error + 'a \<Rightarrow> ('e error \<Rightarrow> 'e error) \<Rightarrow>
    ('a \<Rightarrow> ('s, 'e error + 'b) state) \<Rightarrow> ('s, 'e error + 'b) state" where
  "check r wrap k = (case r of Inl e \<Rightarrow> err (wrap e) | Inr x \<Rightarrow> k x)"

definition next_fault :: "fault list \<Rightarrow> fault" where
  "next_fault fs = (case fs of [] \<Rightarrow> Fine | f # _ \<Rightarrow> f)"

lemma next_fault_code [simp]:
  "next_fault [] = Fine" "next_fault (f # fs) = f"
  by (simp_all add: next_fault_def)

section \<open>Statements and transactions\<close>

datatype dbtx = Pool | Tx

text \<open>
  A statement, given the database's time: an error code with its constraint, or a result and
  the database after it.
\<close>

type_synonym ('db, 'r) stmt = "int \<Rightarrow> 'db \<Rightarrow> (string \<times> string) + ('r \<times> 'db)"

definition run_pool :: "('db, 'r) stmt \<Rightarrow> 'db world \<Rightarrow> ('e error + 'r) \<times> 'db world" where
  "run_pool s w =
     (let w' = w\<lparr>faults := tl (faults w)\<rparr> in
      case next_fault (faults w) of
        Fail \<Rightarrow> (Inl (Opaque ''connection failure''), w')
      | Fine \<Rightarrow>
          (case s (pg_clock w) (committed w) of
             Inl (code, cn) \<Rightarrow> (Inl (PgError code cn), w')
           | Inr (r, d) \<Rightarrow> (Inr r, w'\<lparr>committed := d\<rparr>))
      | AckLost \<Rightarrow>
          (case s (pg_clock w) (committed w) of
             Inl _ \<Rightarrow> (Inl (Opaque ''connection failure''), w')
           | Inr (_, d) \<Rightarrow> (Inl (Opaque ''connection failure''), w'\<lparr>committed := d\<rparr>)))"

definition run_tx :: "('db, 'r) stmt \<Rightarrow> 'db world \<Rightarrow> ('e error + 'r) \<times> 'db world" where
  "run_tx s w =
     (case txn w of
        None \<Rightarrow> (Inl (Opaque ''tx is closed''), w)
      | Some (d, aborted) \<Rightarrow>
          if aborted then (Inl (PgError ''25P02'' ''''), w)
          else
            (let w' = w\<lparr>faults := tl (faults w)\<rparr> in
             case next_fault (faults w) of
               Fine \<Rightarrow>
                 (case s (pg_clock w) d of
                    Inl (code, cn) \<Rightarrow> (Inl (PgError code cn), w'\<lparr>txn := Some (d, True)\<rparr>)
                  | Inr (r, d') \<Rightarrow> (Inr r, w'\<lparr>txn := Some (d', False)\<rparr>))
             | _ \<Rightarrow> (Inl (Opaque ''connection failure''), w'\<lparr>txn := Some (d, True)\<rparr>)))"

definition call :: "dbtx \<Rightarrow> ('db, 'r) stmt \<Rightarrow> ('db, 'e, 'r) io" where
  "call q s = State (case q of Pool \<Rightarrow> run_pool s | Tx \<Rightarrow> run_tx s)"

text \<open>\<^verbatim>\<open>Exec\<close> returns the affected rows, \<^verbatim>\<open>Query\<close> the rows, \<^verbatim>\<open>QueryRow(...).Scan\<close> one row.\<close>

definition Exec :: "dbtx \<Rightarrow> ('db, nat) stmt \<Rightarrow> ('db, 'e, nat) io" where
  "Exec q s = call q s"

definition Query :: "dbtx \<Rightarrow> ('db, 'r list) stmt \<Rightarrow> ('db, 'e, 'r list) io" where
  "Query q s = call q s"

definition QueryRow :: "dbtx \<Rightarrow> ('db, 'r option) stmt \<Rightarrow> ('db, 'e, 'r) io" where
  "QueryRow q s =
     do { r \<leftarrow> call q s;
          check r id (\<lambda>row. case row of None \<Rightarrow> err ErrNoRows | Some x \<Rightarrow> ok x) }"

definition BeginTx :: "('db, 'e, unit) io" where
  "BeginTx = State (\<lambda>w.
     let w' = w\<lparr>faults := tl (faults w)\<rparr> in
     case next_fault (faults w) of
       Fine \<Rightarrow> (Inr (), w'\<lparr>txn := Some (committed w, False)\<rparr>)
     | _ \<Rightarrow> (Inl (Opaque ''begin failed''), w'))"

definition Commit :: "('db, 'e, unit) io" where
  "Commit = State (\<lambda>w.
     case txn w of
       None \<Rightarrow> (Inl (Opaque ''tx is closed''), w)
     | Some (d, aborted) \<Rightarrow>
         let w' = w\<lparr>faults := tl (faults w), txn := None\<rparr> in
         if aborted then (Inl (Opaque ''commit unexpectedly resulted in rollback''), w')
         else
           (case next_fault (faults w) of
              Fine \<Rightarrow> (Inr (), w'\<lparr>committed := d\<rparr>)
            | Fail \<Rightarrow> (Inl (Opaque ''commit failed''), w')
            | AckLost \<Rightarrow> (Inl (Opaque ''commit failed''), w'\<lparr>committed := d\<rparr>)))"

text \<open>\<^verbatim>\<open>defer func() { _ = tx.Rollback(ctx) }()\<close>: what is still open when the body returns is undone.\<close>

definition defer_Rollback :: "('db, 'a) run \<Rightarrow> ('db, 'a) run" where
  "defer_Rollback body = State (\<lambda>w.
     case run_state body w of (r, w') \<Rightarrow> (r, w'\<lparr>txn := None\<rparr>))"

section \<open>Clock, randomness, JetStream\<close>

definition next_drift :: "nat list \<Rightarrow> int" where
  "next_drift ds = (case ds of [] \<Rightarrow> 0 | d # _ \<Rightarrow> int d)"

definition time_Now :: "('db, int) run" where
  "time_Now = State (\<lambda>w.
     let t = go_clock w + next_drift (drift w) in (t, w\<lparr>go_clock := t, drift := tl (drift w)\<rparr>))"

definition rand_Read :: "nat \<Rightarrow> ('db, 'e, string) io" where
  "rand_Read n = State (\<lambda>w.
     case entropy w of
       [] \<Rightarrow> (Inl (Opaque ''entropy''), w)
     | b # bs \<Rightarrow> (Inr (take n (b @ replicate n CHR 0x00)), w\<lparr>entropy := bs\<rparr>))"

definition js_Publish :: "string \<Rightarrow> bytes \<Rightarrow> string \<Rightarrow> ('db, 'e, unit) io" where
  "js_Publish subject data mid = State (\<lambda>w.
     let w' = w\<lparr>pub_faults := tl (pub_faults w)\<rparr>;
         m = \<lparr>msg_subject = subject, msg_data = data, msg_id = mid\<rparr> in
     case next_fault (pub_faults w) of
       Fine \<Rightarrow> (Inr (), w'\<lparr>stream := stream w @ [m]\<rparr>)
     | Fail \<Rightarrow> (Inl (Opaque ''publish failed''), w')
     | AckLost \<Rightarrow> (Inl (Opaque ''publish failed''), w'\<lparr>stream := stream w @ [m]\<rparr>))"

definition get_locked :: "('db, int list) run" where
  "get_locked = State (\<lambda>w. (locked w, w))"

end
