(* ===== verification/Effects.thy ===== *)
theory Effects
  imports World
begin

text \<open>
  Weakest preconditions for the effectful computations: \<open>wp m Q w\<close> says that running \<open>m\<close> from
  \<open>w\<close> ends in a result and a world related by \<open>Q\<close>. Every primitive has one equation in the
  collection \<open>wp_simps\<close>, so \<open>simp add: wp_simps\<close> turns a handler into the conjunction of its
  paths. The second part states what every handler shares: it leaves no transaction open, and
  the frame of a computation that never touches the stream or the database.
\<close>

definition wp :: "('s, 'a) state \<Rightarrow> ('a \<Rightarrow> 's \<Rightarrow> bool) \<Rightarrow> 's \<Rightarrow> bool" where
  "wp m Q w = (case run_state m w of (r, w') \<Rightarrow> Q r w')"

lemma wpI: "(\<And>r w'. run_state m w = (r, w') \<Longrightarrow> Q r w') \<Longrightarrow> wp m Q w"
  by (simp add: wp_def split: prod.splits)

lemma wpD: "wp m Q w \<Longrightarrow> run_state m w = (r, w') \<Longrightarrow> Q r w'"
  by (simp add: wp_def)

lemma wp_mono: "wp m Q w \<Longrightarrow> (\<And>r w'. Q r w' \<Longrightarrow> R r w') \<Longrightarrow> wp m R w"
  by (simp add: wp_def split: prod.splits)

lemma wp_conj: "wp m (\<lambda>r w'. P r w' \<and> Q r w') w \<longleftrightarrow> wp m P w \<and> wp m Q w"
  by (simp add: wp_def split: prod.splits)

lemma wp_return [wp_simps]: "wp (ret x) Q w = Q x w"
  by (simp add: wp_def)

lemma wp_bind [wp_simps]: "wp (m \<bind> f) Q w = wp m (\<lambda>r. wp (f r) Q) w"
  by (simp add: wp_def split: prod.splits)

lemma wp_check [wp_simps]:
  "wp (check r h k) Q w = (case r of Inl e \<Rightarrow> Q (Inl (h e)) w | Inr x \<Rightarrow> wp (k x) Q w)"
  by (simp add: check_def wp_return split: sum.splits)

lemma wp_if [wp_simps]: "wp (if b then m else n) Q w = (if b then wp m Q w else wp n Q w)"
  by simp

lemma wp_case_option [wp_simps]:
  "wp (case x of None \<Rightarrow> m | Some a \<Rightarrow> f a) Q w = (case x of None \<Rightarrow> wp m Q w | Some a \<Rightarrow> wp (f a) Q w)"
  by (simp split: option.splits)

lemma wp_case_sum [wp_simps]:
  "wp (case x of Inl a \<Rightarrow> f a | Inr b \<Rightarrow> g b) Q w = (case x of Inl a \<Rightarrow> wp (f a) Q w | Inr b \<Rightarrow> wp (g b) Q w)"
  by (simp split: sum.splits)

lemma wp_case_prod [wp_simps]:
  "wp (case x of (a, b) \<Rightarrow> f a b) Q w = (case x of (a, b) \<Rightarrow> wp (f a b) Q w)"
  by (simp split: prod.splits)

section \<open>Statements\<close>

text \<open>Outside a transaction a statement commits by itself.\<close>

lemma wp_call_Pool [wp_simps]:
  "wp (call Pool s) Q w =
     (let w' = w\<lparr>faults := tl (faults w)\<rparr> in
      case next_fault (faults w) of
        Fail \<Rightarrow> Q (Inl (Opaque ''connection failure'')) w'
      | Fine \<Rightarrow>
          (case s (pg_clock w) (committed w) of
             Inl (code, cn) \<Rightarrow> Q (Inl (PgError code cn)) w'
           | Inr (r, d) \<Rightarrow> Q (Inr r) (w'\<lparr>committed := d\<rparr>))
      | AckLost \<Rightarrow>
          (case s (pg_clock w) (committed w) of
             Inl _ \<Rightarrow> Q (Inl (Opaque ''connection failure'')) w'
           | Inr (_, d) \<Rightarrow> Q (Inl (Opaque ''connection failure'')) (w'\<lparr>committed := d\<rparr>)))"
  by (auto simp: wp_def call_def run_pool_def Let_def split: fault.splits sum.splits prod.splits)

text \<open>Inside one it works on the copy, and a failure aborts the transaction.\<close>

lemma wp_call_Tx [wp_simps]:
  "wp (call Tx s) Q w =
     (case txn w of
        None \<Rightarrow> Q (Inl (Opaque ''tx is closed'')) w
      | Some (d, aborted) \<Rightarrow>
          if aborted then Q (Inl (PgError ''25P02'' '''')) w
          else
            (let w' = w\<lparr>faults := tl (faults w)\<rparr> in
             case next_fault (faults w) of
               Fine \<Rightarrow>
                 (case s (pg_clock w) d of
                    Inl (code, cn) \<Rightarrow> Q (Inl (PgError code cn)) (w'\<lparr>txn := Some (d, True)\<rparr>)
                  | Inr (r, d') \<Rightarrow> Q (Inr r) (w'\<lparr>txn := Some (d', False)\<rparr>))
             | _ \<Rightarrow> Q (Inl (Opaque ''connection failure'')) (w'\<lparr>txn := Some (d, True)\<rparr>)))"
  by (auto simp: wp_def call_def run_tx_def Let_def split: fault.splits sum.splits prod.splits option.splits)

lemma wp_Exec [wp_simps]: "wp (Exec q s) Q w = wp (call q s) Q w"
  by (simp add: Exec_def)

lemma wp_Query [wp_simps]: "wp (Query q s) Q w = wp (call q s) Q w"
  by (simp add: Query_def)

lemma wp_QueryRow [wp_simps]:
  "wp (QueryRow q s) Q w =
     wp (call q s)
       (\<lambda>r. case r of Inl e \<Rightarrow> Q (Inl e) | Inr None \<Rightarrow> Q (Inl ErrNoRows) | Inr (Some x) \<Rightarrow> Q (Inr x)) w"
proof -
  have "wp (check r id (\<lambda>row. case row of None \<Rightarrow> err ErrNoRows | Some x \<Rightarrow> ok x)) Q =
     (case r of Inl e \<Rightarrow> Q (Inl e) | Inr None \<Rightarrow> Q (Inl ErrNoRows) | Inr (Some x) \<Rightarrow> Q (Inr x))"
    for r by (rule ext) (auto simp: wp_check wp_case_option wp_return split: sum.splits option.splits)
  then show ?thesis by (simp add: QueryRow_def wp_bind)
qed

lemma wp_BeginTx [wp_simps]:
  "wp BeginTx Q w =
     (let w' = w\<lparr>faults := tl (faults w)\<rparr> in
      case next_fault (faults w) of
        Fine \<Rightarrow> Q (Inr ()) (w'\<lparr>txn := Some (committed w, False)\<rparr>)
      | _ \<Rightarrow> Q (Inl (Opaque ''begin failed'')) w')"
  by (auto simp: wp_def BeginTx_def Let_def split: fault.splits)

lemma wp_Commit [wp_simps]:
  "wp Commit Q w =
     (case txn w of
        None \<Rightarrow> Q (Inl (Opaque ''tx is closed'')) w
      | Some (d, aborted) \<Rightarrow>
          let w' = w\<lparr>faults := tl (faults w), txn := None\<rparr> in
          if aborted then Q (Inl (Opaque ''commit unexpectedly resulted in rollback'')) w'
          else
            (case next_fault (faults w) of
               Fine \<Rightarrow> Q (Inr ()) (w'\<lparr>committed := d\<rparr>)
             | Fail \<Rightarrow> Q (Inl (Opaque ''commit failed'')) w'
             | AckLost \<Rightarrow> Q (Inl (Opaque ''commit failed'')) (w'\<lparr>committed := d\<rparr>)))"
  by (auto simp: wp_def Commit_def Let_def split: fault.splits option.splits)

lemma wp_defer_Rollback [wp_simps]:
  "wp (defer_Rollback m) Q w = wp m (\<lambda>r w'. Q r (w'\<lparr>txn := None\<rparr>)) w"
  by (simp add: wp_def defer_Rollback_def split: prod.splits)

section \<open>Clock, randomness, JetStream\<close>

lemma wp_time_Now [wp_simps]:
  "wp time_Now Q w =
     (let t = go_clock w + next_drift (drift w) in Q t (w\<lparr>go_clock := t, drift := tl (drift w)\<rparr>))"
  by (simp add: wp_def time_Now_def Let_def)

lemma wp_rand_Read [wp_simps]:
  "wp (rand_Read n) Q w =
     (case entropy w of
        [] \<Rightarrow> Q (Inl (Opaque ''entropy'')) w
      | b # bs \<Rightarrow> Q (Inr (take n (b @ replicate n CHR 0x00))) (w\<lparr>entropy := bs\<rparr>))"
  by (simp add: wp_def rand_Read_def split: list.splits)

lemma wp_js_Publish [wp_simps]:
  "wp (js_Publish subject data mid) Q w =
     (let w' = w\<lparr>pub_faults := tl (pub_faults w)\<rparr>;
          m = \<lparr>msg_subject = subject, msg_data = data, msg_id = mid\<rparr> in
      case next_fault (pub_faults w) of
        Fine \<Rightarrow> Q (Inr ()) (w'\<lparr>stream := stream w @ [m]\<rparr>)
      | Fail \<Rightarrow> Q (Inl (Opaque ''publish failed'')) w'
      | AckLost \<Rightarrow> Q (Inl (Opaque ''publish failed'')) (w'\<lparr>stream := stream w @ [m]\<rparr>))"
  by (auto simp: wp_def js_Publish_def Let_def split: fault.splits)

lemma wp_get_locked [wp_simps]: "wp get_locked Q w = Q (locked w) w"
  by (simp add: wp_def get_locked_def)

section \<open>Good conditions\<close>

text \<open>Between two handlers no transaction is open.\<close>

definition idle :: "'db world \<Rightarrow> bool" where
  "idle w \<longleftrightarrow> txn w = None"

text \<open>An environment that does no harm: nothing fails, nothing is locked by others.\<close>

definition calm :: "'db world \<Rightarrow> bool" where
  "calm w \<longleftrightarrow> txn w = None \<and> faults w = [] \<and> pub_faults w = [] \<and> locked w = []"

definition calm_world :: "'db \<Rightarrow> int \<Rightarrow> string list \<Rightarrow> 'db world" where
  "calm_world d t rs =
     \<lparr>committed = d, txn = None, faults = [], locked = [], pg_clock = t, go_clock = t,
      drift = [], entropy = rs, pub_faults = [], stream = []\<rparr>"

lemma calm_world_simps [simp]:
  "committed (calm_world d t rs) = d"
  "txn (calm_world d t rs) = None"
  "faults (calm_world d t rs) = []"
  "locked (calm_world d t rs) = []"
  "pg_clock (calm_world d t rs) = t"
  "go_clock (calm_world d t rs) = t"
  "drift (calm_world d t rs) = []"
  "entropy (calm_world d t rs) = rs"
  "pub_faults (calm_world d t rs) = []"
  "stream (calm_world d t rs) = []"
  by (simp_all add: calm_world_def)

lemma calm_calm_world [simp]: "calm (calm_world d t rs)"
  by (simp add: calm_def)

lemma idle_calm_world [simp]: "idle (calm_world d t rs)"
  by (simp add: idle_def)

lemma calmD: "calm w \<Longrightarrow> txn w = None" "calm w \<Longrightarrow> faults w = []"
  "calm w \<Longrightarrow> pub_faults w = []" "calm w \<Longrightarrow> locked w = []"
  by (simp_all add: calm_def)

lemma calm_idle: "calm w \<Longrightarrow> idle w"
  by (simp add: calm_def idle_def)

section \<open>Transactions commit everything or nothing\<close>

text \<open>
  A computation that only touches the database through one transaction ends in the database it
  started from or in the one its commit installed: \<open>Inr\<close> tells that it was installed, an error
  tells that it was not, unless the answer to the commit was lost.
\<close>

definition run_db :: "('db, 'a) run \<Rightarrow> 'db world \<Rightarrow> 'db" where
  "run_db m w = committed (snd (run_state m w))"

definition run_result :: "('db, 'a) run \<Rightarrow> 'db world \<Rightarrow> 'a" where
  "run_result m w = fst (run_state m w)"

definition run_world :: "('db, 'a) run \<Rightarrow> 'db world \<Rightarrow> 'db world" where
  "run_world m w = snd (run_state m w)"

lemma wp_run: "wp m Q w = Q (run_result m w) (run_world m w)"
  by (simp add: wp_def run_result_def run_world_def split: prod.splits)

lemma run_db_world: "run_db m w = committed (run_world m w)"
  by (simp add: run_db_def run_world_def)

lemma run_db_wp: "wp m (\<lambda>r w'. committed w' = d) w \<Longrightarrow> run_db m w = d"
  by (simp add: wp_run run_db_world)

lemma run_result_wp: "wp m (\<lambda>r w'. r = x) w \<Longrightarrow> run_result m w = x"
  by (simp add: wp_run)

section \<open>Invariants of the database\<close>

text \<open>
  \<open>keeps I m\<close>: whatever fails, \<open>m\<close> keeps \<open>I\<close> of the committed database and of the copy an open
  transaction works on. The rules follow the structure of a handler, so that only its statements
  are left to look at. With \<open>I = R d\<close> for a reflexive and transitive \<open>R\<close> it states that \<open>R\<close>
  relates the database before and after.
\<close>

definition inv_world :: "('db \<Rightarrow> bool) \<Rightarrow> 'db world \<Rightarrow> bool" where
  "inv_world I w \<longleftrightarrow> I (committed w) \<and> (\<forall>d b. txn w = Some (d, b) \<longrightarrow> I d)"

definition keeps :: "('db \<Rightarrow> bool) \<Rightarrow> ('db, 'a) run \<Rightarrow> bool" where
  "keeps I m \<longleftrightarrow> (\<forall>w. inv_world I w \<longrightarrow> wp m (\<lambda>_. inv_world I) w)"

definition stmt_keeps :: "('db \<Rightarrow> bool) \<Rightarrow> ('db, 'r) stmt \<Rightarrow> bool" where
  "stmt_keeps I s \<longleftrightarrow> (\<forall>now d r d'. I d \<longrightarrow> s now d = Inr (r, d') \<longrightarrow> I d')"

lemma keepsD: "keeps I m \<Longrightarrow> inv_world I w \<Longrightarrow> wp m (\<lambda>_. inv_world I) w"
  by (simp add: keeps_def)

lemma keeps_run_db: "keeps I m \<Longrightarrow> idle w \<Longrightarrow> I (committed w) \<Longrightarrow> I (run_db m w)"
  using keepsD [of I m w] by (simp add: inv_world_def idle_def wp_run run_db_world)

lemma stmt_keepsI:
  "(\<And>now d r d'. I d \<Longrightarrow> s now d = Inr (r, d') \<Longrightarrow> I d') \<Longrightarrow> stmt_keeps I s"
  by (auto simp: stmt_keeps_def)

lemma keeps_return [keeps_rules]: "keeps I (ret x)"
  by (simp add: keeps_def wp_return)

lemma keeps_bind [keeps_rules]: "keeps I m \<Longrightarrow> (\<And>r. keeps I (f r)) \<Longrightarrow> keeps I (m \<bind> f)"
  unfolding keeps_def wp_bind by (blast intro: wp_mono)

lemma keeps_check [keeps_rules]: "(\<And>x. r = Inr x \<Longrightarrow> keeps I (k x)) \<Longrightarrow> keeps I (check r h k)"
  by (simp add: keeps_def wp_check split: sum.splits)

lemma keeps_if [keeps_rules]:
  "(b \<Longrightarrow> keeps I m) \<Longrightarrow> (\<not> b \<Longrightarrow> keeps I n) \<Longrightarrow> keeps I (if b then m else n)"
  by simp

lemma keeps_case_option [keeps_rules]:
  "(x = None \<Longrightarrow> keeps I m) \<Longrightarrow> (\<And>a. x = Some a \<Longrightarrow> keeps I (f a)) \<Longrightarrow>
     keeps I (case x of None \<Rightarrow> m | Some a \<Rightarrow> f a)"
  by (simp split: option.splits)

lemma keeps_case_sum [keeps_rules]:
  "(\<And>a. x = Inl a \<Longrightarrow> keeps I (f a)) \<Longrightarrow> (\<And>b. x = Inr b \<Longrightarrow> keeps I (g b)) \<Longrightarrow>
     keeps I (case x of Inl a \<Rightarrow> f a | Inr b \<Rightarrow> g b)"
  by (simp split: sum.splits)

lemma keeps_case_prod [keeps_rules]:
  "(\<And>a b. x = (a, b) \<Longrightarrow> keeps I (f a b)) \<Longrightarrow> keeps I (case x of (a, b) \<Rightarrow> f a b)"
  by (simp split: prod.splits)

lemma keeps_case_list [keeps_rules]:
  "(xs = [] \<Longrightarrow> keeps I m) \<Longrightarrow> (\<And>a as. xs = a # as \<Longrightarrow> keeps I (f a as)) \<Longrightarrow>
     keeps I (case xs of [] \<Rightarrow> m | a # as \<Rightarrow> f a as)"
  by (simp split: list.splits)

lemma keeps_Let [keeps_rules]: "(\<And>x. x = v \<Longrightarrow> keeps I (f x)) \<Longrightarrow> keeps I (let x = v in f x)"
  by simp

lemma keeps_call [keeps_rules]: "stmt_keeps I s \<Longrightarrow> keeps I (call q s)"
  by (cases q) (auto simp: keeps_def inv_world_def stmt_keeps_def wp_call_Pool wp_call_Tx Let_def
      split: fault.splits sum.splits prod.splits option.splits)

lemma keeps_Exec [keeps_rules]: "stmt_keeps I s \<Longrightarrow> keeps I (Exec q s)"
  by (simp add: Exec_def keeps_call)

lemma keeps_Query [keeps_rules]: "stmt_keeps I s \<Longrightarrow> keeps I (Query q s)"
  by (simp add: Query_def keeps_call)

lemma keeps_QueryRow [keeps_rules]: "stmt_keeps I s \<Longrightarrow> keeps I (QueryRow q s)"
  unfolding QueryRow_def by (intro keeps_rules)

lemma keeps_BeginTx [keeps_rules]: "keeps I BeginTx"
  by (auto simp: keeps_def inv_world_def wp_BeginTx Let_def split: fault.splits)

lemma keeps_Commit [keeps_rules]: "keeps I Commit"
  by (auto simp: keeps_def inv_world_def wp_Commit Let_def split: fault.splits option.splits)

lemma keeps_defer_Rollback [keeps_rules]: "keeps I m \<Longrightarrow> keeps I (defer_Rollback m)"
  by (auto simp: keeps_def wp_defer_Rollback inv_world_def elim!: wp_mono)

lemma keeps_time_Now [keeps_rules]: "keeps I time_Now"
  by (simp add: keeps_def inv_world_def wp_time_Now Let_def)

lemma keeps_rand_Read [keeps_rules]: "keeps I (rand_Read n)"
  by (simp add: keeps_def inv_world_def wp_rand_Read split: list.splits)

lemma keeps_js_Publish [keeps_rules]: "keeps I (js_Publish subject data mid)"
  by (auto simp: keeps_def inv_world_def wp_js_Publish Let_def split: fault.splits)

lemma keeps_get_locked [keeps_rules]: "keeps I get_locked"
  by (simp add: keeps_def wp_get_locked)

lemma keeps_True [simp]: "keeps (\<lambda>_. True) m"
  by (simp add: keeps_def inv_world_def wp_run)

lemmas fault_splits = fault.splits sum.splits prod.splits option.splits if_splits

end
