(* ===== verification/Contract.thy ===== *)
theory Contract
  imports Effects
begin

text \<open>
  The messages the services exchange (\<^verbatim>\<open>services/contract/events.go\<close>): subjects, event
  structs, and the JSON encoding given by the struct tags. Every event survives being encoded
  and decoded.
\<close>

section \<open>Subjects and streams\<close>

definition StreamName :: string where "StreamName = ''NOTIFICATIONS''"
definition SubjectConfirmation :: string where "SubjectConfirmation = ''notifications.confirmation''"
definition SubjectRelease :: string where "SubjectRelease = ''notifications.release''"
definition SubjectVerifyEmail :: string where "SubjectVerifyEmail = ''notifications.verify_email''"
definition SubjectAll :: string where "SubjectAll = ''notifications.>''"
definition StreamReleases :: string where "StreamReleases = ''RELEASES''"
definition SubjectReleaseFound :: string where "SubjectReleaseFound = ''releases.found''"
definition SubjectReleasesAll :: string where "SubjectReleasesAll = ''releases.>''"
definition StreamDLQ :: string where "StreamDLQ = ''NOTIFICATIONS_DLQ''"
definition SubjectDead :: string where "SubjectDead = ''dlq.notifications''"
definition StreamSaga :: string where "StreamSaga = ''SAGA''"
definition SubjectEmailSent :: string where "SubjectEmailSent = ''saga.email.sent''"
definition SubjectEmailFailed :: string where "SubjectEmailFailed = ''saga.email.failed''"
definition SubjectSagaAll :: string where "SubjectSagaAll = ''saga.>''"

lemmas subject_defs = SubjectConfirmation_def SubjectRelease_def SubjectVerifyEmail_def
  SubjectReleaseFound_def SubjectDead_def SubjectEmailSent_def SubjectEmailFailed_def

lemma subjects_distinct [simp]:
  "SubjectConfirmation \<noteq> SubjectRelease" "SubjectRelease \<noteq> SubjectConfirmation"
  "SubjectConfirmation \<noteq> SubjectVerifyEmail" "SubjectVerifyEmail \<noteq> SubjectConfirmation"
  "SubjectRelease \<noteq> SubjectVerifyEmail" "SubjectVerifyEmail \<noteq> SubjectRelease"
  "SubjectEmailSent \<noteq> SubjectEmailFailed" "SubjectEmailFailed \<noteq> SubjectEmailSent"
  by (simp_all add: subject_defs)

text \<open>The verdict a JetStream consumer gives a message.\<close>

datatype verdict = Ack | Nak

text \<open>
  JetStream delivers a message again after a \<^verbatim>\<open>Nak\<close>, up to \<^verbatim>\<open>MaxDeliver\<close> times in all:
  \<open>redeliver k handler n\<close> are its deliveries from number \<open>n\<close> on when \<open>k\<close> are left. \<open>Nak\<close> at the
  end means that it is not delivered any more.
\<close>

fun redeliver :: "nat \<Rightarrow> (nat \<Rightarrow> ('db, verdict) run) \<Rightarrow> nat \<Rightarrow> ('db, verdict) run" where
  "redeliver 0 handler n = ret Nak"
| "redeliver (Suc k) handler n =
     do { v \<leftarrow> handler n; if v = Ack then ret Ack else redeliver k handler (Suc n) }"

text \<open>A message whose every delivery fails under \<open>J\<close> is given up.\<close>

lemma redeliver_given_up:
  assumes "\<And>k n w. J (Suc k) w \<Longrightarrow> wp (handler n) (\<lambda>v w'. v = Nak \<and> J k w') w"
    and "J k w"
  shows "wp (redeliver k handler n) (\<lambda>v w'. v = Nak \<and> J 0 w') w"
  using assms(2)
proof (induction k arbitrary: n w)
  case (Suc k)
  show ?case
    unfolding redeliver.simps wp_bind by (rule wp_mono [OF assms(1) [OF Suc.prems]]) (simp add: Suc.IH)
qed (simp add: wp_return)

section \<open>Events\<close>

record ConfirmationRequested =
  cr_SagaID :: string
  cr_Email :: string
  cr_RepoName :: string
  cr_ConfirmToken :: string

record EmailSent =
  es_SagaID :: string

record EmailFailed =
  ef_SagaID :: string
  ef_Reason :: string

record VerificationRequested =
  vr_Email :: string
  vr_VerifyToken :: string

record ReleaseDetected =
  rd_Email :: string
  rd_UnsubscribeToken :: string
  rd_ReleaseTag :: string
  rd_ReleaseName :: string
  rd_ReleaseURL :: string

record ReleaseFound =
  rf_RepoID :: int
  rf_RepoName :: string
  rf_ReleaseTag :: string
  rf_ReleaseName :: string
  rf_ReleaseURL :: string

text \<open>\<open>dl_FailedAt\<close> is the RFC 3339 text of the time stamp.\<close>

record DeadLetter =
  dl_OriginalSubject :: string
  dl_Payload :: json
  dl_Reason :: string
  dl_Attempts :: int
  dl_FailedAt :: string

section \<open>Encoding\<close>

definition Marshal_ConfirmationRequested :: "ConfirmationRequested \<Rightarrow> bytes" where
  "Marshal_ConfirmationRequested ev = Json (JObj
     [(''saga_id'', JStr (cr_SagaID ev)), (''email'', JStr (cr_Email ev)),
      (''repo_name'', JStr (cr_RepoName ev)), (''confirm_token'', JStr (cr_ConfirmToken ev))])"

definition Unmarshal_ConfirmationRequested :: "bytes \<Rightarrow> ConfirmationRequested option" where
  "Unmarshal_ConfirmationRequested = json_Unmarshal
     [str_field ''saga_id'' (\<lambda>v. cr_SagaID_update (\<lambda>_. v)),
      str_field ''email'' (\<lambda>v. cr_Email_update (\<lambda>_. v)),
      str_field ''repo_name'' (\<lambda>v. cr_RepoName_update (\<lambda>_. v)),
      str_field ''confirm_token'' (\<lambda>v. cr_ConfirmToken_update (\<lambda>_. v))]
     \<lparr>cr_SagaID = '''', cr_Email = '''', cr_RepoName = '''', cr_ConfirmToken = ''''\<rparr>"

definition Marshal_EmailSent :: "EmailSent \<Rightarrow> bytes" where
  "Marshal_EmailSent ev = Json (JObj [(''saga_id'', JStr (es_SagaID ev))])"

definition Unmarshal_EmailSent :: "bytes \<Rightarrow> EmailSent option" where
  "Unmarshal_EmailSent = json_Unmarshal
     [str_field ''saga_id'' (\<lambda>v. es_SagaID_update (\<lambda>_. v))] \<lparr>es_SagaID = ''''\<rparr>"

definition Marshal_EmailFailed :: "EmailFailed \<Rightarrow> bytes" where
  "Marshal_EmailFailed ev = Json (JObj
     [(''saga_id'', JStr (ef_SagaID ev)), (''reason'', JStr (ef_Reason ev))])"

definition Unmarshal_EmailFailed :: "bytes \<Rightarrow> EmailFailed option" where
  "Unmarshal_EmailFailed = json_Unmarshal
     [str_field ''saga_id'' (\<lambda>v. ef_SagaID_update (\<lambda>_. v)),
      str_field ''reason'' (\<lambda>v. ef_Reason_update (\<lambda>_. v))]
     \<lparr>ef_SagaID = '''', ef_Reason = ''''\<rparr>"

definition Marshal_VerificationRequested :: "VerificationRequested \<Rightarrow> bytes" where
  "Marshal_VerificationRequested ev = Json (JObj
     [(''email'', JStr (vr_Email ev)), (''verify_token'', JStr (vr_VerifyToken ev))])"

definition Unmarshal_VerificationRequested :: "bytes \<Rightarrow> VerificationRequested option" where
  "Unmarshal_VerificationRequested = json_Unmarshal
     [str_field ''email'' (\<lambda>v. vr_Email_update (\<lambda>_. v)),
      str_field ''verify_token'' (\<lambda>v. vr_VerifyToken_update (\<lambda>_. v))]
     \<lparr>vr_Email = '''', vr_VerifyToken = ''''\<rparr>"

definition Marshal_ReleaseDetected :: "ReleaseDetected \<Rightarrow> bytes" where
  "Marshal_ReleaseDetected ev = Json (JObj
     [(''email'', JStr (rd_Email ev)), (''unsubscribe_token'', JStr (rd_UnsubscribeToken ev)),
      (''release_tag'', JStr (rd_ReleaseTag ev)), (''release_name'', JStr (rd_ReleaseName ev)),
      (''release_url'', JStr (rd_ReleaseURL ev))])"

definition Unmarshal_ReleaseDetected :: "bytes \<Rightarrow> ReleaseDetected option" where
  "Unmarshal_ReleaseDetected = json_Unmarshal
     [str_field ''email'' (\<lambda>v. rd_Email_update (\<lambda>_. v)),
      str_field ''unsubscribe_token'' (\<lambda>v. rd_UnsubscribeToken_update (\<lambda>_. v)),
      str_field ''release_tag'' (\<lambda>v. rd_ReleaseTag_update (\<lambda>_. v)),
      str_field ''release_name'' (\<lambda>v. rd_ReleaseName_update (\<lambda>_. v)),
      str_field ''release_url'' (\<lambda>v. rd_ReleaseURL_update (\<lambda>_. v))]
     \<lparr>rd_Email = '''', rd_UnsubscribeToken = '''', rd_ReleaseTag = '''',
      rd_ReleaseName = '''', rd_ReleaseURL = ''''\<rparr>"

definition Marshal_ReleaseFound :: "ReleaseFound \<Rightarrow> bytes" where
  "Marshal_ReleaseFound ev = Json (JObj
     [(''repo_id'', JNum (rf_RepoID ev)), (''repo_name'', JStr (rf_RepoName ev)),
      (''release_tag'', JStr (rf_ReleaseTag ev)), (''release_name'', JStr (rf_ReleaseName ev)),
      (''release_url'', JStr (rf_ReleaseURL ev))])"

definition Unmarshal_ReleaseFound :: "bytes \<Rightarrow> ReleaseFound option" where
  "Unmarshal_ReleaseFound = json_Unmarshal
     [int64_field ''repo_id'' (\<lambda>v. rf_RepoID_update (\<lambda>_. v)),
      str_field ''repo_name'' (\<lambda>v. rf_RepoName_update (\<lambda>_. v)),
      str_field ''release_tag'' (\<lambda>v. rf_ReleaseTag_update (\<lambda>_. v)),
      str_field ''release_name'' (\<lambda>v. rf_ReleaseName_update (\<lambda>_. v)),
      str_field ''release_url'' (\<lambda>v. rf_ReleaseURL_update (\<lambda>_. v))]
     \<lparr>rf_RepoID = 0, rf_RepoName = '''', rf_ReleaseTag = '''',
      rf_ReleaseName = '''', rf_ReleaseURL = ''''\<rparr>"

definition Marshal_DeadLetter :: "DeadLetter \<Rightarrow> bytes" where
  "Marshal_DeadLetter dl = Json (JObj
     [(''original_subject'', JStr (dl_OriginalSubject dl)), (''payload'', dl_Payload dl),
      (''reason'', JStr (dl_Reason dl)), (''attempts'', JNum (dl_Attempts dl)),
      (''failed_at'', JStr (dl_FailedAt dl))])"

text \<open>A time stamp decodes from a string only if \<open>time_ok\<close> (RFC 3339) accepts its text.\<close>

definition time_field :: "(string \<Rightarrow> bool) \<Rightarrow> string \<Rightarrow> (string \<Rightarrow> 'r \<Rightarrow> 'r) \<Rightarrow> 'r field" where
  "time_field time_ok name upd =
     (name, \<lambda>v r. case v of
        JStr s \<Rightarrow> if time_ok s then Some (upd s r) else None
      | JNull \<Rightarrow> Some r
      | _ \<Rightarrow> None)"

definition Unmarshal_DeadLetter :: "(string \<Rightarrow> bool) \<Rightarrow> bytes \<Rightarrow> DeadLetter option" where
  "Unmarshal_DeadLetter time_ok = json_Unmarshal
     [str_field ''original_subject'' (\<lambda>v. dl_OriginalSubject_update (\<lambda>_. v)),
      raw_field ''payload'' (\<lambda>v. dl_Payload_update (\<lambda>_. v)),
      str_field ''reason'' (\<lambda>v. dl_Reason_update (\<lambda>_. v)),
      uint64_field ''attempts'' (\<lambda>v. dl_Attempts_update (\<lambda>_. v)),
      time_field time_ok ''failed_at'' (\<lambda>v. dl_FailedAt_update (\<lambda>_. v))]
     \<lparr>dl_OriginalSubject = '''', dl_Payload = JNull, dl_Reason = '''',
      dl_Attempts = 0, dl_FailedAt = ''''\<rparr>"

section \<open>Round trips\<close>

lemma roundtrip_ConfirmationRequested [simp]:
  "Unmarshal_ConfirmationRequested (Marshal_ConfirmationRequested ev) = Some ev"
  by (simp add: Unmarshal_ConfirmationRequested_def Marshal_ConfirmationRequested_def json_simps)

lemma roundtrip_EmailSent [simp]: "Unmarshal_EmailSent (Marshal_EmailSent ev) = Some ev"
  by (simp add: Unmarshal_EmailSent_def Marshal_EmailSent_def json_simps)

lemma roundtrip_EmailFailed [simp]: "Unmarshal_EmailFailed (Marshal_EmailFailed ev) = Some ev"
  by (simp add: Unmarshal_EmailFailed_def Marshal_EmailFailed_def json_simps)

lemma roundtrip_VerificationRequested [simp]:
  "Unmarshal_VerificationRequested (Marshal_VerificationRequested ev) = Some ev"
  by (simp add: Unmarshal_VerificationRequested_def Marshal_VerificationRequested_def json_simps)

lemma roundtrip_ReleaseDetected [simp]:
  "Unmarshal_ReleaseDetected (Marshal_ReleaseDetected ev) = Some ev"
  by (simp add: Unmarshal_ReleaseDetected_def Marshal_ReleaseDetected_def json_simps)

lemma roundtrip_ReleaseFound [simp]:
  "- (2 ^ 63) \<le> rf_RepoID ev \<Longrightarrow> rf_RepoID ev < 2 ^ 63 \<Longrightarrow>
     Unmarshal_ReleaseFound (Marshal_ReleaseFound ev) = Some ev"
  by (simp add: Unmarshal_ReleaseFound_def Marshal_ReleaseFound_def json_simps)

lemma roundtrip_DeadLetter [simp]:
  "0 \<le> dl_Attempts dl \<Longrightarrow> dl_Attempts dl < 2 ^ 64 \<Longrightarrow> time_ok (dl_FailedAt dl) \<Longrightarrow>
     Unmarshal_DeadLetter time_ok (Marshal_DeadLetter dl) = Some dl"
  by (simp add: Unmarshal_DeadLetter_def Marshal_DeadLetter_def time_field_def json_simps)

lemma Marshal_ReleaseDetected_inj: "Marshal_ReleaseDetected a = Marshal_ReleaseDetected b \<Longrightarrow> a = b"
  by (metis option.inject roundtrip_ReleaseDetected)

end
