(* ===== verification/Outbox.thy ===== *)
theory Outbox
  imports Contract
begin

text \<open>
  The transactional outbox, which the subscription, auth and monitoring services each keep in a
  table of their own: rows are inserted inside the transaction of a handler, and a relay
  publishes pending rows to JetStream and marks them. This theory holds the table, the SQL
  statements, the store operations and the relay as functions of the place the table has in a
  database (\<open>get\<close> and \<open>upd\<close>) and of the prefix of the message ids; the services instantiate
  them. The locale \<open>outbox_store\<close> is the interface the relay relies on.
\<close>

section \<open>The table\<close>

record OutboxRow =
  ob_ID :: int
  ob_Subject :: string
  ob_Payload :: bytes

record outbox_rec = OutboxRow +
  ob_PublishedAt :: "int option"

record outbox_table =
  ob_rows :: "outbox_rec list"
  ob_seq :: int

abbreviation ob_row :: "outbox_rec \<Rightarrow> OutboxRow" where
  "ob_row r \<equiv> OutboxRow.truncate r"

definition insert_row :: "string \<Rightarrow> bytes \<Rightarrow> outbox_table \<Rightarrow> outbox_table" where
  "insert_row subject payload t =
     t\<lparr>ob_rows := ob_rows t @ [\<lparr>ob_ID = ob_seq t, ob_Subject = subject, ob_Payload = payload,
                                ob_PublishedAt = None\<rparr>],
       ob_seq := ob_seq t + 1\<rparr>"

text \<open>\<^verbatim>\<open>WHERE published_at IS NULL ORDER BY id LIMIT n FOR UPDATE SKIP LOCKED\<close>\<close>

definition pending :: "outbox_table \<Rightarrow> outbox_rec list" where
  "pending t = sort_key ob_ID (filter (\<lambda>r. ob_PublishedAt r = None) (ob_rows t))"

definition fetch_rows :: "nat \<Rightarrow> int list \<Rightarrow> outbox_table \<Rightarrow> OutboxRow list" where
  "fetch_rows n lk t = map ob_row (take n (filter (\<lambda>r. ob_ID r \<notin> set lk) (pending t)))"

definition mark_rows :: "int list \<Rightarrow> int \<Rightarrow> outbox_table \<Rightarrow> outbox_table" where
  "mark_rows ids now t =
     t\<lparr>ob_rows := update_where (\<lambda>r. ob_ID r \<in> set ids) (\<lambda>r. r\<lparr>ob_PublishedAt := Some now\<rparr>) (ob_rows t)\<rparr>"

section \<open>Statements and store operations\<close>

type_synonym 'db getter = "'db \<Rightarrow> outbox_table"
type_synonym 'db updater = "(outbox_table \<Rightarrow> outbox_table) \<Rightarrow> 'db \<Rightarrow> 'db"

definition insertOutboxQuery :: "'db updater \<Rightarrow> string \<Rightarrow> bytes \<Rightarrow> ('db, nat) stmt" where
  "insertOutboxQuery upd subject payload now d = Inr (1, upd (insert_row subject payload) d)"

definition fetchOutboxForUpdateQuery :: "'db getter \<Rightarrow> nat \<Rightarrow> int list \<Rightarrow> ('db, OutboxRow list) stmt" where
  "fetchOutboxForUpdateQuery get n lk now d = Inr (fetch_rows n lk (get d), d)"

definition markOutboxPublishedQuery :: "'db getter \<Rightarrow> 'db updater \<Rightarrow> int list \<Rightarrow> ('db, nat) stmt" where
  "markOutboxPublishedQuery get upd ids now d =
     Inr (count_where (\<lambda>r. ob_ID r \<in> set ids) (ob_rows (get d)), upd (mark_rows ids now) d)"

definition outbox_Insert ::
  "'db updater \<Rightarrow> string \<Rightarrow> dbtx \<Rightarrow> string \<Rightarrow> bytes \<Rightarrow> ('db, 'e, unit) io" where
  "outbox_Insert upd text q subject payload =
     do { r \<leftarrow> Exec q (insertOutboxQuery upd subject payload);
          check r (Wrap text) (\<lambda>_. ok ()) }"

definition outbox_FetchForUpdate ::
  "'db getter \<Rightarrow> string \<Rightarrow> nat \<Rightarrow> ('db, 'e, OutboxRow list) io" where
  "outbox_FetchForUpdate get text limit =
     do { lk \<leftarrow> get_locked;
          rows \<leftarrow> Query Tx (fetchOutboxForUpdateQuery get limit lk);
          check rows (Wrap text) ok }"

definition outbox_MarkPublished ::
  "'db getter \<Rightarrow> 'db updater \<Rightarrow> string \<Rightarrow> int list \<Rightarrow> ('db, 'e, unit) io" where
  "outbox_MarkPublished get upd text ids =
     do { r \<leftarrow> Exec Tx (markOutboxPublishedQuery get upd ids);
          check r (Wrap text) (\<lambda>_. ok ()) }"

section \<open>The relay\<close>

definition batchSize :: nat where "batchSize = 100"

text \<open>The loop of \<^verbatim>\<open>publishPending\<close>: a row whose publish fails is skipped.\<close>

fun publish_rows :: "(int \<Rightarrow> string) \<Rightarrow> OutboxRow list \<Rightarrow> ('db, int list) run" where
  "publish_rows msgID [] = ret []"
| "publish_rows msgID (row # rows) =
     do { (r :: unit error + unit) \<leftarrow> js_Publish (ob_Subject row) (ob_Payload row) (msgID (ob_ID row));
          published \<leftarrow> publish_rows msgID rows;
          ret (case r of Inl _ \<Rightarrow> published | Inr _ \<Rightarrow> ob_ID row # published) }"

definition publish_pending ::
  "(nat \<Rightarrow> ('db, 'e, OutboxRow list) io) \<Rightarrow> (int list \<Rightarrow> ('db, 'e, unit) io) \<Rightarrow>
     (int \<Rightarrow> string) \<Rightarrow> ('db, 'e, unit) io" where
  "publish_pending Fetch Mark msgID =
     do { tx \<leftarrow> BeginTx;
          check tx id (\<lambda>_. defer_Rollback (do {
            rows \<leftarrow> Fetch batchSize;
            check rows id (\<lambda>rows.
              if rows = [] then ok ()
              else do {
                published \<leftarrow> publish_rows msgID rows;
                if published = [] then ok ()
                else do { r \<leftarrow> Mark published; check r id (\<lambda>_. Commit) } }) })) }"

section \<open>Facts on the table\<close>

lemma ob_row_simps [simp]:
  "ob_ID (ob_row r) = ob_ID r" "ob_Subject (ob_row r) = ob_Subject r" "ob_Payload (ob_row r) = ob_Payload r"
  by (simp_all add: OutboxRow.truncate_def)

lemma set_pending [simp]: "set (pending t) = {r \<in> set (ob_rows t). ob_PublishedAt r = None}"
  by (simp add: pending_def)

lemma sorted_pending [simp]: "sorted (map ob_ID (pending t))"
  by (simp add: pending_def)

lemma in_fetch_rows:
  "x \<in> set (fetch_rows n lk t) \<Longrightarrow>
     \<exists>r \<in> set (ob_rows t). ob_PublishedAt r = None \<and> ob_ID r \<notin> set lk \<and> x = ob_row r"
  by (auto simp: fetch_rows_def dest!: in_set_takeD)

lemma length_fetch_rows: "length (fetch_rows n lk t) \<le> n"
  by (simp add: fetch_rows_def)

definition outbox_wf :: "outbox_table \<Rightarrow> bool" where
  "outbox_wf t \<longleftrightarrow> sorted (map ob_ID (ob_rows t)) \<and> distinct (map ob_ID (ob_rows t)) \<and>
     (\<forall>r \<in> set (ob_rows t). ob_ID r < ob_seq t)"

lemma outbox_wf_insert: "outbox_wf t \<Longrightarrow> outbox_wf (insert_row subject payload t)"
  by (force simp: outbox_wf_def insert_row_def sorted_append)

lemma map_ob_ID_mark [simp]: "map ob_ID (ob_rows (mark_rows ids now t)) = map ob_ID (ob_rows t)"
  by (simp add: mark_rows_def map_update_where)

lemma outbox_wf_mark: "outbox_wf t \<Longrightarrow> outbox_wf (mark_rows ids now t)"
proof -
  assume wf: "outbox_wf t"
  have "\<forall>r \<in> set (ob_rows (mark_rows ids now t)). ob_ID r < ob_seq t"
    using wf by (auto simp: outbox_wf_def mark_rows_def in_set_update_where)
  then show ?thesis using wf by (simp add: outbox_wf_def) (simp add: mark_rows_def)
qed

lemma pending_wf: "outbox_wf t \<Longrightarrow> pending t = filter (\<lambda>r. ob_PublishedAt r = None) (ob_rows t)"
  unfolding pending_def outbox_wf_def
  by (rule sort_key_id_if_sorted) (simp add: sorted_filter)

lemma pending_insert:
  "outbox_wf t \<Longrightarrow> pending (insert_row subject payload t) =
     pending t @ [\<lparr>ob_ID = ob_seq t, ob_Subject = subject, ob_Payload = payload, ob_PublishedAt = None\<rparr>]"
  by (simp add: pending_wf outbox_wf_insert) (simp add: insert_row_def)

lemma pending_mark:
  "outbox_wf t \<Longrightarrow> pending (mark_rows ids now t) = filter (\<lambda>r. ob_ID r \<notin> set ids) (pending t)"
proof -
  have "filter (\<lambda>r. ob_PublishedAt r = None)
          (update_where (\<lambda>r. ob_ID r \<in> set ids) (\<lambda>r. r\<lparr>ob_PublishedAt := Some now\<rparr>) rs)
        = filter (\<lambda>r. ob_ID r \<notin> set ids) (filter (\<lambda>r. ob_PublishedAt r = None) rs)" for rs
    by (induction rs) auto
  then show "outbox_wf t \<Longrightarrow> ?thesis"
    by (simp add: pending_wf outbox_wf_mark) (simp add: mark_rows_def)
qed

end
