(* ===== verification/Relay.thy ===== *)
theory Relay
  imports Outbox
begin

text \<open>
  What the outbox relay guarantees, proved once against the interface of the outbox store and
  used for the three relays of the repository: a row is marked published only if JetStream has
  stored its message (at least once), no message is made up, two stored messages with the same
  id are the same message, and when nothing fails every pending row is published exactly once
  and in the order of the ids.
\<close>

section \<open>One publish loop\<close>

definition msg_of :: "(int \<Rightarrow> string) \<Rightarrow> OutboxRow \<Rightarrow> js_msg" where
  "msg_of msgID row =
     \<lparr>msg_subject = ob_Subject row, msg_data = ob_Payload row, msg_id = msgID (ob_ID row)\<rparr>"

text \<open>The ids the loop reports as published, and the rows JetStream stored.\<close>

fun publish_outcome :: "fault list \<Rightarrow> OutboxRow list \<Rightarrow> int list \<times> OutboxRow list" where
  "publish_outcome fs [] = ([], [])"
| "publish_outcome fs (row # rows) =
     (let (acked, stored) = publish_outcome (tl fs) rows in
      case next_fault fs of
        Fine \<Rightarrow> (ob_ID row # acked, row # stored)
      | Fail \<Rightarrow> (acked, stored)
      | AckLost \<Rightarrow> (acked, row # stored))"

abbreviation acked :: "fault list \<Rightarrow> OutboxRow list \<Rightarrow> int list" where
  "acked fs rows \<equiv> fst (publish_outcome fs rows)"

abbreviation stored :: "fault list \<Rightarrow> OutboxRow list \<Rightarrow> OutboxRow list" where
  "stored fs rows \<equiv> snd (publish_outcome fs rows)"

lemma drop_Suc_tl: "drop (Suc n) xs = drop n (tl xs)"
  by (cases xs) simp_all

lemma wp_publish_rows [wp_simps]:
  "wp (publish_rows msgID rows) Q w =
     Q (acked (pub_faults w) rows)
       (w\<lparr>pub_faults := drop (length rows) (pub_faults w),
          stream := stream w @ map (msg_of msgID) (stored (pub_faults w) rows)\<rparr>)"
proof (induction rows arbitrary: w Q)
  case Nil
  then show ?case by (simp add: wp_simps)
next
  case (Cons row rows)
  show ?case
    by (cases "next_fault (pub_faults w)")
      (simp_all add: wp_simps Cons.IH Let_def split_def msg_of_def drop_Suc_tl)
qed

lemma acked_stored: "i \<in> set (acked fs rows) \<Longrightarrow> \<exists>row \<in> set (stored fs rows). ob_ID row = i"
  by (induction fs rows rule: publish_outcome.induct)
    (auto simp: Let_def split_def split: fault.splits)

lemma set_stored: "set (stored fs rows) \<subseteq> set rows"
  by (induction fs rows rule: publish_outcome.induct)
    (auto simp: Let_def split_def split: fault.splits)

lemma publish_outcome_calm [simp]: "publish_outcome [] rows = (map ob_ID rows, rows)"
  by (induction rows) simp_all

section \<open>The interface of an outbox store\<close>

text \<open>
  A store operation run inside a transaction: it works on the copy, or it fails with a fixed
  error and the transaction is aborted.
\<close>

definition tx_stmt ::
  "('db, 'e, 'r) io \<Rightarrow> 'e error \<Rightarrow> (int list \<Rightarrow> int \<Rightarrow> 'db \<Rightarrow> 'r \<times> 'db) \<Rightarrow> bool" where
  "tx_stmt m e f \<longleftrightarrow> (\<forall>w d Q. txn w = Some (d, False) \<longrightarrow>
     wp m Q w =
       (let w' = w\<lparr>faults := tl (faults w)\<rparr> in
        case next_fault (faults w) of
          Fine \<Rightarrow> (case f (locked w) (pg_clock w) d of (r, d') \<Rightarrow> Q (Inr r) (w'\<lparr>txn := Some (d', False)\<rparr>))
        | _ \<Rightarrow> Q (Inl e) (w'\<lparr>txn := Some (d, True)\<rparr>)))"

lemma tx_stmtD:
  "tx_stmt m e f \<Longrightarrow> txn w = Some (d, False) \<Longrightarrow>
     wp m Q w =
       (let w' = w\<lparr>faults := tl (faults w)\<rparr> in
        case next_fault (faults w) of
          Fine \<Rightarrow> (case f (locked w) (pg_clock w) d of (r, d') \<Rightarrow> Q (Inr r) (w'\<lparr>txn := Some (d', False)\<rparr>))
        | _ \<Rightarrow> Q (Inl e) (w'\<lparr>txn := Some (d, True)\<rparr>))"
  by (simp add: tx_stmt_def)

locale outbox_store =
  fixes tbl :: "'db \<Rightarrow> outbox_table"
    and Fetch :: "nat \<Rightarrow> ('db, 'e, OutboxRow list) io"
    and Mark :: "int list \<Rightarrow> ('db, 'e, unit) io"
    and fetch_error :: "'e error"
    and mark_error :: "'e error"
    and marked :: "int list \<Rightarrow> int \<Rightarrow> 'db \<Rightarrow> 'db"
    and enqueued :: "string \<Rightarrow> bytes \<Rightarrow> 'db \<Rightarrow> 'db"
  assumes Fetch_stmt: "tx_stmt (Fetch n) fetch_error (\<lambda>lk now d. (fetch_rows n lk (tbl d), d))"
    and Mark_stmt: "tx_stmt (Mark ids) mark_error (\<lambda>lk now d. ((), marked ids now d))"
    and tbl_marked: "tbl (marked ids now d) = mark_rows ids now (tbl d)"
    and tbl_enqueued: "tbl (enqueued subject payload d) = insert_row subject payload (tbl d)"
begin

text \<open>The rows one tick fetches, and the outcome of publishing them.\<close>

abbreviation batch :: "'db world \<Rightarrow> OutboxRow list" where
  "batch w \<equiv> fetch_rows batchSize (locked w) (tbl (committed w))"

lemma tick_post:
  assumes "txn w = None"
  shows "wp (publish_pending Fetch Mark msgID)
    (\<lambda>r w'. txn w' = None \<and>
       (stream w' = stream w \<and> committed w' = committed w
        \<or> stream w' = stream w @ map (msg_of msgID) (stored (pub_faults w) (batch w)) \<and>
          (committed w' = committed w
           \<or> committed w' = marked (acked (pub_faults w) (batch w)) (pg_clock w) (committed w)))) w"
  using assms
  by (auto simp: publish_pending_def wp_simps tx_stmtD [OF Fetch_stmt] tx_stmtD [OF Mark_stmt]
      Let_def split: fault.splits)

lemma tick_calm:
  assumes "txn w = None" "faults w = []" "pub_faults w = []"
  shows "wp (publish_pending Fetch Mark msgID)
    (\<lambda>r w'. r = Inr () \<and> txn w' = None \<and> faults w' = [] \<and> pub_faults w' = [] \<and> locked w' = locked w \<and>
       pg_clock w' = pg_clock w \<and>
       stream w' = stream w @ map (msg_of msgID) (batch w) \<and>
       (if batch w = [] then committed w' = committed w
        else committed w' = marked (map ob_ID (batch w)) (pg_clock w) (committed w))) w"
  using assms
  by (auto simp: publish_pending_def wp_simps tx_stmtD [OF Fetch_stmt] tx_stmtD [OF Mark_stmt]
      Let_def)

end

text \<open>The store of every service has this shape.\<close>

lemma outbox_Fetch_stmt:
  "tx_stmt (outbox_FetchForUpdate get text n) (Wrap text (Opaque ''connection failure''))
     (\<lambda>lk now d. (fetch_rows n lk (get d), d))"
  by (simp add: tx_stmt_def outbox_FetchForUpdate_def wp_simps fetchOutboxForUpdateQuery_def Let_def
      split: fault.splits)

lemma outbox_Mark_stmt:
  "tx_stmt (outbox_MarkPublished get upd text ids) (Wrap text (Opaque ''connection failure''))
     (\<lambda>lk now d. ((), upd (mark_rows ids now) d))"
  by (simp add: tx_stmt_def outbox_MarkPublished_def wp_simps markOutboxPublishedQuery_def Let_def
      split: fault.splits)

section \<open>Ticks and enqueues over time\<close>

text \<open>What the environment decides before a tick of the relay.\<close>

record relay_env =
  env_faults :: "fault list"
  env_pub_faults :: "fault list"
  env_locked :: "int list"
  env_now :: int

definition rearm :: "relay_env \<Rightarrow> 'db world \<Rightarrow> 'db world" where
  "rearm e w = w\<lparr>faults := env_faults e, pub_faults := env_pub_faults e, locked := env_locked e,
                 pg_clock := env_now e\<rparr>"

lemma rearm_simps [simp]:
  "committed (rearm e w) = committed w" "txn (rearm e w) = txn w" "stream (rearm e w) = stream w"
  "faults (rearm e w) = env_faults e" "pub_faults (rearm e w) = env_pub_faults e"
  "locked (rearm e w) = env_locked e" "pg_clock (rearm e w) = env_now e"
  by (simp_all add: rearm_def)

datatype relay_event = Tick relay_env | Enqueue string bytes

fun relay_step :: "('db, 'e, unit) io \<Rightarrow> (string \<Rightarrow> bytes \<Rightarrow> 'db \<Rightarrow> 'db) \<Rightarrow> 'db world \<Rightarrow> relay_event \<Rightarrow> 'db world" where
  "relay_step tick enq w (Tick e) = run_world tick (rearm e w)"
| "relay_step tick enq w (Enqueue subject payload) = w\<lparr>committed := enq subject payload (committed w)\<rparr>"

fun relay_run :: "('db, 'e, unit) io \<Rightarrow> (string \<Rightarrow> bytes \<Rightarrow> 'db \<Rightarrow> 'db) \<Rightarrow> relay_event list \<Rightarrow> 'db world \<Rightarrow> 'db world" where
  "relay_run tick enq [] w = w"
| "relay_run tick enq (ev # evs) w = relay_run tick enq evs (relay_step tick enq w ev)"

text \<open>At least once: a row marked published has its message in the stream.\<close>

definition marked_stored :: "(int \<Rightarrow> string) \<Rightarrow> outbox_table \<Rightarrow> js_msg list \<Rightarrow> bool" where
  "marked_stored msgID t ms \<longleftrightarrow>
     (\<forall>r \<in> set (ob_rows t). ob_PublishedAt r \<noteq> None \<longrightarrow> msg_of msgID (ob_row r) \<in> set ms)"

text \<open>Nothing made up: a stored message is the message of a row of the table.\<close>

definition stored_enqueued :: "(int \<Rightarrow> string) \<Rightarrow> outbox_table \<Rightarrow> js_msg list \<Rightarrow> bool" where
  "stored_enqueued msgID t ms \<longleftrightarrow> set ms \<subseteq> (\<lambda>r. msg_of msgID (ob_row r)) ` set (ob_rows t)"

definition relay_inv :: "(int \<Rightarrow> string) \<Rightarrow> outbox_table \<Rightarrow> js_msg list \<Rightarrow> bool" where
  "relay_inv msgID t ms \<longleftrightarrow> outbox_wf t \<and> marked_stored msgID t ms \<and> stored_enqueued msgID t ms"

lemma relay_inv_append:
  assumes inv: "relay_inv msgID t ms"
    and new: "set rows \<subseteq> set (fetch_rows n lk t)"
  shows "relay_inv msgID t (ms @ map (msg_of msgID) rows)"
proof -
  have "set (map (msg_of msgID) rows) \<subseteq> (\<lambda>r. msg_of msgID (ob_row r)) ` set (ob_rows t)"
    using new by (auto dest!: subsetD in_fetch_rows)
  then show ?thesis
    using inv by (auto simp: relay_inv_def marked_stored_def stored_enqueued_def)
qed

lemma ob_row_mark [simp]: "ob_row (r\<lparr>ob_PublishedAt := p\<rparr>) = ob_row r"
  by (simp add: OutboxRow.truncate_def)

lemma msgs_of_mark:
  "(\<lambda>r. msg_of msgID (ob_row r)) ` set (ob_rows (mark_rows ids now t)) =
   (\<lambda>r. msg_of msgID (ob_row r)) ` set (ob_rows t)"
proof -
  have "map (\<lambda>r. msg_of msgID (ob_row r)) (ob_rows (mark_rows ids now t)) =
        map (\<lambda>r. msg_of msgID (ob_row r)) (ob_rows t)"
    unfolding mark_rows_def by (simp add: map_update_where)
  then show ?thesis by (metis list.set_map)
qed

lemma relay_inv_mark:
  assumes inv: "relay_inv msgID t ms"
    and st: "\<And>i. i \<in> set ids \<Longrightarrow>
       \<exists>r \<in> set (ob_rows t). ob_ID r = i \<and> msg_of msgID (ob_row r) \<in> set ms"
  shows "relay_inv msgID (mark_rows ids now t) ms"
proof -
  have wf: "outbox_wf t" using inv by (simp add: relay_inv_def)
  have "msg_of msgID (ob_row r) \<in> set ms"
    if r: "r \<in> set (ob_rows t)" "ob_ID r \<in> set ids" for r
  proof -
    obtain r' where r': "r' \<in> set (ob_rows t)" "ob_ID r' = ob_ID r" "msg_of msgID (ob_row r') \<in> set ms"
      using st [OF r(2)] by blast
    then have "r' = r"
      using wf r(1) by (auto simp: outbox_wf_def dest: distinct_map_eqD)
    then show ?thesis using r'(3) by simp
  qed
  then have "marked_stored msgID (mark_rows ids now t) ms"
    using inv unfolding relay_inv_def marked_stored_def mark_rows_def
    by (auto simp: in_set_update_where split: if_splits)
  then show ?thesis
    using inv wf by (simp add: relay_inv_def outbox_wf_mark stored_enqueued_def msgs_of_mark)
qed

lemma relay_inv_insert:
  "relay_inv msgID t ms \<Longrightarrow> relay_inv msgID (insert_row subject payload t) ms"
  using outbox_wf_insert [of t subject payload] unfolding relay_inv_def
  by (auto simp: marked_stored_def stored_enqueued_def insert_row_def)

context outbox_store begin

lemma tick_inv:
  assumes "txn w = None" "relay_inv msgID (tbl (committed w)) (stream w)"
  shows "wp (publish_pending Fetch Mark msgID)
    (\<lambda>r w'. txn w' = None \<and> relay_inv msgID (tbl (committed w')) (stream w')) w"
proof (rule wp_mono [OF tick_post [OF assms(1)]])
  fix r w'
  let ?rows = "stored (pub_faults w) (batch w)" and ?ids = "acked (pub_faults w) (batch w)"
  let ?t = "tbl (committed w)"
  let ?ms = "stream w @ map (msg_of msgID) ?rows"
  have inv: "relay_inv msgID ?t ?ms"
    using assms(2) set_stored by (rule relay_inv_append)
  have "relay_inv msgID (mark_rows ?ids now ?t) ?ms" for now
  proof (rule relay_inv_mark [OF inv])
    fix i assume "i \<in> set ?ids"
    then obtain row where row: "row \<in> set ?rows" "ob_ID row = i"
      using acked_stored by blast
    moreover obtain x where "x \<in> set (ob_rows ?t)" "row = ob_row x"
      using row(1) set_stored in_fetch_rows by blast
    ultimately show "\<exists>x \<in> set (ob_rows ?t). ob_ID x = i \<and> msg_of msgID (ob_row x) \<in> set ?ms"
      by (intro bexI [of _ x]) auto
  qed
  then show "txn w' = None \<and> (stream w' = stream w \<and> committed w' = committed w \<or>
      stream w' = ?ms \<and> (committed w' = committed w \<or> committed w' = marked ?ids (pg_clock w) (committed w)))
    \<Longrightarrow> txn w' = None \<and> relay_inv msgID (tbl (committed w')) (stream w')"
    using assms(2) inv by (auto simp: tbl_marked)
qed

lemma run_inv:
  "txn w = None \<Longrightarrow> relay_inv msgID (tbl (committed w)) (stream w) \<Longrightarrow>
   txn (relay_run (publish_pending Fetch Mark msgID) enqueued evs w) = None \<and>
   relay_inv msgID (tbl (committed (relay_run (publish_pending Fetch Mark msgID) enqueued evs w)))
     (stream (relay_run (publish_pending Fetch Mark msgID) enqueued evs w))"
proof (induction evs arbitrary: w)
  case Nil
  then show ?case by simp
next
  case (Cons ev evs)
  have "txn (relay_step (publish_pending Fetch Mark msgID) enqueued w ev) = None \<and>
    relay_inv msgID (tbl (committed (relay_step (publish_pending Fetch Mark msgID) enqueued w ev)))
      (stream (relay_step (publish_pending Fetch Mark msgID) enqueued w ev))"
  proof (cases ev)
    case (Tick e)
    then show ?thesis
      using tick_inv [of "rearm e w" msgID] Cons.prems by (simp add: wp_run)
  next
    case (Enqueue subject payload)
    then show ?thesis using Cons.prems by (simp add: tbl_enqueued relay_inv_insert)
  qed
  then show ?case using Cons.IH by simp
qed

end

section \<open>Deduplication\<close>

text \<open>
  JetStream drops a message whose id it has seen; with an injective id that never loses another
  message, because stored messages with the same id are equal.
\<close>

lemma relay_inv_dedup:
  assumes inv: "relay_inv msgID t ms" and inj: "inj msgID"
    and m: "m1 \<in> set ms" "m2 \<in> set ms" "msg_id m1 = msg_id m2"
  shows "m1 = m2"
proof -
  obtain r1 r2 where r: "r1 \<in> set (ob_rows t)" "m1 = msg_of msgID (ob_row r1)"
    "r2 \<in> set (ob_rows t)" "m2 = msg_of msgID (ob_row r2)"
    using inv m(1,2) unfolding relay_inv_def stored_enqueued_def by blast
  then have "ob_ID r1 = ob_ID r2" using m(3) inj by (simp add: msg_of_def inj_eq)
  then have "r1 = r2"
    using r inv by (auto simp: relay_inv_def outbox_wf_def dest: distinct_map_eqD)
  then show ?thesis using r by simp
qed

section \<open>Progress when nothing fails\<close>

lemma filter_notin_take:
  "distinct (map key xs) \<Longrightarrow> filter (\<lambda>r. key r \<notin> key ` set (take n xs)) xs = drop n xs"
proof (induction xs arbitrary: n)
  case (Cons x xs)
  show ?case
  proof (cases n)
    case 0
    then show ?thesis by simp
  next
    case (Suc m)
    have "filter (\<lambda>r. key r \<notin> key ` set (take n (x # xs))) xs
        = filter (\<lambda>r. key r \<notin> key ` set (take m xs)) xs"
      using Cons.prems using Suc by (intro filter_cong) (auto simp: image_iff)
    then show ?thesis using Cons by (simp add: Suc)
  qed
qed simp

definition calm_tick :: "relay_event \<Rightarrow> bool" where
  "calm_tick ev = (case ev of
     Tick e \<Rightarrow> env_faults e = [] \<and> env_pub_faults e = [] \<and> env_locked e = []
   | Enqueue _ _ \<Rightarrow> False)"

lemma fetch_rows_unlocked: "fetch_rows n [] t = map ob_row (take n (pending t))"
  by (simp add: fetch_rows_def)

lemma pending_distinct: "outbox_wf t \<Longrightarrow> distinct (map ob_ID (pending t))"
  by (simp add: pending_wf outbox_wf_def distinct_map_filter)

lemma pending_mark_batch:
  assumes "outbox_wf t"
  shows "pending (mark_rows (map ob_ID (fetch_rows n [] t)) now t) = drop n (pending t)"
proof -
  have "set (map ob_ID (fetch_rows n [] t)) = ob_ID ` set (take n (pending t))"
    by (auto simp: fetch_rows_unlocked image_image)
  then show ?thesis
    using filter_notin_take [OF pending_distinct [OF assms], of n]
    by (simp only: pending_mark [OF assms])
qed

lemma pending_mark_take:
  "outbox_wf t \<Longrightarrow>
     pending (mark_rows (map ob_ID (take n (pending t))) now t) = drop n (pending t)"
  using pending_mark_batch [of t n now] by (simp add: fetch_rows_unlocked comp_def)

context outbox_store begin

lemma calm_step:
  fixes msgID :: "int \<Rightarrow> string"
  assumes "txn w = None" "outbox_wf (tbl (committed w))" "calm_tick ev"
  defines "w' \<equiv> relay_step (publish_pending Fetch Mark msgID) enqueued w ev"
  shows "txn w' = None \<and> outbox_wf (tbl (committed w')) \<and>
    pending (tbl (committed w')) = drop batchSize (pending (tbl (committed w))) \<and>
    stream w' = stream w @ map (\<lambda>r. msg_of msgID (ob_row r)) (take batchSize (pending (tbl (committed w))))"
proof -
  obtain e where e: "ev = Tick e" "env_faults e = []" "env_pub_faults e = []" "env_locked e = []"
    using assms(3) by (cases ev) (auto simp: calm_tick_def)
  have none: "batch (rearm e w) = [] \<longleftrightarrow> pending (tbl (committed w)) = []"
    by (simp add: e fetch_rows_unlocked batchSize_def)
  show ?thesis
    using tick_calm [of "rearm e w" msgID] assms(1,2) none
    unfolding w'_def
    by (cases "batch (rearm e w) = []")
      (auto simp: e wp_run tbl_marked pending_mark_take outbox_wf_mark fetch_rows_unlocked comp_def)
qed

lemma calm_run:
  fixes msgID :: "int \<Rightarrow> string"
  assumes "txn w = None" "outbox_wf (tbl (committed w))" "list_all calm_tick evs"
  defines "w' \<equiv> relay_run (publish_pending Fetch Mark msgID) enqueued evs w"
  shows "pending (tbl (committed w')) = drop (batchSize * length evs) (pending (tbl (committed w))) \<and>
    stream w' = stream w @
      map (\<lambda>r. msg_of msgID (ob_row r)) (take (batchSize * length evs) (pending (tbl (committed w))))"
  using assms(1-3) unfolding w'_def
proof (induction evs arbitrary: w)
  case Nil
  then show ?case by simp
next
  case (Cons ev evs)
  let ?v = "relay_step (publish_pending Fetch Mark msgID) enqueued w ev"
  have step: "txn ?v = None" "outbox_wf (tbl (committed ?v))"
    "pending (tbl (committed ?v)) = drop batchSize (pending (tbl (committed w)))"
    "stream ?v = stream w @
       map (\<lambda>r. msg_of msgID (ob_row r)) (take batchSize (pending (tbl (committed w))))"
    using calm_step [of w ev msgID] Cons.prems by auto
  show ?case
    using Cons.IH [OF step(1,2)] Cons.prems(3) by (simp add: step(3,4) take_add add.commute)
qed

end

end
