(* ===== verification/Github.thy ===== *)
theory Github
  imports Contract
begin

text \<open>
  The GitHub client, of which the subscription and the monitoring service each hold the same copy
  (\<^verbatim>\<open>internal/github/client.go\<close>), and the package-level errors of the two services.
  \<open>client_Do\<close> is \<^verbatim>\<open>http.Client.Do\<close> with its default policy on redirects. The HTTP transport is a
  parameter: \<open>RoundTrip\<close> answers a single request, \<open>url_ok\<close> says for which URLs
  \<^verbatim>\<open>http.NewRequestWithContext\<close> succeeds, \<open>url_Parse\<close> resolves a \<^verbatim>\<open>Location\<close>, \<open>url_referer\<close> is the
  \<^verbatim>\<open>Referer\<close> it is followed with (empty for none), and \<open>same_site\<close> says whether the headers with
  credentials go along. A response carries the value of a header by its canonical name (empty when it is
  missing).
\<close>

section \<open>Package-level errors\<close>

datatype sentinel =
    db_ErrNotFound | db_ErrAlreadyExists | db_ErrTokenConflict
  | gh_ErrRateLimited | gh_ErrUnauthorized | gh_ErrUnexpectedResponse
  | catalog_ErrInvalidRepoFormat
  | domain_ErrInvalidEmailFormat | domain_ErrInvalidRepoFormat
  | sub_ErrInvalidRepoFormat | sub_ErrTokenNotFound | sub_ErrRepoNotFound
  | sub_ErrSubscriptionAlreadyExists | sub_ErrTooMuchRequests | sub_ErrGitHubUnauthorized
  | auth_ErrKeyUnavailable

type_synonym go_error = "sentinel error"

definition gh_ErrNotFound :: go_error where
  "gh_ErrNotFound = Wrap ''repository not found'' (Sentinel db_ErrNotFound)"

section \<open>Requests and responses\<close>

record http_request =
  rq_URL :: string
  rq_Header :: "(string \<times> string) list"
  rq_Timeout :: nat

record http_response =
  rs_StatusCode :: int
  rs_Header :: "string \<Rightarrow> string"
  rs_Body :: bytes

record http_transport =
  url_ok :: "string \<Rightarrow> bool"
  RoundTrip :: "http_request \<Rightarrow> string + http_response"
  url_Parse :: "string \<Rightarrow> string \<Rightarrow> string option"
  url_referer :: "string \<Rightarrow> string \<Rightarrow> string"
  same_site :: "string \<Rightarrow> string \<Rightarrow> bool"
  time_ok :: "string \<Rightarrow> bool"

record Release =
  gr_Tag :: string
  gr_Name :: string
  gr_URL :: string
  gr_PublishedAt :: string

record latestReleaseResponse =
  lr_TagName :: string
  lr_Name :: string
  lr_HTMLURL :: string
  lr_PublishedAt :: string

record Service =
  githubToken :: "string option"
  baseURL :: string

definition GithubAPI :: string where "GithubAPI = ''https://api.github.com''"
definition githubAPIVersion :: string where "githubAPIVersion = ''2022-11-28''"
definition userAgent :: string where "userAgent = ''GithubReleaseNotificationAPI''"

definition NewGithubClient :: "string option \<Rightarrow> Service" where
  "NewGithubClient token = \<lparr>githubToken = token, baseURL = GithubAPI\<rparr>"

section \<open>The HTTP client of the standard library\<close>

definition redirects :: "http_response \<Rightarrow> bool" where
  "redirects resp \<longleftrightarrow> rs_StatusCode resp \<in> {301, 302, 303, 307, 308} \<and> rs_Header resp ''Location'' \<noteq> ''''"

text \<open>The request that follows a redirect to \<open>url\<close>; the first one went to \<open>first\<close>.\<close>

definition redirected :: "http_transport \<Rightarrow> string \<Rightarrow> http_request \<Rightarrow> string \<Rightarrow> http_request" where
  "redirected net first rq url =
     (let dropped = (if same_site net first url then [''Referer''] else [''Referer'', ''Authorization'']);
          referer = url_referer net (rq_URL rq) url in
      rq\<lparr>rq_URL := url,
         rq_Header := filter (\<lambda>h. fst h \<notin> set dropped) (rq_Header rq) @
           (if referer = '''' then [] else [(''Referer'', referer)])\<rparr>)"

text \<open>At most \<open>n\<close> redirects are followed.\<close>

fun follow :: "http_transport \<Rightarrow> string \<Rightarrow> nat \<Rightarrow> http_request \<Rightarrow> string + http_response" where
  "follow net first n rq =
     (case RoundTrip net rq of
        Inl e \<Rightarrow> Inl e
      | Inr resp \<Rightarrow>
          if \<not> redirects resp then Inr resp
          else
            (case url_Parse net (rq_URL rq) (rs_Header resp ''Location'') of
               None \<Rightarrow> Inl ''failed to parse Location header''
             | Some url \<Rightarrow>
                 (case n of
                    0 \<Rightarrow> Inl ''stopped after 10 redirects''
                  | Suc m \<Rightarrow> follow net first m (redirected net first rq url))))"

declare follow.simps [simp del]

text \<open>The default policy gives up once ten requests were made.\<close>

definition client_Do :: "http_transport \<Rightarrow> http_request \<Rightarrow> string + http_response" where
  "client_Do net rq = follow net (rq_URL rq) 9 rq"

section \<open>Operations\<close>

definition unexpected_status :: "http_response \<Rightarrow> go_error" where
  "unexpected_status resp =
     WrapEnd (Sentinel gh_ErrUnexpectedResponse) (''status '' @ FormatInt (rs_StatusCode resp))"

definition determineResponse :: "http_response \<Rightarrow> go_error option" where
  "determineResponse resp =
     (let st = rs_StatusCode resp in
      if st = 200 then None
      else if st = 404 then Some gh_ErrNotFound
      else if st = 401 then Some (Sentinel gh_ErrUnauthorized)
      else if st = 403 \<or> st = 429 then
        (if rs_Header resp ''X-Ratelimit-Remaining'' = ''0'' \<or> rs_Header resp ''Retry-After'' \<noteq> ''''
         then Some (Sentinel gh_ErrRateLimited)
         else Some (unexpected_status resp))
      else Some (unexpected_status resp))"

definition request_headers :: "Service \<Rightarrow> (string \<times> string) list" where
  "request_headers s =
     [(''Accept'', ''application/vnd.github+json''),
      (''X-Github-Api-Version'', githubAPIVersion),
      (''User-Agent'', userAgent)] @
     (case githubToken s of
        Some t \<Rightarrow> if t \<noteq> '''' then [(''Authorization'', ''Bearer '' @ t)] else []
      | None \<Rightarrow> [])"

definition doGet :: "http_transport \<Rightarrow> Service \<Rightarrow> nat \<Rightarrow> string \<Rightarrow> go_error + http_response" where
  "doGet net s timeout path =
     (if \<not> url_ok net (baseURL s @ path) then Inl (Wrap ''build github request'' (Opaque ''invalid URL''))
      else
        (case client_Do net \<lparr>rq_URL = baseURL s @ path, rq_Header = request_headers s, rq_Timeout = timeout\<rparr> of
           Inl e \<Rightarrow> Inl (Wrap ''perform github request'' (Opaque e))
         | Inr resp \<Rightarrow> Inr resp))"

definition CheckRepo :: "http_transport \<Rightarrow> Service \<Rightarrow> string \<Rightarrow> go_error option" where
  "CheckRepo net s fullName =
     (case doGet net s 10 (''/repos/'' @ TrimSpace fullName) of
        Inl e \<Rightarrow> Some e
      | Inr resp \<Rightarrow> determineResponse resp)"

definition decode_release :: "(string \<Rightarrow> bool) \<Rightarrow> bytes \<Rightarrow> latestReleaseResponse option" where
  "decode_release ok_time = json_Unmarshal
     [str_field ''tag_name'' (\<lambda>v. lr_TagName_update (\<lambda>_. v)),
      str_field ''name'' (\<lambda>v. lr_Name_update (\<lambda>_. v)),
      str_field ''html_url'' (\<lambda>v. lr_HTMLURL_update (\<lambda>_. v)),
      time_field ok_time ''published_at'' (\<lambda>v. lr_PublishedAt_update (\<lambda>_. v))]
     \<lparr>lr_TagName = '''', lr_Name = '''', lr_HTMLURL = '''', lr_PublishedAt = ''''\<rparr>"

definition toDomain :: "latestReleaseResponse \<Rightarrow> Release" where
  "toDomain r = \<lparr>gr_Tag = lr_TagName r, gr_Name = lr_Name r, gr_URL = lr_HTMLURL r,
                 gr_PublishedAt = lr_PublishedAt r\<rparr>"

definition GetLatestTag :: "http_transport \<Rightarrow> Service \<Rightarrow> string \<Rightarrow> go_error + Release" where
  "GetLatestTag net s fullName =
     (case doGet net s 5 (''/repos/'' @ TrimSpace fullName @ ''/releases/latest'') of
        Inl e \<Rightarrow> Inl e
      | Inr resp \<Rightarrow>
          (case determineResponse resp of
             Some e \<Rightarrow> Inl e
           | None \<Rightarrow>
               (case decode_release (time_ok net) (rs_Body resp) of
                  None \<Rightarrow> Inl (Wrap ''decode latest github release response'' (Opaque ''invalid JSON''))
                | Some r \<Rightarrow> Inr (toDomain r))))"

section \<open>What callers may conclude from an error\<close>

lemma determineResponse_None: "determineResponse resp = None \<longleftrightarrow> rs_StatusCode resp = 200"
  by (simp add: determineResponse_def Let_def)

lemma determineResponse_not_found:
  "(\<exists>e. determineResponse resp = Some e \<and> errors_Is e (Sentinel db_ErrNotFound))
     \<longleftrightarrow> rs_StatusCode resp = 404"
  by (simp add: determineResponse_def Let_def gh_ErrNotFound_def unexpected_status_def)

definition rate_limited :: "http_response \<Rightarrow> bool" where
  "rate_limited resp \<longleftrightarrow> rs_StatusCode resp \<in> {403, 429} \<and>
     (rs_Header resp ''X-Ratelimit-Remaining'' = ''0'' \<or> rs_Header resp ''Retry-After'' \<noteq> '''')"

lemma determineResponse_rate_limited:
  "(\<exists>e. determineResponse resp = Some e \<and> errors_Is e (Sentinel gh_ErrRateLimited))
     \<longleftrightarrow> rate_limited resp"
  by (auto simp: determineResponse_def Let_def gh_ErrNotFound_def unexpected_status_def rate_limited_def)

lemma determineResponse_unauthorized:
  "(\<exists>e. determineResponse resp = Some e \<and> errors_Is e (Sentinel gh_ErrUnauthorized))
     \<longleftrightarrow> rs_StatusCode resp = 401"
  by (simp add: determineResponse_def Let_def gh_ErrNotFound_def unexpected_status_def)

lemma doGet_error:
  "doGet net s t path = Inl e \<Longrightarrow> \<not> errors_Is e (Sentinel x)"
  by (auto simp: doGet_def split: if_splits sum.splits)

lemma CheckRepo_None:
  "CheckRepo net s name = None \<longleftrightarrow>
     (\<exists>resp. doGet net s 10 (''/repos/'' @ TrimSpace name) = Inr resp \<and> rs_StatusCode resp = 200)"
  by (auto simp: CheckRepo_def determineResponse_None split: sum.splits)

end
