(* ===== verification/SubDB.thy ===== *)
theory SubDB
  imports Relay Github
begin

text \<open>
  The subscription service's database: its tables, with the constraints of the migrations
  (serial ids, unique and foreign keys with cascade, \<^verbatim>\<open>VARCHAR(255)\<close>), the SQL statements
  of its stores as functions on the tables, and the invariant \<open>sub_wf\<close> that every statement
  keeps. An \<^verbatim>\<open>INSERT\<close> checks the value lengths, then the unique keys in the order of their
  indexes, then the foreign key.
\<close>

section \<open>Rows\<close>

record Repository =
  rp_ID :: int
  rp_FullName :: string
  rp_LastSeenTag :: string
  rp_CreatedAt :: int
  rp_UpdatedAt :: int

record Subscription =
  sb_ID :: int
  sb_Email :: string
  sb_RepositoryID :: int
  sb_Confirmed :: bool
  sb_ConfirmToken :: string
  sb_UnsubscribeToken :: string
  sb_CreatedAt :: int
  sb_ConfirmedAt :: "int option"

record SubscriptionDetails =
  sd_Email :: string
  sd_Repo :: string
  sd_Confirmed :: bool
  sd_LastSeenTag :: string

datatype SagaState =
    StateStarted
  | StateAwaitingConfirmation
  | StateCompleted
  | StateCompensating
  | StateFailed

record SagaRow =
  sg_ID :: int
  sg_SagaID :: string
  sg_SubscriptionID :: int
  sg_RepositoryID :: int
  sg_Email :: string
  sg_State :: SagaState
  sg_DeadlineAt :: int
  sg_LastError :: "string option"

record sub_db =
  repositories :: "Repository list"
  repositories_seq :: int
  subscriptions :: "Subscription list"
  subscriptions_seq :: int
  subscribe_sagas :: "SagaRow list"
  sagas_seq :: int
  outbox :: outbox_table

definition empty_sub_db :: sub_db where
  "empty_sub_db = \<lparr>repositories = [], repositories_seq = 1, subscriptions = [], subscriptions_seq = 1,
     subscribe_sagas = [], sagas_seq = 1, outbox = \<lparr>ob_rows = [], ob_seq = 1\<rparr>\<rparr>"

type_synonym 'a sub_io = "(sub_db, sentinel, 'a) io"

section \<open>Lengths\<close>

text \<open>\<^verbatim>\<open>VARCHAR(255)\<close> counts characters: the bytes that do not continue a UTF-8 sequence.\<close>

definition continuation_byte :: "char \<Rightarrow> bool" where
  "continuation_byte c = (let k = of_char c :: nat in 128 \<le> k \<and> k < 192)"

definition varchar255 :: "string \<Rightarrow> bool" where
  "varchar255 s \<longleftrightarrow> length (filter (\<lambda>c. \<not> continuation_byte c) s) \<le> 255"

lemma varchar255_short: "length s \<le> 255 \<Longrightarrow> varchar255 s"
  unfolding varchar255_def by (rule le_trans [OF length_filter_le])

section \<open>Statements on repositories\<close>

definition createRepoQuery :: "string \<Rightarrow> (sub_db, Repository option) stmt" where
  "createRepoQuery name now d =
     (if \<not> varchar255 name then Inl (StringDataRightTruncation, '''')
      else if \<exists>r \<in> set (repositories d). rp_FullName r = name
        then Inl (UniqueViolation, ''repositories_name_key'')
      else
        (let r = \<lparr>rp_ID = repositories_seq d, rp_FullName = name, rp_LastSeenTag = '''',
                  rp_CreatedAt = now, rp_UpdatedAt = now\<rparr>
         in Inr (Some r, d\<lparr>repositories := repositories d @ [r], repositories_seq := repositories_seq d + 1\<rparr>)))"

definition findByNameQuery :: "string \<Rightarrow> (sub_db, Repository option) stmt" where
  "findByNameQuery name now d = Inr (find (\<lambda>r. rp_FullName r = name) (repositories d), d)"

text \<open>\<^verbatim>\<open>ON DELETE CASCADE\<close> takes the subscriptions of the repository along.\<close>

definition delete_repository :: "int \<Rightarrow> sub_db \<Rightarrow> sub_db" where
  "delete_repository rid d =
     (if \<exists>r \<in> set (repositories d). rp_ID r = rid
      then d\<lparr>repositories := delete_where (\<lambda>r. rp_ID r = rid) (repositories d),
             subscriptions := delete_where (\<lambda>s. sb_RepositoryID s = rid) (subscriptions d)\<rparr>
      else d)"

definition deleteByIDQuery :: "int \<Rightarrow> (sub_db, nat) stmt" where
  "deleteByIDQuery rid now d =
     Inr (count_where (\<lambda>r. rp_ID r = rid) (repositories d), delete_repository rid d)"

definition listTrackedReposQuery :: "(sub_db, Repository list) stmt" where
  "listTrackedReposQuery now d = Inr (repositories d, d)"

definition updateLastSeenTagQuery :: "int \<Rightarrow> string \<Rightarrow> (sub_db, nat) stmt" where
  "updateLastSeenTagQuery rid tag now d =
     (let n = count_where (\<lambda>r. rp_ID r = rid) (repositories d) in
      if 0 < n \<and> \<not> varchar255 tag then Inl (StringDataRightTruncation, '''')
      else Inr (n, d\<lparr>repositories := update_where (\<lambda>r. rp_ID r = rid)
                       (\<lambda>r. r\<lparr>rp_LastSeenTag := tag, rp_UpdatedAt := now\<rparr>) (repositories d)\<rparr>))"

section \<open>Statements on subscriptions\<close>

definition new_subscription_row :: "Subscription \<Rightarrow> int \<Rightarrow> sub_db \<Rightarrow> Subscription" where
  "new_subscription_row s now d =
     \<lparr>sb_ID = subscriptions_seq d, sb_Email = sb_Email s, sb_RepositoryID = sb_RepositoryID s,
      sb_Confirmed = False, sb_ConfirmToken = sb_ConfirmToken s,
      sb_UnsubscribeToken = sb_UnsubscribeToken s, sb_CreatedAt = now, sb_ConfirmedAt = None\<rparr>"

definition createSubscriptionQuery :: "Subscription \<Rightarrow> (sub_db, int option) stmt" where
  "createSubscriptionQuery s now d =
     (if \<not> (varchar255 (sb_Email s) \<and> varchar255 (sb_ConfirmToken s) \<and> varchar255 (sb_UnsubscribeToken s))
        then Inl (StringDataRightTruncation, '''')
      else if \<exists>x \<in> set (subscriptions d). sb_ConfirmToken x = sb_ConfirmToken s
        then Inl (UniqueViolation, ''subscriptions_confirmation_token_key'')
      else if \<exists>x \<in> set (subscriptions d). sb_UnsubscribeToken x = sb_UnsubscribeToken s
        then Inl (UniqueViolation, ''subscriptions_unsubscribe_token_key'')
      else if \<exists>x \<in> set (subscriptions d). sb_Email x = sb_Email s \<and> sb_RepositoryID x = sb_RepositoryID s
        then Inl (UniqueViolation, ''subscriptions_email_repository_id_key'')
      else if \<not> (\<exists>r \<in> set (repositories d). rp_ID r = sb_RepositoryID s)
        then Inl (ForeignKeyViolation, ''subscriptions_repository_id_fkey'')
      else Inr (Some (subscriptions_seq d),
                d\<lparr>subscriptions := subscriptions d @ [new_subscription_row s now d],
                  subscriptions_seq := subscriptions_seq d + 1\<rparr>))"

definition findSubscriptionByUnsubscribeTokenQuery :: "string \<Rightarrow> (sub_db, Subscription option) stmt" where
  "findSubscriptionByUnsubscribeTokenQuery token now d =
     Inr (find (\<lambda>s. sb_UnsubscribeToken s = token) (subscriptions d), d)"

definition confirm_where :: "(Subscription \<Rightarrow> bool) \<Rightarrow> int \<Rightarrow> sub_db \<Rightarrow> sub_db" where
  "confirm_where P now d =
     d\<lparr>subscriptions := update_where P (\<lambda>s. s\<lparr>sb_Confirmed := True, sb_ConfirmedAt := Some now\<rparr>)
                         (subscriptions d)\<rparr>"

definition confirmSubscriptionByTokenQuery :: "string \<Rightarrow> (sub_db, int option) stmt" where
  "confirmSubscriptionByTokenQuery token now d =
     Inr (map_option sb_ID (find (\<lambda>s. sb_ConfirmToken s = token) (subscriptions d)),
          confirm_where (\<lambda>s. sb_ConfirmToken s = token) now d)"

definition delete_subscriptions :: "(Subscription \<Rightarrow> bool) \<Rightarrow> sub_db \<Rightarrow> sub_db" where
  "delete_subscriptions P d = d\<lparr>subscriptions := delete_where P (subscriptions d)\<rparr>"

definition deleteSubscriptionByUnsubscribeTokenQuery :: "string \<Rightarrow> (sub_db, nat) stmt" where
  "deleteSubscriptionByUnsubscribeTokenQuery token now d =
     Inr (count_where (\<lambda>s. sb_UnsubscribeToken s = token) (subscriptions d),
          delete_subscriptions (\<lambda>s. sb_UnsubscribeToken s = token) d)"

definition hasAnySubscriptionsByRepositoryIDQuery :: "int \<Rightarrow> (sub_db, bool option) stmt" where
  "hasAnySubscriptionsByRepositoryIDQuery rid now d =
     Inr (Some (\<exists>s \<in> set (subscriptions d). sb_RepositoryID s = rid), d)"

definition listConfirmedSubscriptionsByRepositoryIDQuery :: "int \<Rightarrow> (sub_db, Subscription list) stmt" where
  "listConfirmedSubscriptionsByRepositoryIDQuery rid now d =
     Inr (filter (\<lambda>s. sb_RepositoryID s = rid \<and> sb_Confirmed s) (subscriptions d), d)"

definition listSubscriptionDetailsByEmailQuery :: "string \<Rightarrow> (sub_db, SubscriptionDetails list) stmt" where
  "listSubscriptionDetailsByEmailQuery email now d =
     Inr (concat (map (\<lambda>s. map (\<lambda>r. \<lparr>sd_Email = sb_Email s, sd_Repo = rp_FullName r,
                                      sd_Confirmed = sb_Confirmed s, sd_LastSeenTag = rp_LastSeenTag r\<rparr>)
                             (filter (\<lambda>r. sb_RepositoryID s = rp_ID r) (repositories d)))
                    (filter (\<lambda>s. sb_Email s = email \<and> sb_Confirmed s) (subscriptions d))), d)"

section \<open>Statements on sagas\<close>

definition insertSagaQuery :: "SagaRow \<Rightarrow> (sub_db, nat) stmt" where
  "insertSagaQuery r now d =
     (if \<not> varchar255 (sg_Email r) then Inl (StringDataRightTruncation, '''')
      else if \<exists>x \<in> set (subscribe_sagas d). sg_SagaID x = sg_SagaID r
        then Inl (UniqueViolation, ''subscribe_sagas_saga_id_key'')
      else Inr (1, d\<lparr>subscribe_sagas := subscribe_sagas d @ [r\<lparr>sg_ID := sagas_seq d, sg_LastError := None\<rparr>],
                     sagas_seq := sagas_seq d + 1\<rparr>))"

definition findBySagaIDForUpdateQuery :: "string \<Rightarrow> (sub_db, SagaRow option) stmt" where
  "findBySagaIDForUpdateQuery sagaID now d =
     Inr (find (\<lambda>r. sg_SagaID r = sagaID) (subscribe_sagas d), d)"

definition expired :: "int \<Rightarrow> SagaRow \<Rightarrow> bool" where
  "expired now r \<longleftrightarrow> sg_State r \<in> {StateStarted, StateAwaitingConfirmation} \<and> sg_DeadlineAt r < now"

definition findExpiredForUpdateQuery :: "nat \<Rightarrow> int list \<Rightarrow> (sub_db, SagaRow list) stmt" where
  "findExpiredForUpdateQuery limit lk now d =
     Inr (take limit (filter (\<lambda>r. expired now r \<and> sg_ID r \<notin> set lk) (subscribe_sagas d)), d)"

definition set_saga_state :: "int \<Rightarrow> SagaState \<Rightarrow> string option \<Rightarrow> sub_db \<Rightarrow> sub_db" where
  "set_saga_state i st lastError d =
     d\<lparr>subscribe_sagas := update_where (\<lambda>r. sg_ID r = i)
        (\<lambda>r. r\<lparr>sg_State := st, sg_LastError := lastError\<rparr>) (subscribe_sagas d)\<rparr>"

definition updateSagaStateQuery :: "SagaState \<Rightarrow> string option \<Rightarrow> int \<Rightarrow> (sub_db, nat) stmt" where
  "updateSagaStateQuery st lastError i now d =
     Inr (count_where (\<lambda>r. sg_ID r = i) (subscribe_sagas d), set_saga_state i st lastError d)"

definition deleteUnconfirmedSubscriptionQuery :: "int \<Rightarrow> (sub_db, nat) stmt" where
  "deleteUnconfirmedSubscriptionQuery i now d =
     Inr (count_where (\<lambda>s. sb_ID s = i \<and> \<not> sb_Confirmed s) (subscriptions d),
          delete_subscriptions (\<lambda>s. sb_ID s = i \<and> \<not> sb_Confirmed s) d)"

definition findSubscriptionIDByTokenQuery :: "string \<Rightarrow> (sub_db, int option) stmt" where
  "findSubscriptionIDByTokenQuery token now d =
     Inr (map_option sb_ID (find (\<lambda>s. sb_ConfirmToken s = token) (subscriptions d)), d)"

definition confirmSubscriptionByIDQuery :: "int \<Rightarrow> (sub_db, nat) stmt" where
  "confirmSubscriptionByIDQuery i now d =
     Inr (count_where (\<lambda>s. sb_ID s = i) (subscriptions d), confirm_where (\<lambda>s. sb_ID s = i) now d)"

definition findSagaBySubscriptionIDForUpdateQuery :: "int \<Rightarrow> (sub_db, SagaRow option) stmt" where
  "findSagaBySubscriptionIDForUpdateQuery i now d =
     Inr (find (\<lambda>r. sg_SubscriptionID r = i) (subscribe_sagas d), d)"

lemmas sub_queries [db_simps] =
  createRepoQuery_def findByNameQuery_def deleteByIDQuery_def listTrackedReposQuery_def
  updateLastSeenTagQuery_def createSubscriptionQuery_def findSubscriptionByUnsubscribeTokenQuery_def
  confirmSubscriptionByTokenQuery_def deleteSubscriptionByUnsubscribeTokenQuery_def
  hasAnySubscriptionsByRepositoryIDQuery_def listConfirmedSubscriptionsByRepositoryIDQuery_def
  listSubscriptionDetailsByEmailQuery_def insertSagaQuery_def findBySagaIDForUpdateQuery_def
  findExpiredForUpdateQuery_def updateSagaStateQuery_def deleteUnconfirmedSubscriptionQuery_def
  findSubscriptionIDByTokenQuery_def confirmSubscriptionByIDQuery_def
  findSagaBySubscriptionIDForUpdateQuery_def insertOutboxQuery_def

section \<open>The invariant of the schema\<close>

definition sub_wf :: "sub_db \<Rightarrow> bool" where
  "sub_wf d \<longleftrightarrow>
     distinct (map rp_ID (repositories d)) \<and> (\<forall>r \<in> set (repositories d). rp_ID r < repositories_seq d) \<and>
     distinct (map rp_FullName (repositories d)) \<and>
     distinct (map sb_ID (subscriptions d)) \<and> (\<forall>s \<in> set (subscriptions d). sb_ID s < subscriptions_seq d) \<and>
     distinct (map sb_ConfirmToken (subscriptions d)) \<and>
     distinct (map sb_UnsubscribeToken (subscriptions d)) \<and>
     distinct (map (\<lambda>s. (sb_Email s, sb_RepositoryID s)) (subscriptions d)) \<and>
     (\<forall>s \<in> set (subscriptions d). \<exists>r \<in> set (repositories d). rp_ID r = sb_RepositoryID s) \<and>
     distinct (map sg_ID (subscribe_sagas d)) \<and> (\<forall>r \<in> set (subscribe_sagas d). sg_ID r < sagas_seq d) \<and>
     distinct (map sg_SagaID (subscribe_sagas d)) \<and>
     outbox_wf (outbox d)"

lemma sub_wf_empty [simp]: "sub_wf empty_sub_db"
  by (simp add: sub_wf_def empty_sub_db_def outbox_wf_def)

lemma sub_wfD:
  assumes "sub_wf d"
  shows "distinct (map rp_ID (repositories d))" "distinct (map rp_FullName (repositories d))"
    "distinct (map sb_ID (subscriptions d))" "distinct (map sb_ConfirmToken (subscriptions d))"
    "distinct (map sb_UnsubscribeToken (subscriptions d))"
    "distinct (map sg_ID (subscribe_sagas d))" "distinct (map sg_SagaID (subscribe_sagas d))"
    "outbox_wf (outbox d)"
  using assms by (simp_all add: sub_wf_def)

lemma sub_wf_createRepo [keeps_rules]: "stmt_keeps sub_wf (createRepoQuery name)"
  by (rule stmt_keepsI) (auto simp: createRepoQuery_def sub_wf_def Let_def less_le split: if_splits)

lemma sub_wf_delete_repository: "sub_wf d \<Longrightarrow> sub_wf (delete_repository rid d)"
  unfolding delete_repository_def sub_wf_def
  by (simp add: distinct_map_delete_where) metis

lemma sub_wf_deleteByID [keeps_rules]: "stmt_keeps sub_wf (deleteByIDQuery rid)"
  by (rule stmt_keepsI) (auto simp: deleteByIDQuery_def sub_wf_delete_repository)

lemma sub_wf_updateLastSeenTag [keeps_rules]: "stmt_keeps sub_wf (updateLastSeenTagQuery rid tag)"
  by (rule stmt_keepsI)
    (auto simp: updateLastSeenTagQuery_def sub_wf_def Let_def if_distrib cong: if_cong split: if_splits)

lemma sub_wf_createSubscription [keeps_rules]: "stmt_keeps sub_wf (createSubscriptionQuery s)"
  by (rule stmt_keepsI)
    (auto simp: createSubscriptionQuery_def new_subscription_row_def sub_wf_def less_le split: if_splits)

lemma sub_wf_confirm_where: "sub_wf d \<Longrightarrow> sub_wf (confirm_where P now d)"
  by (auto simp: confirm_where_def sub_wf_def)

lemma sub_wf_delete_subscriptions: "sub_wf d \<Longrightarrow> sub_wf (delete_subscriptions P d)"
  by (auto simp: delete_subscriptions_def sub_wf_def distinct_map_delete_where)

lemma sub_wf_set_saga_state: "sub_wf d \<Longrightarrow> sub_wf (set_saga_state i st le d)"
  by (auto simp: set_saga_state_def sub_wf_def)

lemma sub_wf_insertSaga [keeps_rules]: "stmt_keeps sub_wf (insertSagaQuery r)"
  by (rule stmt_keepsI) (auto simp: insertSagaQuery_def sub_wf_def less_le split: if_splits)

lemma sub_wf_outbox:
  "sub_wf d \<Longrightarrow> (\<And>t. outbox_wf t \<Longrightarrow> outbox_wf (f t)) \<Longrightarrow> sub_wf (outbox_update f d)"
  by (simp add: sub_wf_def)

lemma sub_wf_insertOutbox [keeps_rules]:
  "stmt_keeps sub_wf (insertOutboxQuery outbox_update subject payload)"
  by (rule stmt_keepsI) (auto simp: insertOutboxQuery_def intro!: sub_wf_outbox outbox_wf_insert)

lemma sub_wf_updates [keeps_rules]:
  "stmt_keeps sub_wf (confirmSubscriptionByTokenQuery token)"
  "stmt_keeps sub_wf (confirmSubscriptionByIDQuery i)"
  "stmt_keeps sub_wf (deleteSubscriptionByUnsubscribeTokenQuery token)"
  "stmt_keeps sub_wf (deleteUnconfirmedSubscriptionQuery i)"
  "stmt_keeps sub_wf (updateSagaStateQuery st le i)"
  by (rule stmt_keepsI,
      auto simp: sub_queries sub_wf_confirm_where sub_wf_delete_subscriptions sub_wf_set_saga_state)+

text \<open>Queries that only read keep everything.\<close>

lemma reads_keep [keeps_rules]:
  "stmt_keeps I (findByNameQuery name)" "stmt_keeps I listTrackedReposQuery"
  "stmt_keeps I (findSubscriptionByUnsubscribeTokenQuery token)"
  "stmt_keeps I (hasAnySubscriptionsByRepositoryIDQuery rid)"
  "stmt_keeps I (listConfirmedSubscriptionsByRepositoryIDQuery rid)"
  "stmt_keeps I (listSubscriptionDetailsByEmailQuery email)"
  "stmt_keeps I (findBySagaIDForUpdateQuery sagaID)"
  "stmt_keeps I (findExpiredForUpdateQuery limit lk)"
  "stmt_keeps I (findSubscriptionIDByTokenQuery token)"
  "stmt_keeps I (findSagaBySubscriptionIDForUpdateQuery i)"
  by (rule stmt_keepsI, simp add: sub_queries)+

end
