(* ===== verification/Catalog.thy ===== *)
theory Catalog
  imports SubDB
begin

text \<open>
  The catalog module of the subscription service (\<^verbatim>\<open>internal/catalog\<close>): the repositories
  the service tracks. Its use cases take their store as an interface, and so do the definitions
  here; the locales \<open>ensure_store\<close> and \<open>repo_counter\<close> state what the interfaces promise and are
  interpreted on the PostgreSQL store. \<open>after_others\<close> runs an operation after other sessions
  have committed, for the use cases that are not one transaction.
\<close>

definition after_others :: "('db \<Rightarrow> 'db) \<Rightarrow> ('db, 'a) run \<Rightarrow> ('db, 'a) run" where
  "after_others g m = State (\<lambda>w. run_state m (w\<lparr>committed := g (committed w)\<rparr>))"

lemma wp_after_others [wp_simps]:
  "wp (after_others g m) Q w = wp m Q (w\<lparr>committed := g (committed w)\<rparr>)"
  by (simp add: wp_def after_others_def)

section \<open>Domain\<close>

definition catalog_ValidateRepo :: "string \<Rightarrow> go_error option" where
  "catalog_ValidateRepo repo =
     (let parts = Split repo CHR ''/'' in
      if length parts \<noteq> 2 then Some (Sentinel catalog_ErrInvalidRepoFormat)
      else if TrimSpace (parts ! 0) = '''' \<or> TrimSpace (parts ! 1) = ''''
        then Some (Sentinel catalog_ErrInvalidRepoFormat)
      else None)"

definition catalog_HasNewRelease :: "Repository \<Rightarrow> string \<Rightarrow> bool" where
  "catalog_HasNewRelease r tag \<longleftrightarrow> rp_LastSeenTag r = '''' \<or> tag \<noteq> rp_LastSeenTag r"

section \<open>Store\<close>

definition Repo_Create :: "dbtx \<Rightarrow> string \<Rightarrow> Repository sub_io" where
  "Repo_Create q repositoryName =
     do { r \<leftarrow> QueryRow q (createRepoQuery repositoryName);
          ret (case r of
            Inl e \<Rightarrow>
              (case as_PgError e of
                 Some (code, cn) \<Rightarrow>
                   if code = UniqueViolation then Inl (Sentinel db_ErrAlreadyExists)
                   else Inl (Wrap (''insert repository row with name '' @ repositoryName) e)
               | None \<Rightarrow> Inl (Wrap (''insert repository row with name '' @ repositoryName) e))
          | Inr repo \<Rightarrow> Inr repo) }"

definition FindByFullName :: "dbtx \<Rightarrow> string \<Rightarrow> Repository sub_io" where
  "FindByFullName q fullName =
     do { r \<leftarrow> QueryRow q (findByNameQuery fullName);
          ret (case r of
            Inl e \<Rightarrow>
              if errors_Is e ErrNoRows then Inl (Sentinel db_ErrNotFound)
              else Inl (Wrap (''scan repositories row by name '' @ fullName) e)
          | Inr repo \<Rightarrow> Inr repo) }"

definition DeleteByID :: "dbtx \<Rightarrow> int \<Rightarrow> unit sub_io" where
  "DeleteByID q repositoryID =
     do { tag \<leftarrow> Exec q (deleteByIDQuery repositoryID);
          check tag (Wrap (''delete repository with id '' @ FormatInt repositoryID))
            (\<lambda>n. if n = 0 then err (Sentinel db_ErrNotFound) else ok ()) }"

definition store_ListTracked :: "dbtx \<Rightarrow> Repository list sub_io" where
  "store_ListTracked q =
     do { rows \<leftarrow> Query q listTrackedReposQuery;
          check rows (Wrap ''query tracked repositories'') ok }"

section \<open>Use cases\<close>

definition Ensure ::
  "(string \<Rightarrow> ('db, sentinel, Repository) io) \<Rightarrow> (string \<Rightarrow> ('db, sentinel, Repository) io) \<Rightarrow>
     string \<Rightarrow> ('db, sentinel, int) io" where
  "Ensure Find Create fullName =
     do { r \<leftarrow> Find fullName;
          case r of
            Inr repo \<Rightarrow> ok (rp_ID repo)
          | Inl e \<Rightarrow>
              if \<not> errors_Is e (Sentinel db_ErrNotFound)
              then err (Wrap (''find repository '' @ fullName) e)
              else do {
                c \<leftarrow> Create fullName;
                case c of
                  Inr repo \<Rightarrow> ok (rp_ID repo)
                | Inl e \<Rightarrow>
                    if \<not> errors_Is e (Sentinel db_ErrAlreadyExists)
                    then err (Wrap (''create repository '' @ fullName) e)
                    else do {
                      r \<leftarrow> Find fullName;
                      check r (Wrap (''find repository '' @ fullName @ '' after create conflict''))
                        (\<lambda>repo. ok (rp_ID repo)) } } }"

definition DeleteIfOrphaned ::
  "(int \<Rightarrow> ('db, sentinel, unit) io) \<Rightarrow> int \<Rightarrow> (int \<Rightarrow> ('db, sentinel, bool) io) \<Rightarrow>
     ('db, sentinel, unit) io" where
  "DeleteIfOrphaned Delete repoID hasSubscribers =
     do { has \<leftarrow> hasSubscribers repoID;
          check has (Wrap (''check remaining subscriptions for repository_id '' @ FormatInt repoID))
            (\<lambda>has. if has then ok ()
               else do {
                 r \<leftarrow> Delete repoID;
                 ret (case r of
                   Inl e \<Rightarrow>
                     if errors_Is e (Sentinel db_ErrNotFound)
                     then Inl (Wrap (''repository '' @ FormatInt repoID @ '' disappeared during cleanup'') e)
                     else Inl (Wrap (''delete orphaned repository '' @ FormatInt repoID) e)
                 | Inr _ \<Rightarrow> Inr ()) }) }"

definition ListTracked :: "('db, sentinel, Repository list) io \<Rightarrow> ('db, sentinel, Repository list) io" where
  "ListTracked List = List"

section \<open>The gRPC handler\<close>

record TrackedRepo =
  tr_RepoId :: int
  tr_FullName :: string

datatype grpc_code = codes_Internal | codes_Unavailable

text \<open>A status error keeps the error whose text it carries.\<close>

definition ListTrackedRepos ::
  "('db, sentinel, Repository list) io \<Rightarrow> ('db, (grpc_code \<times> go_error) + TrackedRepo list) run" where
  "ListTrackedRepos lister =
     do { repos \<leftarrow> lister;
          ret (case repos of
            Inl e \<Rightarrow> Inl (codes_Internal, e)
          | Inr rs \<Rightarrow> Inr (map (\<lambda>r. \<lparr>tr_RepoId = rp_ID r, tr_FullName = rp_FullName r\<rparr>) rs)) }"

section \<open>What the interfaces promise\<close>

text \<open>
  \<open>names\<close> is what the store knows: repository names with their ids. An operation that fails may
  still have had its effect when only the answer was lost.
\<close>

locale ensure_store =
  fixes names :: "'db \<Rightarrow> (string \<times> int) set"
    and Find :: "string \<Rightarrow> ('db, sentinel, Repository) io"
    and Create :: "string \<Rightarrow> ('db, sentinel, Repository) io"
  assumes Find_law: "txn w = None \<Longrightarrow>
      wp (Find n) (\<lambda>r w'. txn w' = None \<and> committed w' = committed w \<and>
        (case r of Inr x \<Rightarrow> (n, rp_ID x) \<in> names (committed w)
         | Inl e \<Rightarrow> errors_Is e (Sentinel db_ErrNotFound) \<longrightarrow> n \<notin> fst ` names (committed w))) w"
    and Create_law: "txn w = None \<Longrightarrow>
      wp (Create n) (\<lambda>r w'. txn w' = None \<and>
        (case r of
           Inr x \<Rightarrow> names (committed w') = insert (n, rp_ID x) (names (committed w))
         | Inl e \<Rightarrow>
             (if errors_Is e (Sentinel db_ErrAlreadyExists)
              then committed w' = committed w \<and> n \<in> fst ` names (committed w)
              else names (committed w') = names (committed w)
                 \<or> (\<exists>i. names (committed w') = insert (n, i) (names (committed w)))))) w"
begin

lemma Ensure_sound:
  assumes "txn w = None"
  shows "wp (Ensure Find Create n) (\<lambda>r w'. txn w' = None \<and>
    (\<forall>i. r = Inr i \<longrightarrow> (n, i) \<in> names (committed w')) \<and>
    (names (committed w') = names (committed w)
     \<or> n \<notin> fst ` names (committed w) \<and> (\<exists>i. names (committed w') = insert (n, i) (names (committed w))))) w"
proof -
  let ?Q = "\<lambda>r w'. txn w' = None \<and> (\<forall>i. r = Inr i \<longrightarrow> (n, i) \<in> names (committed w')) \<and>
    (names (committed w') = names (committed w)
     \<or> n \<notin> fst ` names (committed w) \<and> (\<exists>i. names (committed w') = insert (n, i) (names (committed w))))"
  have last: "wp (Find n) (\<lambda>r. wp (check r h (\<lambda>repo. ok (rp_ID repo))) ?Q) v"
    if v: "txn v = None" "committed v = committed w" for v h
    using v by (intro wp_mono [OF Find_law [OF v(1)]]) (auto simp: wp_simps split: sum.splits)
  show ?thesis
    unfolding Ensure_def wp_bind
    apply (rule wp_mono [OF Find_law [OF assms]])
    apply (clarsimp simp: wp_case_sum wp_if wp_bind wp_return split: sum.splits)
    apply (rule wp_mono [OF Create_law])
     apply (auto simp: wp_case_sum wp_if wp_bind wp_return last split: sum.splits if_splits)
    done
qed

end

text \<open>The two operations \<open>DeleteIfOrphaned\<close> uses, when no other session interferes.\<close>

locale repo_counter =
  fixes users :: "'db \<Rightarrow> int \<Rightarrow> 'u set"
    and Has :: "int \<Rightarrow> ('db, sentinel, bool) io"
    and Delete :: "int \<Rightarrow> ('db, sentinel, unit) io"
    and removed :: "int \<Rightarrow> 'db \<Rightarrow> 'db"
  assumes Has_law: "txn w = None \<Longrightarrow>
      wp (Has i) (\<lambda>r w'. txn w' = None \<and> committed w' = committed w \<and>
        (\<forall>b. r = Inr b \<longrightarrow> b = (users (committed w) i \<noteq> {}))) w"
    and Delete_law: "txn w = None \<Longrightarrow>
      wp (Delete i) (\<lambda>r w'. txn w' = None \<and>
        (committed w' = committed w \<or> committed w' = removed i (committed w)) \<and>
        (r = Inr () \<longrightarrow> committed w' = removed i (committed w))) w"
begin

lemma DeleteIfOrphaned_sound:
  assumes "txn w = None"
  shows "wp (DeleteIfOrphaned Delete i Has) (\<lambda>r w'. txn w' = None \<and>
    (committed w' = committed w \<or> users (committed w) i = {} \<and> committed w' = removed i (committed w)) \<and>
    (r = Inr () \<longrightarrow> users (committed w) i \<noteq> {} \<or> committed w' = removed i (committed w))) w"
  unfolding DeleteIfOrphaned_def wp_bind
  apply (rule wp_mono [OF Has_law [OF assms]])
  apply (clarsimp simp: wp_check wp_if wp_bind wp_return split: sum.splits)
  apply (rule wp_mono [OF Delete_law])
   apply (auto simp: wp_return split: sum.splits if_splits)
  done

end

section \<open>The PostgreSQL store\<close>

definition repo_names :: "sub_db \<Rightarrow> (string \<times> int) set" where
  "repo_names d = (\<lambda>r. (rp_FullName r, rp_ID r)) ` set (repositories d)"

lemma wp_FindByFullName:
  "txn w = None \<Longrightarrow>
   wp (FindByFullName Pool n) (\<lambda>r w'. txn w' = None \<and> committed w' = committed w \<and>
     (case r of Inr x \<Rightarrow> x \<in> set (repositories (committed w)) \<and> rp_FullName x = n
      | Inl e \<Rightarrow> errors_Is e (Sentinel db_ErrNotFound) \<longrightarrow>
          (\<forall>x \<in> set (repositories (committed w)). rp_FullName x \<noteq> n))) w"
  by (auto simp: FindByFullName_def wp_simps findByNameQuery_def Let_def
      dest: find_SomeD find_NoneD split: fault.splits option.splits)

lemma wp_Repo_Create:
  "txn w = None \<Longrightarrow>
   wp (Repo_Create Pool n) (\<lambda>r w'. txn w' = None \<and>
     (case r of
        Inr x \<Rightarrow> repo_names (committed w') = insert (n, rp_ID x) (repo_names (committed w))
      | Inl e \<Rightarrow>
          (if errors_Is e (Sentinel db_ErrAlreadyExists)
           then committed w' = committed w \<and> n \<in> fst ` repo_names (committed w)
           else repo_names (committed w') = repo_names (committed w)
              \<or> (\<exists>i. repo_names (committed w') = insert (n, i) (repo_names (committed w)))))) w"
  by (auto simp: Repo_Create_def wp_simps createRepoQuery_def Let_def repo_names_def UniqueViolation_def
      StringDataRightTruncation_def image_iff split: fault.splits)

interpretation repo_store: ensure_store repo_names "FindByFullName Pool" "Repo_Create Pool"
proof
  show "wp (FindByFullName Pool n) (\<lambda>r w'. txn w' = None \<and> committed w' = committed w \<and>
      (case r of Inr x \<Rightarrow> (n, rp_ID x) \<in> repo_names (committed w)
       | Inl e \<Rightarrow> errors_Is e (Sentinel db_ErrNotFound) \<longrightarrow> n \<notin> fst ` repo_names (committed w))) w"
    if "txn w = None" for n and w :: "sub_db world"
    using that by (rule wp_FindByFullName [THEN wp_mono]) (auto simp: repo_names_def split: sum.splits)
qed (rule wp_Repo_Create)

lemma repo_names_keeps [keeps_rules]:
  "keeps I (FindByFullName q n)"
  unfolding FindByFullName_def by (intro keeps_rules)

lemma Repo_Create_keeps_wf [keeps_rules]: "keeps sub_wf (Repo_Create q n)"
  unfolding Repo_Create_def by (intro keeps_rules)

lemma DeleteByID_keeps_wf [keeps_rules]: "keeps sub_wf (DeleteByID q i)"
  unfolding DeleteByID_def by (intro keeps_rules)

lemma Ensure_keeps [keeps_rules]:
  "keeps I (Find n) \<Longrightarrow> keeps I (Create n) \<Longrightarrow> keeps I (Ensure Find Create n)"
  unfolding Ensure_def by (intro keeps_rules)

lemma DeleteIfOrphaned_keeps [keeps_rules]:
  "keeps I (Has i) \<Longrightarrow> keeps I (Delete i) \<Longrightarrow> keeps I (DeleteIfOrphaned Delete i Has)"
  unfolding DeleteIfOrphaned_def by (intro keeps_rules)

lemma wp_DeleteByID:
  "txn w = None \<Longrightarrow>
   wp (DeleteByID Pool i) (\<lambda>r w'. txn w' = None \<and>
     (committed w' = committed w \<or> committed w' = delete_repository i (committed w)) \<and>
     (r = Inr () \<longrightarrow> committed w' = delete_repository i (committed w))) w"
  by (auto simp: DeleteByID_def wp_simps deleteByIDQuery_def Let_def split: fault.splits)

end
