(* ===== verification/SubStore.thy ===== *)
theory SubStore
  imports Catalog
begin

text \<open>
  The domain and the store of the subscription module
  (\<^verbatim>\<open>internal/subscription/internal/domain\<close> and \<^verbatim>\<open>store\<close>), and the identifiers of
  \<^verbatim>\<open>internal/idgen\<close>. \<open>parse_ok\<close> is the parameter for \<^verbatim>\<open>mail.ParseAddress\<close>: which
  strings it parses.
\<close>

section \<open>Domain\<close>

definition TokenLength :: nat where "TokenLength = 32"

definition idgen_New :: "('db, string) run" where
  "idgen_New = do { (r :: unit error + string) \<leftarrow> rand_Read 8;
     ret (hex_EncodeToString (case r of Inl _ \<Rightarrow> replicate 8 CHR 0x00 | Inr b \<Rightarrow> b)) }"

definition generateToken :: "nat \<Rightarrow> ('db, 'e, string) io" where
  "generateToken n =
     do { b \<leftarrow> rand_Read n;
          check b (Wrap ''generating random bytes'') (\<lambda>b. ok (RawURLEncode b)) }"

definition NewSubscription :: "string \<Rightarrow> int \<Rightarrow> ('db, 'e, Subscription) io" where
  "NewSubscription email repositoryID =
     do { c \<leftarrow> generateToken TokenLength;
          check c (Wrap ''generate confirm token'') (\<lambda>confirmToken. do {
            u \<leftarrow> generateToken TokenLength;
            check u (Wrap ''generate unsubscribe token'') (\<lambda>unsubscribeToken.
              ok \<lparr>sb_ID = 0, sb_Email = email, sb_RepositoryID = repositoryID, sb_Confirmed = False,
                  sb_ConfirmToken = confirmToken, sb_UnsubscribeToken = unsubscribeToken,
                  sb_CreatedAt = 0, sb_ConfirmedAt = None\<rparr>) }) }"

definition ValidateEmail :: "(string \<Rightarrow> bool) \<Rightarrow> string \<Rightarrow> go_error option" where
  "ValidateEmail parse_ok email =
     (if parse_ok email then None else Some (Sentinel domain_ErrInvalidEmailFormat))"

definition ValidateRepo :: "string \<Rightarrow> go_error option" where
  "ValidateRepo repo =
     (let parts = Split repo CHR ''/'' in
      if length parts \<noteq> 2 then Some (Sentinel domain_ErrInvalidRepoFormat)
      else if TrimSpace (parts ! 0) = '''' \<or> TrimSpace (parts ! 1) = ''''
        then Some (Sentinel domain_ErrInvalidRepoFormat)
      else None)"

section \<open>Store\<close>

definition Create :: "dbtx \<Rightarrow> Subscription \<Rightarrow> int sub_io" where
  "Create q subscription =
     do { r \<leftarrow> QueryRow q (createSubscriptionQuery subscription);
          ret (case r of
            Inl e \<Rightarrow>
              let other = Inl (Wrap (''insert subscription for repository_id '' @
                                     FormatInt (sb_RepositoryID subscription)) e) in
              (case as_PgError e of
                 Some (code, cn) \<Rightarrow>
                   if code = UniqueViolation then
                     (if cn = ''subscriptions_email_repository_id_key'' then Inl (Sentinel db_ErrAlreadyExists)
                      else if cn = ''subscriptions_confirmation_token_key''
                        then Inl (Wrap ''confirmation token'' (Sentinel db_ErrTokenConflict))
                      else if cn = ''subscriptions_unsubscribe_token_key''
                        then Inl (Wrap ''unsubscribe token'' (Sentinel db_ErrTokenConflict))
                      else Inl (Wrap ''unexpected unique violation on subscriptions'' e))
                   else other
               | None \<Rightarrow> other)
          | Inr i \<Rightarrow> Inr i) }"

definition CreateInTx :: "dbtx \<Rightarrow> Subscription \<Rightarrow> int sub_io" where
  "CreateInTx q sub = Create q sub"

definition not_found_or :: "string \<Rightarrow> go_error \<Rightarrow> go_error" where
  "not_found_or text e = (if errors_Is e ErrNoRows then Sentinel db_ErrNotFound else Wrap text e)"

definition FindByUnsubscribeToken :: "dbtx \<Rightarrow> string \<Rightarrow> Subscription sub_io" where
  "FindByUnsubscribeToken q token =
     do { r \<leftarrow> QueryRow q (findSubscriptionByUnsubscribeTokenQuery token);
          check r (not_found_or ''find subscription by unsubscribe token'') ok }"

definition store_Confirm :: "dbtx \<Rightarrow> string \<Rightarrow> int sub_io" where
  "store_Confirm q token =
     do { r \<leftarrow> QueryRow q (confirmSubscriptionByTokenQuery token);
          check r (not_found_or ''confirm subscription by token'') ok }"

definition DeleteByUnsubscribeToken :: "dbtx \<Rightarrow> string \<Rightarrow> unit sub_io" where
  "DeleteByUnsubscribeToken q token =
     do { tag \<leftarrow> Exec q (deleteSubscriptionByUnsubscribeTokenQuery token);
          check tag (Wrap ''delete subscription by unsubscribe token'')
            (\<lambda>n. if n = 0 then err (Sentinel db_ErrNotFound) else ok ()) }"

definition HasAnyByRepositoryID :: "dbtx \<Rightarrow> int \<Rightarrow> bool sub_io" where
  "HasAnyByRepositoryID q repositoryID =
     do { r \<leftarrow> QueryRow q (hasAnySubscriptionsByRepositoryIDQuery repositoryID);
          check r (Wrap (''check subscriptions for repository_id '' @ FormatInt repositoryID)) ok }"

definition ListConfirmedByRepositoryID :: "dbtx \<Rightarrow> int \<Rightarrow> Subscription list sub_io" where
  "ListConfirmedByRepositoryID q repositoryID =
     do { rows \<leftarrow> Query q (listConfirmedSubscriptionsByRepositoryIDQuery repositoryID);
          check rows (Wrap (''query confirmed subscriptions by repository_id '' @ FormatInt repositoryID)) ok }"

definition ListSubscriptionDetailsByEmail :: "dbtx \<Rightarrow> string \<Rightarrow> SubscriptionDetails list sub_io" where
  "ListSubscriptionDetailsByEmail q email =
     do { rows \<leftarrow> Query q (listSubscriptionDetailsByEmailQuery email);
          check rows (Wrap ''query subscription details by email'') ok }"

lemmas sub_store_defs = Create_def CreateInTx_def FindByUnsubscribeToken_def store_Confirm_def
  DeleteByUnsubscribeToken_def HasAnyByRepositoryID_def ListConfirmedByRepositoryID_def
  ListSubscriptionDetailsByEmail_def

section \<open>Facts on the domain\<close>

lemma length_token: "length bs = TokenLength \<Longrightarrow> length (RawURLEncode bs) = 43"
  by (simp add: length_RawURLEncode TokenLength_def)

text \<open>The slug \<^verbatim>\<open>owner/repo\<close> that the validators accept.\<close>

definition repo_slug :: "string \<Rightarrow> bool" where
  "repo_slug s \<longleftrightarrow> (\<exists>owner name. s = owner @ CHR ''/'' # name \<and> CHR ''/'' \<notin> set owner \<and>
     CHR ''/'' \<notin> set name \<and> TrimSpace owner \<noteq> '''' \<and> TrimSpace name \<noteq> '''')"

lemma length_Split: "length (Split s c) = Suc (count_list s c)"
  by (induction s) (auto split: list.splits)

lemma Split_two:
  "length (Split s c) = 2 \<Longrightarrow>
     \<exists>a b. s = a @ c # b \<and> c \<notin> set a \<and> c \<notin> set b \<and> Split s c = [a, b]"
proof -
  assume "length (Split s c) = 2"
  then have one: "count_list s c = 1" by (simp add: length_Split)
  then have "c \<in> set s" by (metis count_notin zero_neq_one)
  then obtain a b where s: "s = a @ c # b" "c \<notin> set a" by (meson split_list_first)
  then have "count_list b c = 0" using one by (simp add: count_notin)
  then have "c \<notin> set b" by (simp add: count_list_0_iff)
  then show ?thesis using s by (intro exI [of _ a] exI [of _ b]) (simp add: Split_append_sep Split_no_sep)
qed

lemma ValidateRepo_slug: "ValidateRepo s = None \<longleftrightarrow> repo_slug s"
proof
  assume "ValidateRepo s = None"
  then show "repo_slug s"
    using Split_two [of s "CHR ''/''"]
    by (auto simp: ValidateRepo_def repo_slug_def Let_def split: if_splits)
next
  assume "repo_slug s"
  then show "ValidateRepo s = None"
    by (auto simp: ValidateRepo_def repo_slug_def Let_def Split_append_sep Split_no_sep)
qed

lemma catalog_ValidateRepo_same: "catalog_ValidateRepo s = None \<longleftrightarrow> ValidateRepo s = None"
  by (simp add: catalog_ValidateRepo_def ValidateRepo_def Let_def)

section \<open>Facts on the store\<close>

lemma sub_store_keeps_wf [keeps_rules]:
  "keeps sub_wf (Create q s)" "keeps sub_wf (CreateInTx q s)"
  "keeps sub_wf (FindByUnsubscribeToken q token)" "keeps sub_wf (store_Confirm q token)"
  "keeps sub_wf (DeleteByUnsubscribeToken q token)"
  unfolding sub_store_defs by (intro keeps_rules)+

lemma sub_reads_keep [keeps_rules]:
  "keeps I (FindByUnsubscribeToken q token)" "keeps I (HasAnyByRepositoryID q i)"
  "keeps I (ListConfirmedByRepositoryID q i)" "keeps I (ListSubscriptionDetailsByEmail q email)"
  unfolding sub_store_defs by (intro keeps_rules)+

lemma idgen_keeps [keeps_rules]: "keeps I idgen_New" "keeps I (generateToken n)"
  "keeps I (NewSubscription email i)"
  unfolding idgen_New_def generateToken_def NewSubscription_def by (intro keeps_rules)+

definition subscribers :: "sub_db \<Rightarrow> int \<Rightarrow> Subscription set" where
  "subscribers d i = {s \<in> set (subscriptions d). sb_RepositoryID s = i}"

lemma wp_HasAny:
  "txn w = None \<Longrightarrow>
   wp (HasAnyByRepositoryID Pool i) (\<lambda>r w'. txn w' = None \<and> committed w' = committed w \<and>
     (\<forall>b. r = Inr b \<longrightarrow> b = (subscribers (committed w) i \<noteq> {}))) w"
  by (auto simp: HasAnyByRepositoryID_def wp_simps hasAnySubscriptionsByRepositoryIDQuery_def Let_def
      subscribers_def split: fault.splits)

interpretation repo_cleanup: repo_counter subscribers "HasAnyByRepositoryID Pool" "DeleteByID Pool"
  delete_repository
proof
  show "wp (HasAnyByRepositoryID Pool i) (\<lambda>r w'. txn w' = None \<and> committed w' = committed w \<and>
      (\<forall>b. r = Inr b \<longrightarrow> b = (subscribers (committed w) i \<noteq> {}))) w"
    if "txn w = None" for w :: "sub_db world" and i
    using that by (rule wp_HasAny)
  show "wp (DeleteByID Pool i) (\<lambda>r w'. txn w' = None \<and>
      (committed w' = committed w \<or> committed w' = delete_repository i (committed w)) \<and>
      (r = Inr () \<longrightarrow> committed w' = delete_repository i (committed w))) w"
    if "txn w = None" for w :: "sub_db world" and i
    using that by (rule wp_DeleteByID)
qed

lemma delete_unused_repository:
  "subscribers d i = {} \<Longrightarrow> subscriptions (delete_repository i d) = subscriptions d"
  by (auto simp: delete_repository_def subscribers_def)

lemma delete_repository_frame [simp]:
  "subscribe_sagas (delete_repository i d) = subscribe_sagas d"
  "outbox (delete_repository i d) = outbox d"
  "subscriptions_seq (delete_repository i d) = subscriptions_seq d"
  "sagas_seq (delete_repository i d) = sagas_seq d"
  by (simp_all add: delete_repository_def)

text \<open>The cleanup never removes a subscription when it runs alone.\<close>

lemma wp_cleanup:
  assumes "txn w = None"
  shows "wp (DeleteIfOrphaned (DeleteByID Pool) i (HasAnyByRepositoryID Pool))
    (\<lambda>r w'. txn w' = None \<and> subscriptions (committed w') = subscriptions (committed w) \<and>
       subscribe_sagas (committed w') = subscribe_sagas (committed w) \<and>
       outbox (committed w') = outbox (committed w)) w"
  by (rule repo_cleanup.DeleteIfOrphaned_sound [OF assms, THEN wp_mono])
    (auto simp: delete_unused_repository)

end
