(* ===== verification/Saga.thy ===== *)
theory Saga
  imports SubStore
begin

text \<open>
  The subscribe saga (\<^verbatim>\<open>internal/saga\<close>): its store, the orchestrator, the consumer of the
  email replies and the reaper of expired sagas. A handler with several transactions is written
  as its transactions (\<open>email_failed_tx\<close>, \<open>compensate_tx\<close>, \<open>reap_tx\<close>) composed by the
  handler: the deferred rollback of a transaction that was committed does nothing, so it does not
  matter that in the code it runs at the very end. The lemmas give each transaction as the one
  change of the database it may commit.
\<close>

section \<open>Store\<close>

definition saga_InsertInTx :: "dbtx \<Rightarrow> SagaRow \<Rightarrow> unit sub_io" where
  "saga_InsertInTx q r =
     do { x \<leftarrow> Exec q (insertSagaQuery r); check x (Wrap ''insert saga'') (\<lambda>_. ok ()) }"

definition FindBySagaIDForUpdate :: "dbtx \<Rightarrow> string \<Rightarrow> SagaRow sub_io" where
  "FindBySagaIDForUpdate q sagaID =
     do { r \<leftarrow> QueryRow q (findBySagaIDForUpdateQuery sagaID);
          check r (not_found_or (''find saga '' @ sagaID)) ok }"

definition FindExpiredForUpdate :: "dbtx \<Rightarrow> nat \<Rightarrow> SagaRow list sub_io" where
  "FindExpiredForUpdate q limit =
     do { lk \<leftarrow> get_locked;
          rows \<leftarrow> Query q (findExpiredForUpdateQuery limit lk);
          check rows (Wrap ''find expired sagas'') ok }"

definition UpdateState :: "dbtx \<Rightarrow> int \<Rightarrow> SagaState \<Rightarrow> string option \<Rightarrow> unit sub_io" where
  "UpdateState q i st lastError =
     do { x \<leftarrow> Exec q (updateSagaStateQuery st lastError i);
          check x (Wrap ''update saga state'') (\<lambda>_. ok ()) }"

definition DeleteUnconfirmedSubscription :: "dbtx \<Rightarrow> int \<Rightarrow> bool sub_io" where
  "DeleteUnconfirmedSubscription q subscriptionID =
     do { tag \<leftarrow> Exec q (deleteUnconfirmedSubscriptionQuery subscriptionID);
          check tag (Wrap (''delete unconfirmed subscription '' @ FormatInt subscriptionID))
            (\<lambda>n. ok (n > 0)) }"

definition FindSubscriptionIDByToken :: "dbtx \<Rightarrow> string \<Rightarrow> int sub_io" where
  "FindSubscriptionIDByToken q token =
     do { r \<leftarrow> QueryRow q (findSubscriptionIDByTokenQuery token);
          check r (not_found_or ''find subscription by token'') ok }"

definition ConfirmSubscription :: "dbtx \<Rightarrow> int \<Rightarrow> unit sub_io" where
  "ConfirmSubscription q subscriptionID =
     do { tag \<leftarrow> Exec q (confirmSubscriptionByIDQuery subscriptionID);
          check tag (Wrap (''confirm subscription '' @ FormatInt subscriptionID))
            (\<lambda>n. if n = 0 then err (Sentinel db_ErrNotFound) else ok ()) }"

definition FindBySubscriptionIDForUpdate :: "dbtx \<Rightarrow> int \<Rightarrow> SagaRow sub_io" where
  "FindBySubscriptionIDForUpdate q subscriptionID =
     do { r \<leftarrow> QueryRow q (findSagaBySubscriptionIDForUpdateQuery subscriptionID);
          check r (not_found_or (''find saga by subscription_id '' @ FormatInt subscriptionID)) ok }"

lemmas saga_store_defs = saga_InsertInTx_def FindBySagaIDForUpdate_def FindExpiredForUpdate_def
  UpdateState_def DeleteUnconfirmedSubscription_def FindSubscriptionIDByToken_def
  ConfirmSubscription_def FindBySubscriptionIDForUpdate_def

section \<open>Orchestrator\<close>

record Orchestrator =
  orc_catalog :: "int \<Rightarrow> (int \<Rightarrow> bool sub_io) \<Rightarrow> unit sub_io"
  orc_subChecker :: "int \<Rightarrow> bool sub_io"

definition HandleEmailSent :: "string \<Rightarrow> unit sub_io" where
  "HandleEmailSent sagaID =
     do { tx \<leftarrow> BeginTx;
          check tx (Wrap ''begin tx'') (\<lambda>_. defer_Rollback (do {
            row \<leftarrow> FindBySagaIDForUpdate Tx sagaID;
            check row (Wrap (''lock saga '' @ sagaID)) (\<lambda>row.
              if sg_State row \<noteq> StateStarted then ok ()
              else do {
                r \<leftarrow> UpdateState Tx (sg_ID row) StateAwaitingConfirmation None;
                check r (Wrap (''advance saga '' @ sagaID @ '' to AWAITING_CONFIRMATION'')) (\<lambda>_. Commit) }) })) }"

definition compensate_tx :: "SagaRow \<Rightarrow> string \<Rightarrow> bool sub_io" where
  "compensate_tx row reason =
     do { tx \<leftarrow> BeginTx;
          check tx (Wrap ''begin compensation tx'') (\<lambda>_. defer_Rollback (do {
            deleted \<leftarrow> DeleteUnconfirmedSubscription Tx (sg_SubscriptionID row);
            check deleted (Wrap (''delete pending subscription '' @ FormatInt (sg_SubscriptionID row))) (\<lambda>deleted.
              if \<not> deleted then do {
                r \<leftarrow> UpdateState Tx (sg_ID row) StateCompleted None;
                check r (Wrap (''mark saga '' @ sg_SagaID row @ '' COMPLETED'')) (\<lambda>_. do {
                  c \<leftarrow> Commit;
                  check c id (\<lambda>_. ok False) }) }
              else do {
                r \<leftarrow> UpdateState Tx (sg_ID row) StateFailed (Some reason);
                check r (Wrap (''mark saga '' @ sg_SagaID row @ '' FAILED'')) (\<lambda>_. do {
                  c \<leftarrow> Commit;
                  check c (Wrap ''commit compensation tx'') (\<lambda>_. ok True) }) }) })) }"

definition compensate :: "Orchestrator \<Rightarrow> SagaRow \<Rightarrow> string \<Rightarrow> unit sub_io" where
  "compensate orc row reason =
     do { r \<leftarrow> compensate_tx row reason;
          check r id (\<lambda>failed.
            if failed then do {
              cleanup \<leftarrow> orc_catalog orc (sg_RepositoryID row) (orc_subChecker orc);
              ok () }
            else ok ()) }"

definition CompensateExpired :: "Orchestrator \<Rightarrow> SagaRow \<Rightarrow> unit sub_io" where
  "CompensateExpired orc row = compensate orc row ''confirmation deadline exceeded''"

definition email_failed_tx :: "string \<Rightarrow> string \<Rightarrow> SagaRow option sub_io" where
  "email_failed_tx sagaID reason =
     do { tx \<leftarrow> BeginTx;
          check tx (Wrap ''begin tx'') (\<lambda>_. defer_Rollback (do {
            row \<leftarrow> FindBySagaIDForUpdate Tx sagaID;
            check row (Wrap (''lock saga '' @ sagaID)) (\<lambda>row.
              if sg_State row \<noteq> StateStarted \<and> sg_State row \<noteq> StateAwaitingConfirmation then ok None
              else do {
                r \<leftarrow> UpdateState Tx (sg_ID row) StateCompensating (Some reason);
                check r (Wrap (''mark saga '' @ sagaID @ '' COMPENSATING'')) (\<lambda>_. do {
                  c \<leftarrow> Commit;
                  check c (Wrap ''commit COMPENSATING transition'') (\<lambda>_. ok (Some row)) }) }) })) }"

definition HandleEmailFailed :: "Orchestrator \<Rightarrow> string \<Rightarrow> string \<Rightarrow> unit sub_io" where
  "HandleEmailFailed orc sagaID reason =
     do { r \<leftarrow> email_failed_tx sagaID reason;
          check r id (\<lambda>marked. case marked of
            None \<Rightarrow> ok ()
          | Some row \<Rightarrow> compensate orc row reason) }"

definition HandleConfirmed :: "int \<Rightarrow> unit sub_io" where
  "HandleConfirmed subscriptionID =
     do { tx \<leftarrow> BeginTx;
          check tx (Wrap ''begin tx'') (\<lambda>_. defer_Rollback (do {
            row \<leftarrow> FindBySubscriptionIDForUpdate Tx subscriptionID;
            case row of
              Inl e \<Rightarrow>
                if e = Sentinel db_ErrNotFound then ok ()
                else err (Wrap (''lock saga for subscription '' @ FormatInt subscriptionID) e)
            | Inr row \<Rightarrow>
                if sg_State row = StateCompleted \<or> sg_State row = StateFailed then ok ()
                else do {
                  r \<leftarrow> UpdateState Tx (sg_ID row) StateCompleted None;
                  check r (Wrap (''mark saga '' @ sg_SagaID row @ '' COMPLETED'')) (\<lambda>_. Commit) } })) }"

section \<open>Consumer and reaper\<close>

definition saga_handle :: "Orchestrator \<Rightarrow> string \<Rightarrow> bytes \<Rightarrow> unit sub_io" where
  "saga_handle orc subject data =
     (if subject = SubjectEmailSent then
        (case Unmarshal_EmailSent data of
           None \<Rightarrow> ok ()
         | Some ev \<Rightarrow> HandleEmailSent (es_SagaID ev))
      else if subject = SubjectEmailFailed then
        (case Unmarshal_EmailFailed data of
           None \<Rightarrow> ok ()
         | Some ev \<Rightarrow> HandleEmailFailed orc (ef_SagaID ev) (ef_Reason ev))
      else ok ())"

definition saga_Consume :: "Orchestrator \<Rightarrow> string \<Rightarrow> bytes \<Rightarrow> (sub_db, verdict) run" where
  "saga_Consume orc subject data =
     do { r \<leftarrow> saga_handle orc subject data;
          ret (case r of Inl _ \<Rightarrow> Nak | Inr _ \<Rightarrow> Ack) }"

definition reaperBatch :: nat where "reaperBatch = 50"

text \<open>An error of one update is logged; the loop goes on.\<close>

fun mark_expired :: "SagaRow list \<Rightarrow> (sub_db, unit) run" where
  "mark_expired [] = ret ()"
| "mark_expired (row # rows) =
     do { r \<leftarrow> UpdateState Tx (sg_ID row) StateCompensating None; mark_expired rows }"

definition reap_tx :: "SagaRow list sub_io" where
  "reap_tx =
     do { tx \<leftarrow> BeginTx;
          check tx id (\<lambda>_. defer_Rollback (do {
            expired \<leftarrow> FindExpiredForUpdate Tx reaperBatch;
            check expired id (\<lambda>expired.
              if expired = [] then ok []
              else do {
                mark_expired expired;
                c \<leftarrow> Commit;
                check c id (\<lambda>_. ok expired) }) })) }"

fun compensate_each :: "Orchestrator \<Rightarrow> SagaRow list \<Rightarrow> (sub_db, unit) run" where
  "compensate_each orc [] = ret ()"
| "compensate_each orc (row # rows) = do { r \<leftarrow> CompensateExpired orc row; compensate_each orc rows }"

definition reap :: "Orchestrator \<Rightarrow> unit sub_io" where
  "reap orc =
     do { r \<leftarrow> reap_tx;
          check r id (\<lambda>expired. do { compensate_each orc expired; ok () }) }"

text \<open>The orchestrator as \<^verbatim>\<open>app.go\<close> wires it.\<close>

definition orchestrator :: Orchestrator where
  "orchestrator = \<lparr>orc_catalog = DeleteIfOrphaned (DeleteByID Pool),
                   orc_subChecker = HasAnyByRepositoryID Pool\<rparr>"

section \<open>What each transaction commits\<close>

definition saga_by_id :: "sub_db \<Rightarrow> string \<Rightarrow> SagaRow option" where
  "saga_by_id d sagaID = find (\<lambda>r. sg_SagaID r = sagaID) (subscribe_sagas d)"

definition saga_by_sub :: "sub_db \<Rightarrow> int \<Rightarrow> SagaRow option" where
  "saga_by_sub d i = find (\<lambda>r. sg_SubscriptionID r = i) (subscribe_sagas d)"

lemma wp_HandleEmailSent:
  assumes "txn w = None"
  shows "wp (HandleEmailSent sagaID) (\<lambda>r w'. txn w' = None \<and> stream w' = stream w \<and>
    (committed w' = committed w \<or>
     (\<exists>row. saga_by_id (committed w) sagaID = Some row \<and> sg_State row = StateStarted \<and>
        committed w' = set_saga_state (sg_ID row) StateAwaitingConfirmation None (committed w)))) w"
  using assms
  by (auto simp: HandleEmailSent_def FindBySagaIDForUpdate_def UpdateState_def wp_simps Let_def
      findBySagaIDForUpdateQuery_def updateSagaStateQuery_def saga_by_id_def split: fault_splits)

lemma calm_HandleEmailSent:
  assumes "calm w" "saga_by_id (committed w) sagaID = Some row"
  shows "wp (HandleEmailSent sagaID) (\<lambda>r w'. r = Inr () \<and> committed w' =
    (if sg_State row = StateStarted
     then set_saga_state (sg_ID row) StateAwaitingConfirmation None (committed w) else committed w)) w"
  using assms
  by (auto simp: HandleEmailSent_def FindBySagaIDForUpdate_def UpdateState_def wp_simps Let_def calm_def
      findBySagaIDForUpdateQuery_def updateSagaStateQuery_def saga_by_id_def)

lemma wp_email_failed_tx:
  assumes "txn w = None"
  shows "wp (email_failed_tx sagaID reason) (\<lambda>r w'. txn w' = None \<and> stream w' = stream w \<and>
    (case r of
       Inr None \<Rightarrow> committed w' = committed w
     | Inr (Some row) \<Rightarrow> saga_by_id (committed w) sagaID = Some row \<and>
         sg_State row \<in> {StateStarted, StateAwaitingConfirmation} \<and>
         committed w' = set_saga_state (sg_ID row) StateCompensating (Some reason) (committed w)
     | Inl e \<Rightarrow> committed w' = committed w \<or>
         (\<exists>row. saga_by_id (committed w) sagaID = Some row \<and>
            sg_State row \<in> {StateStarted, StateAwaitingConfirmation} \<and>
            committed w' = set_saga_state (sg_ID row) StateCompensating (Some reason) (committed w)))) w"
  using assms
  by (auto simp: email_failed_tx_def FindBySagaIDForUpdate_def UpdateState_def wp_simps Let_def
      findBySagaIDForUpdateQuery_def updateSagaStateQuery_def saga_by_id_def split: fault_splits)

text \<open>The change a compensation commits: \<open>compensated_failed\<close> or \<open>compensated_completed\<close>.\<close>

definition pending_sub :: "sub_db \<Rightarrow> int \<Rightarrow> bool" where
  "pending_sub d i \<longleftrightarrow> (\<exists>s \<in> set (subscriptions d). sb_ID s = i \<and> \<not> sb_Confirmed s)"

definition compensated :: "SagaRow \<Rightarrow> string \<Rightarrow> sub_db \<Rightarrow> sub_db" where
  "compensated row reason d =
     (let i = sg_SubscriptionID row in
      if pending_sub d i
      then set_saga_state (sg_ID row) StateFailed (Some reason)
             (delete_subscriptions (\<lambda>s. sb_ID s = i \<and> \<not> sb_Confirmed s) d)
      else set_saga_state (sg_ID row) StateCompleted None d)"

lemma not_pending_delete:
  "\<not> pending_sub d i \<Longrightarrow> delete_subscriptions (\<lambda>s. sb_ID s = i \<and> \<not> sb_Confirmed s) d = d"
  by (simp add: delete_subscriptions_def pending_sub_def)

lemma wp_compensate_tx:
  assumes "txn w = None"
  shows "wp (compensate_tx row reason) (\<lambda>r w'. txn w' = None \<and> stream w' = stream w \<and>
    (case r of
       Inr failed \<Rightarrow> failed = pending_sub (committed w) (sg_SubscriptionID row) \<and>
         committed w' = compensated row reason (committed w)
     | Inl e \<Rightarrow> committed w' = committed w \<or> committed w' = compensated row reason (committed w))) w"
  using assms
  by (cases "pending_sub (committed w) (sg_SubscriptionID row)")
    (auto simp: compensate_tx_def DeleteUnconfirmedSubscription_def UpdateState_def wp_simps Let_def
      deleteUnconfirmedSubscriptionQuery_def updateSagaStateQuery_def compensated_def pending_sub_def
      not_pending_delete [unfolded pending_sub_def] split: fault_splits)

lemma calm_compensate_tx:
  assumes "calm w"
  shows "wp (compensate_tx row reason) (\<lambda>r w'. calm w' \<and>
    r = Inr (pending_sub (committed w) (sg_SubscriptionID row)) \<and>
    committed w' = compensated row reason (committed w)) w"
  using assms
  by (cases "pending_sub (committed w) (sg_SubscriptionID row)")
    (auto simp: compensate_tx_def DeleteUnconfirmedSubscription_def UpdateState_def wp_simps Let_def calm_def
      deleteUnconfirmedSubscriptionQuery_def updateSagaStateQuery_def compensated_def pending_sub_def
      not_pending_delete [unfolded pending_sub_def])

lemma wp_HandleConfirmed:
  assumes "txn w = None"
  shows "wp (HandleConfirmed i) (\<lambda>r w'. txn w' = None \<and> stream w' = stream w \<and>
    (committed w' = committed w \<or>
     (\<exists>row. saga_by_sub (committed w) i = Some row \<and> sg_State row \<notin> {StateCompleted, StateFailed} \<and>
        committed w' = set_saga_state (sg_ID row) StateCompleted None (committed w)))) w"
  using assms
  by (auto simp: HandleConfirmed_def FindBySubscriptionIDForUpdate_def UpdateState_def wp_simps Let_def
      findSagaBySubscriptionIDForUpdateQuery_def updateSagaStateQuery_def saga_by_sub_def not_found_or_def
      split: fault_splits)

lemma calm_HandleConfirmed:
  assumes "calm w"
  shows "wp (HandleConfirmed i) (\<lambda>r w'. r = Inr () \<and> committed w' =
    (case saga_by_sub (committed w) i of
       Some row \<Rightarrow>
         if sg_State row \<in> {StateCompleted, StateFailed} then committed w
         else set_saga_state (sg_ID row) StateCompleted None (committed w)
     | None \<Rightarrow> committed w)) w"
  using assms
  by (auto simp: HandleConfirmed_def FindBySubscriptionIDForUpdate_def UpdateState_def wp_simps Let_def
      findSagaBySubscriptionIDForUpdateQuery_def updateSagaStateQuery_def saga_by_sub_def not_found_or_def
      calm_def split: option.splits)

section \<open>The reaper\<close>

definition expired_batch :: "int list \<Rightarrow> int \<Rightarrow> sub_db \<Rightarrow> SagaRow list" where
  "expired_batch lk now d =
     take reaperBatch (filter (\<lambda>r. expired now r \<and> sg_ID r \<notin> set lk) (subscribe_sagas d))"

fun compensating :: "SagaRow list \<Rightarrow> sub_db \<Rightarrow> sub_db" where
  "compensating [] d = d"
| "compensating (row # rows) d = compensating rows (set_saga_state (sg_ID row) StateCompensating None d)"

text \<open>One failed update aborts the transaction: the rest of the loop does nothing.\<close>

lemma wp_mark_expired_aborted [wp_simps]:
  "txn w = Some (d, True) \<Longrightarrow> wp (mark_expired rows) Q w = Q () w"
  by (induction rows) (simp_all add: wp_simps UpdateState_def Let_def)

lemma wp_mark_expired:
  assumes "txn w = Some (d, False)"
    and ok: "\<And>fs. Q () (w\<lparr>faults := fs, txn := Some (compensating rows d, False)\<rparr>)"
    and bad: "\<And>fs d'. Q () (w\<lparr>faults := fs, txn := Some (d', True)\<rparr>)"
  shows "wp (mark_expired rows) Q w"
  using assms
proof (induction rows arbitrary: w d)
  case Nil
  from Nil(2) [of "faults w"] have "Q () (w\<lparr>txn := Some (d, False)\<rparr>)" by simp
  moreover have "w\<lparr>txn := Some (d, False)\<rparr> = w" using Nil(1) by (cases w) simp
  ultimately show ?case by (simp add: wp_return)
next
  case (Cons row rows)
  let ?w = "w\<lparr>faults := tl (faults w)\<rparr>"
  have good: "wp (mark_expired rows) Q
      (?w\<lparr>txn := Some (set_saga_state (sg_ID row) StateCompensating None d, False)\<rparr>)"
    by (rule Cons.IH [where d = "set_saga_state (sg_ID row) StateCompensating None d"])
      (use Cons.prems in simp_all)
  have stop: "wp (mark_expired rows) Q (?w\<lparr>txn := Some (d, True)\<rparr>)"
    using Cons.prems(3) by (simp add: wp_mark_expired_aborted)
  show ?case
    using good stop Cons.prems(1)
    by (simp add: UpdateState_def wp_simps Let_def updateSagaStateQuery_def split: fault.splits)
qed

lemma wp_reap_tx:
  assumes "txn w = None"
  shows "wp reap_tx (\<lambda>r w'. txn w' = None \<and> stream w' = stream w \<and>
    (let rows = expired_batch (locked w) (pg_clock w) (committed w) in
     case r of
       Inr rs \<Rightarrow> rs = rows \<and> committed w' = compensating rows (committed w)
     | Inl e \<Rightarrow> committed w' = committed w \<or> committed w' = compensating rows (committed w))) w"
  using assms
  by (auto simp: reap_tx_def FindExpiredForUpdate_def findExpiredForUpdateQuery_def wp_simps Let_def
      expired_batch_def [symmetric] split: fault_splits intro!: wp_mark_expired)

section \<open>Composition\<close>

lemma wp_HandleEmailFailed:
  "wp (HandleEmailFailed orc sagaID reason) Q w =
     wp (email_failed_tx sagaID reason)
       (\<lambda>r. case r of
          Inl e \<Rightarrow> Q (Inl e)
        | Inr None \<Rightarrow> Q (Inr ())
        | Inr (Some row) \<Rightarrow> wp (compensate orc row reason) Q) w"
proof -
  have "wp (check r id (\<lambda>marked. case marked of None \<Rightarrow> ok () | Some row \<Rightarrow> compensate orc row reason)) Q =
    (case r of
       Inl e \<Rightarrow> Q (Inl e)
     | Inr None \<Rightarrow> Q (Inr ())
     | Inr (Some row) \<Rightarrow> wp (compensate orc row reason) Q)" for r
    by (rule ext) (simp add: wp_check wp_return split: sum.splits option.splits)
  then show ?thesis by (simp add: HandleEmailFailed_def wp_bind)
qed

lemma saga_keeps_wf [keeps_rules]:
  "keeps sub_wf (saga_InsertInTx q r)" "keeps sub_wf (UpdateState q i st le)"
  "keeps sub_wf (DeleteUnconfirmedSubscription q i)" "keeps sub_wf (ConfirmSubscription q i)"
  unfolding saga_store_defs by (intro keeps_rules)+

lemma saga_reads_keep [keeps_rules]:
  "keeps I (FindBySagaIDForUpdate q sagaID)" "keeps I (FindBySubscriptionIDForUpdate q i)"
  "keeps I (FindExpiredForUpdate q n)" "keeps I (FindSubscriptionIDByToken q token)"
  unfolding saga_store_defs by (intro keeps_rules)+

lemma saga_tx_keeps_wf [keeps_rules]:
  "keeps sub_wf (HandleEmailSent sagaID)" "keeps sub_wf (email_failed_tx sagaID reason)"
  "keeps sub_wf (compensate_tx row reason)" "keeps sub_wf (HandleConfirmed i)"
  unfolding HandleEmailSent_def email_failed_tx_def compensate_tx_def HandleConfirmed_def
  by (intro keeps_rules)+

lemma mark_expired_keeps_wf [keeps_rules]: "keeps sub_wf (mark_expired rows)"
  by (induction rows) (auto intro!: keeps_rules)

lemma reap_tx_keeps_wf [keeps_rules]: "keeps sub_wf reap_tx"
  unfolding reap_tx_def by (intro keeps_rules)

end
