(* ===== verification/Subscribe.thy ===== *)
theory Subscribe
  imports Saga
begin

text \<open>
  The use cases of the subscription module (\<^verbatim>\<open>internal/subscription/usecase\<close>):
  subscribe, confirm, unsubscribe and list. \<open>parse_ok\<close> stands for \<^verbatim>\<open>mail.ParseAddress\<close>,
  \<open>check_repo\<close> is the interface the GitHub client implements. The lemmas say which row, saga and
  event a subscription creates, in one transaction, and how the retry over token conflicts ends.
\<close>

section \<open>Subscribe\<close>

definition maxTokenAttempts :: nat where "maxTokenAttempts = 5"

definition normalizeSubscribeInput ::
  "(string \<Rightarrow> bool) \<Rightarrow> string \<Rightarrow> string \<Rightarrow> go_error + (string \<times> string)" where
  "normalizeSubscribeInput parse_ok email repo =
     (let email = TrimSpace email in
      case ValidateEmail parse_ok email of
        Some e \<Rightarrow> Inl e
      | None \<Rightarrow>
          (let repo = TrimSpace repo in
           case ValidateRepo repo of
             Some e \<Rightarrow> Inl (Sentinel sub_ErrInvalidRepoFormat)
           | None \<Rightarrow> Inr (email, repo)))"

definition verifyRepo :: "(string \<Rightarrow> go_error option) \<Rightarrow> string \<Rightarrow> go_error option" where
  "verifyRepo check_repo repo =
     (case check_repo repo of
        None \<Rightarrow> None
      | Some e \<Rightarrow>
          if errors_Is e (Sentinel db_ErrNotFound) then Some (Sentinel sub_ErrRepoNotFound)
          else if errors_Is e (Sentinel gh_ErrRateLimited) then Some (Sentinel sub_ErrTooMuchRequests)
          else if errors_Is e (Sentinel gh_ErrUnauthorized) then Some (Sentinel sub_ErrGitHubUnauthorized)
          else Some (Wrap ''github repo check failed'' e))"

definition createAndEnqueue :: "int \<Rightarrow> string \<Rightarrow> Subscription \<Rightarrow> bytes \<Rightarrow> unit sub_io" where
  "createAndEnqueue sagaTTL sagaID sub confirmPayload =
     do { tx \<leftarrow> BeginTx;
          check tx (Wrap ''begin tx'') (\<lambda>_. defer_Rollback (do {
            subscriptionID \<leftarrow> CreateInTx Tx sub;
            check subscriptionID id (\<lambda>subscriptionID. do {
              now \<leftarrow> time_Now;
              r \<leftarrow> saga_InsertInTx Tx
                \<lparr>sg_ID = 0, sg_SagaID = sagaID, sg_SubscriptionID = subscriptionID,
                 sg_RepositoryID = sb_RepositoryID sub, sg_Email = sb_Email sub,
                 sg_State = StateStarted, sg_DeadlineAt = now + sagaTTL, sg_LastError = None\<rparr>;
              check r (Wrap ''insert saga'') (\<lambda>_. do {
                r \<leftarrow> outbox_Insert outbox_update ''insert outbox row'' Tx SubjectConfirmation confirmPayload;
                check r (Wrap ''enqueue confirmation event'') (\<lambda>_. Commit) }) }) })) }"

text \<open>The loop \<^verbatim>\<open>for range maxTokenAttempts\<close>.\<close>

fun create_attempts :: "nat \<Rightarrow> int \<Rightarrow> string \<Rightarrow> string \<Rightarrow> string \<Rightarrow> int \<Rightarrow> unit sub_io" where
  "create_attempts 0 sagaTTL sagaID email repoName repositoryID =
     err (Wrap ''create subscription tokens conflict after retries'' (Sentinel db_ErrTokenConflict))"
| "create_attempts (Suc n) sagaTTL sagaID email repoName repositoryID =
     do { sub \<leftarrow> NewSubscription email repositoryID;
          check sub (Wrap ''prepare domain subscription'') (\<lambda>sub. do {
            r \<leftarrow> createAndEnqueue sagaTTL sagaID sub (Marshal_ConfirmationRequested
                   \<lparr>cr_SagaID = sagaID, cr_Email = email, cr_RepoName = repoName,
                    cr_ConfirmToken = sb_ConfirmToken sub\<rparr>);
            case r of
              Inr _ \<Rightarrow> ok ()
            | Inl e \<Rightarrow>
                if errors_Is e (Sentinel db_ErrTokenConflict)
                then create_attempts n sagaTTL sagaID email repoName repositoryID
                else if errors_Is e (Sentinel db_ErrAlreadyExists)
                then err (Sentinel sub_ErrSubscriptionAlreadyExists)
                else err (Wrap ''failed to create subscription'' e) }) }"

definition createPending :: "int \<Rightarrow> string \<Rightarrow> string \<Rightarrow> int \<Rightarrow> unit sub_io" where
  "createPending sagaTTL email repoName repositoryID =
     do { sagaID \<leftarrow> idgen_New;
          create_attempts maxTokenAttempts sagaTTL sagaID email repoName repositoryID }"

definition Subscribe_Execute ::
  "(string \<Rightarrow> bool) \<Rightarrow> (string \<Rightarrow> go_error option) \<Rightarrow> int \<Rightarrow> string \<Rightarrow> string \<Rightarrow> unit sub_io" where
  "Subscribe_Execute parse_ok check_repo sagaTTL email repo =
     (case normalizeSubscribeInput parse_ok email repo of
        Inl e \<Rightarrow> err e
      | Inr (email, repo) \<Rightarrow>
          (case verifyRepo check_repo repo of
             Some e \<Rightarrow> err e
           | None \<Rightarrow> do {
               repositoryID \<leftarrow> Ensure (FindByFullName Pool) (Repo_Create Pool) repo;
               check repositoryID (Wrap (''ensure repository '' @ repo)) (\<lambda>repositoryID.
                 createPending sagaTTL email repo repositoryID) }))"

section \<open>Confirm, unsubscribe, list\<close>

definition Confirm_Execute :: "string \<Rightarrow> unit sub_io" where
  "Confirm_Execute token =
     do { r \<leftarrow> store_Confirm Pool token;
          case r of
            Inl e \<Rightarrow>
              if errors_Is e (Sentinel db_ErrNotFound)
              then err (Wrap ''confirm token not found'' (Sentinel sub_ErrTokenNotFound))
              else err (Wrap ''confirm subscription'' e)
          | Inr subscriptionID \<Rightarrow> do {
              h \<leftarrow> HandleConfirmed subscriptionID;
              check h (Wrap (''advance saga for subscription '' @ FormatInt subscriptionID)) (\<lambda>_. ok ()) } }"

definition Unsubscribe_Execute :: "string \<Rightarrow> unit sub_io" where
  "Unsubscribe_Execute token =
     do { sub \<leftarrow> FindByUnsubscribeToken Pool token;
          case sub of
            Inl e \<Rightarrow>
              if errors_Is e (Sentinel db_ErrNotFound)
              then err (Wrap ''unsubscribe token not found'' (Sentinel sub_ErrTokenNotFound))
              else err (Wrap ''find subscription by unsubscribe token'' e)
          | Inr sub \<Rightarrow> do {
              r \<leftarrow> DeleteByUnsubscribeToken Pool token;
              case r of
                Inl e \<Rightarrow>
                  if errors_Is e (Sentinel db_ErrNotFound)
                  then err (Wrap ''unsubscribe token not found'' (Sentinel sub_ErrTokenNotFound))
                  else err (Wrap ''delete subscription by unsubscribe token'' e)
              | Inr _ \<Rightarrow>
                  DeleteIfOrphaned (DeleteByID Pool) (sb_RepositoryID sub) (HasAnyByRepositoryID Pool) } }"

definition ByEmail :: "(string \<Rightarrow> bool) \<Rightarrow> string \<Rightarrow> SubscriptionDetails list sub_io" where
  "ByEmail parse_ok email =
     (let email = TrimSpace email in
      case ValidateEmail parse_ok email of
        Some e \<Rightarrow> err e
      | None \<Rightarrow> do {
          details \<leftarrow> ListSubscriptionDetailsByEmail Pool email;
          check details (Wrap ''failed to list subscriptions by email'') ok })"

definition ConfirmedByRepositoryID :: "int \<Rightarrow> Subscription list sub_io" where
  "ConfirmedByRepositoryID repositoryID = ListConfirmedByRepositoryID Pool repositoryID"

section \<open>What subscribing commits\<close>

definition token_clash :: "sub_db \<Rightarrow> string \<Rightarrow> string \<Rightarrow> bool" where
  "token_clash d c u \<longleftrightarrow> (\<exists>x \<in> set (subscriptions d). sb_ConfirmToken x = c \<or> sb_UnsubscribeToken x = u)"

definition pair_taken :: "sub_db \<Rightarrow> string \<Rightarrow> int \<Rightarrow> bool" where
  "pair_taken d email i \<longleftrightarrow> (\<exists>x \<in> set (subscriptions d). sb_Email x = email \<and> sb_RepositoryID x = i)"

definition created :: "string \<Rightarrow> Subscription \<Rightarrow> bytes \<Rightarrow> int \<Rightarrow> int \<Rightarrow> sub_db \<Rightarrow> sub_db" where
  "created sagaID sub payload now deadline d =
     d\<lparr>subscriptions := subscriptions d @ [new_subscription_row sub now d],
       subscriptions_seq := subscriptions_seq d + 1,
       subscribe_sagas := subscribe_sagas d @
         [\<lparr>sg_ID = sagas_seq d, sg_SagaID = sagaID, sg_SubscriptionID = subscriptions_seq d,
           sg_RepositoryID = sb_RepositoryID sub, sg_Email = sb_Email sub, sg_State = StateStarted,
           sg_DeadlineAt = deadline, sg_LastError = None\<rparr>],
       sagas_seq := sagas_seq d + 1,
       outbox := insert_row SubjectConfirmation payload (outbox d)\<rparr>"

definition creatable :: "sub_db \<Rightarrow> string \<Rightarrow> Subscription \<Rightarrow> bool" where
  "creatable d sagaID sub \<longleftrightarrow>
     varchar255 (sb_Email sub) \<and> varchar255 (sb_ConfirmToken sub) \<and> varchar255 (sb_UnsubscribeToken sub) \<and>
     \<not> token_clash d (sb_ConfirmToken sub) (sb_UnsubscribeToken sub) \<and>
     \<not> pair_taken d (sb_Email sub) (sb_RepositoryID sub) \<and>
     (\<exists>r \<in> set (repositories d). rp_ID r = sb_RepositoryID sub) \<and>
     (\<forall>r \<in> set (subscribe_sagas d). sg_SagaID r \<noteq> sagaID)"

lemmas create_simps = createAndEnqueue_def CreateInTx_def Create_def saga_InsertInTx_def
  outbox_Insert_def createSubscriptionQuery_def insertSagaQuery_def insertOutboxQuery_def
  UniqueViolation_def ForeignKeyViolation_def StringDataRightTruncation_def

lemma next_drift_ge: "0 \<le> next_drift ds"
  by (simp add: next_drift_def split: list.splits)

text \<open>The insert of the subscription row, seen through its three outcomes.\<close>

lemma wp_CreateInTx:
  assumes "txn w = Some (d, False)"
  shows "wp (CreateInTx Tx sub) Q w =
    (let w' = w\<lparr>faults := tl (faults w)\<rparr>; bad = w'\<lparr>txn := Some (d, True)\<rparr>;
         other = Wrap (''insert subscription for repository_id '' @ FormatInt (sb_RepositoryID sub)) in
     case next_fault (faults w) of
       Fine \<Rightarrow>
         (case createSubscriptionQuery sub (pg_clock w) d of
            Inr (i, d') \<Rightarrow>
              Q (case i of None \<Rightarrow> Inl (other ErrNoRows) | Some i \<Rightarrow> Inr i) (w'\<lparr>txn := Some (d', False)\<rparr>)
          | Inl (code, cn) \<Rightarrow>
              Q (if code = UniqueViolation then
                   (if cn = ''subscriptions_email_repository_id_key'' then Inl (Sentinel db_ErrAlreadyExists)
                    else if cn = ''subscriptions_confirmation_token_key''
                      then Inl (Wrap ''confirmation token'' (Sentinel db_ErrTokenConflict))
                    else if cn = ''subscriptions_unsubscribe_token_key''
                      then Inl (Wrap ''unsubscribe token'' (Sentinel db_ErrTokenConflict))
                    else Inl (Wrap ''unexpected unique violation on subscriptions'' (PgError code cn)))
                 else Inl (other (PgError code cn))) bad)
     | _ \<Rightarrow> Q (Inl (other (Opaque ''connection failure''))) bad)"
  using assms
  by (simp add: CreateInTx_def Create_def wp_simps Let_def split: fault.splits sum.splits prod.splits option.splits)

definition create_post ::
  "sub_db \<Rightarrow> int \<Rightarrow> int \<Rightarrow> string \<Rightarrow> Subscription \<Rightarrow> bytes \<Rightarrow> go_error + unit \<Rightarrow> sub_db \<Rightarrow> bool" where
  "create_post d now deadline sagaID sub payload r d' \<longleftrightarrow>
     (let done = (creatable d sagaID sub \<and> d' = created sagaID sub payload now deadline d) in
      case r of
        Inr _ \<Rightarrow> done
      | Inl e \<Rightarrow>
          (d' = d \<or> done) \<and>
          (errors_Is e (Sentinel db_ErrTokenConflict) \<longrightarrow>
             d' = d \<and> token_clash d (sb_ConfirmToken sub) (sb_UnsubscribeToken sub)) \<and>
          (errors_Is e (Sentinel db_ErrAlreadyExists) \<longrightarrow>
             d' = d \<and> pair_taken d (sb_Email sub) (sb_RepositoryID sub)))"

lemma wp_createAndEnqueue:
  assumes "txn w = None"
  shows "wp (createAndEnqueue ttl sagaID sub payload) (\<lambda>r w'. txn w' = None \<and> stream w' = stream w \<and>
    entropy w' = entropy w \<and>
    create_post (committed w) (pg_clock w) (go_clock w + next_drift (drift w) + ttl) sagaID sub payload
      r (committed w')) w"
  using assms
  apply (simp add: createAndEnqueue_def wp_BeginTx wp_bind wp_check wp_defer_Rollback wp_CreateInTx Let_def
      split: fault.split)
  apply (auto simp: create_post_def createSubscriptionQuery_def insertSagaQuery_def insertOutboxQuery_def
      saga_InsertInTx_def outbox_Insert_def wp_simps Let_def creatable_def created_def
      new_subscription_row_def token_clash_def pair_taken_def
      UniqueViolation_def ForeignKeyViolation_def StringDataRightTruncation_def
      split: fault.split)
  done

text \<open>All attempts together create at most one subscription, and exactly one when they succeed.\<close>

definition confirmation_payload :: "string \<Rightarrow> string \<Rightarrow> string \<Rightarrow> string \<Rightarrow> bytes" where
  "confirmation_payload sagaID email repoName token = Marshal_ConfirmationRequested
     \<lparr>cr_SagaID = sagaID, cr_Email = email, cr_RepoName = repoName, cr_ConfirmToken = token\<rparr>"

definition subscribed ::
  "string \<Rightarrow> string \<Rightarrow> int \<Rightarrow> sub_db \<Rightarrow> sub_db \<Rightarrow> bool" where
  "subscribed email repoName rid d d' \<longleftrightarrow>
     (\<exists>sagaID sub now deadline. sb_Email sub = email \<and> sb_RepositoryID sub = rid \<and>
        creatable d sagaID sub \<and>
        d' = created sagaID sub (confirmation_payload sagaID email repoName (sb_ConfirmToken sub)) now deadline d)"

lemma wp_NewSubscription:
  assumes "\<And>e es. Q (Inl e) (w\<lparr>entropy := es\<rparr>)"
    and "\<And>sub es. sb_Email sub = email \<Longrightarrow> sb_RepositoryID sub = rid \<Longrightarrow> Q (Inr sub) (w\<lparr>entropy := es\<rparr>)"
  shows "wp (NewSubscription email rid) Q w"
proof -
  have "w = w\<lparr>entropy := entropy w\<rparr>" by simp
  then have same: "Q (Inl e) w" for e using assms(1) [of e "entropy w"] by simp
  show ?thesis
    using assms same by (simp add: NewSubscription_def generateToken_def wp_simps split: list.splits)
qed

lemma wp_create_attempts:
  assumes "txn w = None"
  shows "wp (create_attempts n ttl sagaID email repoName rid) (\<lambda>r w'. txn w' = None \<and>
    stream w' = stream w \<and>
    (committed w' = committed w \<and> r \<noteq> Inr () \<or> subscribed email repoName rid (committed w) (committed w'))) w"
  using assms
proof (induction n arbitrary: w)
  case 0
  then show ?case by (simp add: wp_return)
next
  case (Suc n)
  let ?Q = "\<lambda>v r w'. txn w' = None \<and> stream w' = stream v \<and>
    (committed w' = committed v \<and> r \<noteq> Inr () \<or> subscribed email repoName rid (committed v) (committed w'))"
  show ?case
    unfolding create_attempts.simps wp_bind
  proof (rule wp_NewSubscription, goal_cases)
    case (1 e es)
    then show ?case using Suc.prems by (simp add: wp_check)
  next
    case (2 sub es)
    let ?v = "w\<lparr>entropy := es\<rparr>"
    let ?p = "confirmation_payload sagaID email repoName (sb_ConfirmToken sub)"
    have t: "txn ?v = None" using Suc.prems by simp
    have succ: "subscribed email repoName rid (committed w)
        (created sagaID sub ?p now dl (committed w))" if "creatable (committed w) sagaID sub" for now dl
      using that 2 unfolding subscribed_def by blast
    show ?case
      unfolding confirmation_payload_def [symmetric] wp_check wp_bind sum.case
      by (rule wp_mono [OF wp_createAndEnqueue [OF t]])
        (auto simp: create_post_def Let_def wp_simps succ intro!: wp_mono [OF Suc.IH]
          split: sum.splits if_splits)
  qed
qed

lemma wp_createPending:
  assumes "txn w = None"
  shows "wp (createPending ttl email repoName rid) (\<lambda>r w'. txn w' = None \<and> stream w' = stream w \<and>
    (committed w' = committed w \<and> r \<noteq> Inr () \<or> subscribed email repoName rid (committed w) (committed w'))) w"
  using assms
  by (auto simp: createPending_def idgen_New_def wp_simps split: list.splits
      intro!: wp_mono [OF wp_create_attempts])

section \<open>The retry over token conflicts\<close>

text \<open>The token made of the bytes one \<^verbatim>\<open>rand.Read\<close> returned.\<close>

definition token_of :: "string \<Rightarrow> string" where
  "token_of b = RawURLEncode (take TokenLength (b @ replicate TokenLength CHR 0x00))"

lemma length_token_of [simp]: "length (token_of b) = 43"
  unfolding token_of_def by (rule length_token) simp

lemma varchar255_token [simp]: "varchar255 (token_of b)"
  by (rule varchar255_short) simp

definition draft :: "string \<Rightarrow> int \<Rightarrow> string \<Rightarrow> string \<Rightarrow> Subscription" where
  "draft email rid a b =
     \<lparr>sb_ID = 0, sb_Email = email, sb_RepositoryID = rid, sb_Confirmed = False,
      sb_ConfirmToken = token_of a, sb_UnsubscribeToken = token_of b,
      sb_CreatedAt = 0, sb_ConfirmedAt = None\<rparr>"

lemma draft_simps [simp]:
  "sb_Email (draft email rid a b) = email" "sb_RepositoryID (draft email rid a b) = rid"
  "sb_ConfirmToken (draft email rid a b) = token_of a"
  "sb_UnsubscribeToken (draft email rid a b) = token_of b"
  by (simp_all add: draft_def)

lemma wp_NewSubscription_draws:
  "entropy w = a # b # es \<Longrightarrow>
   wp (NewSubscription email rid) Q w = Q (Inr (draft email rid a b)) (w\<lparr>entropy := es\<rparr>)"
  by (simp add: NewSubscription_def generateToken_def wp_simps draft_def token_of_def)

definition clash_error :: "sub_db \<Rightarrow> Subscription \<Rightarrow> go_error" where
  "clash_error d sub = Wrap
     (if \<exists>x \<in> set (subscriptions d). sb_ConfirmToken x = sb_ConfirmToken sub
      then ''confirmation token'' else ''unsubscribe token'') (Sentinel db_ErrTokenConflict)"

lemma create_query_clash:
  assumes "varchar255 (sb_Email sub)" "varchar255 (sb_ConfirmToken sub)" "varchar255 (sb_UnsubscribeToken sub)"
    and "token_clash d (sb_ConfirmToken sub) (sb_UnsubscribeToken sub)"
  shows "createSubscriptionQuery sub now d = Inl (UniqueViolation,
    if \<exists>x \<in> set (subscriptions d). sb_ConfirmToken x = sb_ConfirmToken sub
    then ''subscriptions_confirmation_token_key'' else ''subscriptions_unsubscribe_token_key'')"
  using assms by (auto simp: createSubscriptionQuery_def token_clash_def)

lemma create_query_pair:
  assumes "varchar255 (sb_Email sub)" "varchar255 (sb_ConfirmToken sub)" "varchar255 (sb_UnsubscribeToken sub)"
    and "\<not> token_clash d (sb_ConfirmToken sub) (sb_UnsubscribeToken sub)"
    and "pair_taken d (sb_Email sub) (sb_RepositoryID sub)"
  shows "createSubscriptionQuery sub now d = Inl (UniqueViolation, ''subscriptions_email_repository_id_key'')"
  using assms by (auto simp: createSubscriptionQuery_def token_clash_def pair_taken_def)

lemma calm_create_fails:
  assumes "calm w" "createSubscriptionQuery sub (pg_clock w) (committed w) = Inl (UniqueViolation, cn)"
  shows "wp (createAndEnqueue ttl sagaID sub payload) Q w = Q
    (if cn = ''subscriptions_email_repository_id_key'' then Inl (Sentinel db_ErrAlreadyExists)
     else if cn = ''subscriptions_confirmation_token_key''
       then Inl (Wrap ''confirmation token'' (Sentinel db_ErrTokenConflict))
     else if cn = ''subscriptions_unsubscribe_token_key''
       then Inl (Wrap ''unsubscribe token'' (Sentinel db_ErrTokenConflict))
     else Inl (Wrap ''unexpected unique violation on subscriptions'' (PgError UniqueViolation cn))) w"
proof -
  have w: "w\<lparr>faults := [], txn := None\<rparr> = w"
    using assms(1) by (simp add: calm_def)
  show ?thesis
    using assms(2) calmD [OF assms(1)]
    by (simp add: createAndEnqueue_def wp_BeginTx wp_bind wp_check wp_defer_Rollback wp_CreateInTx Let_def
        wp_return w)
qed

lemma calm_create_clash:
  assumes "calm w" "varchar255 (sb_Email sub)" "varchar255 (sb_ConfirmToken sub)"
    "varchar255 (sb_UnsubscribeToken sub)"
    and "token_clash (committed w) (sb_ConfirmToken sub) (sb_UnsubscribeToken sub)"
  shows "wp (createAndEnqueue ttl sagaID sub payload) Q w = Q (Inl (clash_error (committed w) sub)) w"
  using calm_create_fails [OF assms(1) create_query_clash [OF assms(2-5)]] by (simp add: clash_error_def)

lemma calm_create_pair_taken:
  assumes "calm w" "varchar255 (sb_Email sub)" "varchar255 (sb_ConfirmToken sub)"
    "varchar255 (sb_UnsubscribeToken sub)"
    and "\<not> token_clash (committed w) (sb_ConfirmToken sub) (sb_UnsubscribeToken sub)"
    and "pair_taken (committed w) (sb_Email sub) (sb_RepositoryID sub)"
  shows "wp (createAndEnqueue ttl sagaID sub payload) Q w = Q (Inl (Sentinel db_ErrAlreadyExists)) w"
  using calm_create_fails [OF assms(1) create_query_pair [OF assms(2-6)]] by simp

lemma calm_create_ok:
  assumes "calm w" "creatable (committed w) sagaID sub"
  shows "wp (createAndEnqueue ttl sagaID sub payload) (\<lambda>r w'. r = Inr () \<and> txn w' = None \<and>
    committed w' = created sagaID sub payload (pg_clock w) (go_clock w + next_drift (drift w) + ttl)
      (committed w)) w"
  using assms
  by (auto simp: createAndEnqueue_def wp_BeginTx wp_bind wp_check wp_defer_Rollback wp_CreateInTx Let_def
      createSubscriptionQuery_def insertSagaQuery_def insertOutboxQuery_def saga_InsertInTx_def
      outbox_Insert_def wp_simps creatable_def created_def new_subscription_row_def token_clash_def
      pair_taken_def calm_def)

text \<open>The draws a run of attempts consumes: two readings each.\<close>

definition draws :: "(string \<times> string) list \<Rightarrow> string list" where
  "draws ps = concat (map (\<lambda>(a, b). [a, b]) ps)"

definition all_clash :: "sub_db \<Rightarrow> (string \<times> string) list \<Rightarrow> bool" where
  "all_clash d ps \<longleftrightarrow> (\<forall>(a, b) \<in> set ps. token_clash d (token_of a) (token_of b))"

lemma attempts_skip:
  assumes "calm w" "varchar255 email" "all_clash (committed w) ps" "length ps \<le> n"
    and "entropy w = draws ps @ es"
    and "wp (create_attempts (n - length ps) ttl sagaID email repoName rid) Q (w\<lparr>entropy := es\<rparr>)"
  shows "wp (create_attempts n ttl sagaID email repoName rid) Q w"
  using assms
proof (induction ps arbitrary: n w)
  case Nil
  then have "w\<lparr>entropy := es\<rparr> = w" by (simp add: draws_def)
  then show ?case using Nil.prems(6) by simp
next
  case (Cons p ps)
  obtain a b where p: "p = (a, b)" by (cases p)
  obtain m where n: "n = Suc m" using Cons.prems(4) by (cases n) auto
  let ?v = "w\<lparr>entropy := draws ps @ es\<rparr>"
  have v: "calm ?v" using Cons.prems(1) by (simp add: calm_def)
  have "wp (create_attempts m ttl sagaID email repoName rid) Q ?v"
    by (rule Cons.IH) (use Cons.prems v n in \<open>simp_all add: all_clash_def\<close>)
  moreover have "entropy w = a # b # (draws ps @ es)"
    using Cons.prems(5) by (simp add: p draws_def)
  moreover have "token_clash (committed ?v) (token_of a) (token_of b)"
    using Cons.prems(3) by (simp add: p all_clash_def)
  ultimately show ?case
    using calm_create_clash [OF v, of "draft email rid a b"] Cons.prems(2)
    by (simp add: n wp_bind wp_NewSubscription_draws wp_check wp_case_sum wp_if clash_error_def)
qed

lemma attempts_succeed:
  assumes "calm w" "varchar255 email" "all_clash (committed w) ps" "length ps < n"
    and "entropy w = draws ps @ a # b # es"
    and "creatable (committed w) sagaID (draft email rid a b)"
  shows "wp (create_attempts n ttl sagaID email repoName rid) (\<lambda>r w'. r = Inr () \<and>
    committed w' = created sagaID (draft email rid a b)
      (confirmation_payload sagaID email repoName (token_of a)) (pg_clock w)
      (go_clock w + next_drift (drift w) + ttl) (committed w)) w"
proof (rule attempts_skip [OF assms(1-3) less_imp_le [OF assms(4)] assms(5)])
  obtain m where m: "n - length ps = Suc m" using assms(4) by (metis Suc_diff_Suc)
  let ?v = "w\<lparr>entropy := es\<rparr>"
  have "calm ?v" "creatable (committed ?v) sagaID (draft email rid a b)"
    using assms(1,6) by (simp_all add: calm_def)
  from calm_create_ok [OF this, where ttl = ttl and payload = "confirmation_payload sagaID email repoName (token_of a)"]
  show "wp (create_attempts (n - length ps) ttl sagaID email repoName rid) (\<lambda>r w'. r = Inr () \<and>
    committed w' = created sagaID (draft email rid a b)
      (confirmation_payload sagaID email repoName (token_of a)) (pg_clock w)
      (go_clock w + next_drift (drift w) + ttl) (committed w)) (w\<lparr>entropy := a # b # es\<rparr>)"
    by (simp add: m wp_bind wp_NewSubscription_draws wp_check confirmation_payload_def)
      (erule wp_mono, auto simp: wp_simps)
qed

lemma attempts_exhausted:
  assumes "calm w" "varchar255 email" "all_clash (committed w) ps" "length ps = n"
    and "entropy w = draws ps @ es"
  shows "wp (create_attempts n ttl sagaID email repoName rid) (\<lambda>r w'.
    r = Inl (Wrap ''create subscription tokens conflict after retries'' (Sentinel db_ErrTokenConflict)) \<and>
    committed w' = committed w) w"
  by (rule attempts_skip [OF assms(1-3) eq_imp_le [OF assms(4)] assms(5)])
    (simp add: assms(4) wp_return)

section \<open>Every handler keeps the schema invariant\<close>

lemma outbox_Insert_keeps_wf [keeps_rules]: "keeps sub_wf (outbox_Insert outbox_update text q subj p)"
  unfolding outbox_Insert_def by (intro keeps_rules)

lemma create_keeps_wf [keeps_rules]: "keeps sub_wf (createAndEnqueue ttl sagaID sub p)"
  unfolding createAndEnqueue_def by (intro keeps_rules)

lemma attempts_keep_wf [keeps_rules]:
  "keeps sub_wf (create_attempts n ttl sagaID email repoName rid)"
  by (induction n) (auto intro!: keeps_rules)

lemma compensate_keeps_wf [keeps_rules]: "keeps sub_wf (compensate orchestrator row reason)"
  unfolding compensate_def orchestrator_def Orchestrator.select_convs by (intro keeps_rules)

lemma compensate_each_keeps_wf [keeps_rules]: "keeps sub_wf (compensate_each orchestrator rows)"
  by (induction rows) (auto simp: CompensateExpired_def intro!: keeps_rules)

lemma handlers_keep_wf [keeps_rules]:
  "keeps sub_wf (Subscribe_Execute parse_ok check_repo ttl email repo)"
  "keeps sub_wf (Confirm_Execute token)"
  "keeps sub_wf (Unsubscribe_Execute token)"
  "keeps sub_wf (saga_handle orchestrator subject data)"
  "keeps sub_wf (reap orchestrator)"
  unfolding Subscribe_Execute_def createPending_def Confirm_Execute_def Unsubscribe_Execute_def
    saga_handle_def HandleEmailFailed_def reap_def
  by (intro keeps_rules)+

section \<open>Confirming and unsubscribing\<close>

lemma calm_Confirm:
  assumes "calm w"
  shows "wp (Confirm_Execute token) (\<lambda>r w'.
    case find (\<lambda>s. sb_ConfirmToken s = token) (subscriptions (committed w)) of
      None \<Rightarrow> r = Inl (Wrap ''confirm token not found'' (Sentinel sub_ErrTokenNotFound)) \<and>
              committed w' = committed w
    | Some s \<Rightarrow> r = Inr () \<and> committed w' =
        (let d = confirm_where (\<lambda>s. sb_ConfirmToken s = token) (pg_clock w) (committed w) in
         case saga_by_sub d (sb_ID s) of
           None \<Rightarrow> d
         | Some row \<Rightarrow>
             if sg_State row \<in> {StateCompleted, StateFailed} then d
             else set_saga_state (sg_ID row) StateCompleted None d)) w"
proof (cases "find (\<lambda>s. sb_ConfirmToken s = token) (subscriptions (committed w))")
  case None
  then have "confirm_where (\<lambda>s. sb_ConfirmToken s = token) (pg_clock w) (committed w) = committed w"
    by (simp add: confirm_where_def find_None_iff)
  then show ?thesis
    using assms None
    by (simp add: Confirm_Execute_def store_Confirm_def wp_simps Let_def calm_def not_found_or_def
        confirmSubscriptionByTokenQuery_def)
next
  case (Some s)
  let ?v = "w\<lparr>faults := [], committed := confirm_where (\<lambda>s. sb_ConfirmToken s = token) (pg_clock w) (committed w)\<rparr>"
  have "calm ?v" using assms by (simp add: calm_def)
  from calm_HandleConfirmed [OF this, of "sb_ID s"] show ?thesis
    using assms Some
    by (simp add: Confirm_Execute_def store_Confirm_def wp_simps Let_def calm_def
        confirmSubscriptionByTokenQuery_def)
      (erule wp_mono, auto simp: wp_simps split: option.splits)
qed

definition unsubscribed :: "string \<Rightarrow> int \<Rightarrow> sub_db \<Rightarrow> sub_db" where
  "unsubscribed token rid d =
     (let d' = delete_subscriptions (\<lambda>s. sb_UnsubscribeToken s = token) d in
      if subscribers d' rid = {} then delete_repository rid d' else d')"

lemma calm_cleanup:
  assumes "calm w" "\<exists>r \<in> set (repositories (committed w)). rp_ID r = i"
  shows "wp (DeleteIfOrphaned (DeleteByID Pool) i (HasAnyByRepositoryID Pool)) (\<lambda>r w'. r = Inr () \<and>
    committed w' = (if subscribers (committed w) i = {} then delete_repository i (committed w) else committed w)) w"
  using assms
  by (auto simp: DeleteIfOrphaned_def DeleteByID_def HasAnyByRepositoryID_def wp_simps Let_def calm_def
      deleteByIDQuery_def hasAnySubscriptionsByRepositoryIDQuery_def subscribers_def)

lemma calm_Unsubscribe:
  assumes "calm w" "sub_wf (committed w)"
  shows "wp (Unsubscribe_Execute token) (\<lambda>r w'.
    case find (\<lambda>s. sb_UnsubscribeToken s = token) (subscriptions (committed w)) of
      None \<Rightarrow> r = Inl (Wrap ''unsubscribe token not found'' (Sentinel sub_ErrTokenNotFound)) \<and>
              committed w' = committed w
    | Some s \<Rightarrow> r = Inr () \<and> committed w' = unsubscribed token (sb_RepositoryID s) (committed w)) w"
proof (cases "find (\<lambda>s. sb_UnsubscribeToken s = token) (subscriptions (committed w))")
  case None
  then show ?thesis
    using assms(1)
    by (simp add: Unsubscribe_Execute_def FindByUnsubscribeToken_def wp_simps Let_def calm_def
        not_found_or_def findSubscriptionByUnsubscribeTokenQuery_def)
next
  case (Some s)
  then have s: "s \<in> set (subscriptions (committed w))" "sb_UnsubscribeToken s = token"
    by (auto dest: find_SomeD)
  let ?d = "delete_subscriptions (\<lambda>s. sb_UnsubscribeToken s = token) (committed w)"
  let ?v = "w\<lparr>faults := [], committed := ?d\<rparr>"
  have c: "calm ?v" using assms by (simp add: calm_def)
  have ex: "\<exists>r \<in> set (repositories (committed ?v)). rp_ID r = sb_RepositoryID s"
    using assms(2) s(1) by (simp add: sub_wf_def delete_subscriptions_def)
  have "wp (DeleteIfOrphaned (DeleteByID Pool) (sb_RepositoryID s) (HasAnyByRepositoryID Pool))
      (\<lambda>r w'. r = Inr () \<and> committed w' = unsubscribed token (sb_RepositoryID s) (committed w)) ?v"
    by (rule wp_mono [OF calm_cleanup [OF c ex]]) (simp add: unsubscribed_def Let_def)
  then show ?thesis
    using assms(1) Some s
    by (auto simp: Unsubscribe_Execute_def FindByUnsubscribeToken_def DeleteByUnsubscribeToken_def
        wp_simps Let_def calm_def findSubscriptionByUnsubscribeTokenQuery_def
        deleteSubscriptionByUnsubscribeTokenQuery_def)
qed

section \<open>The whole use case\<close>

text \<open>\<open>Ensure\<close> only adds a repository.\<close>

definition same_rest :: "sub_db \<Rightarrow> sub_db \<Rightarrow> bool" where
  "same_rest d d' \<longleftrightarrow> subscriptions d' = subscriptions d \<and> subscriptions_seq d' = subscriptions_seq d \<and>
     subscribe_sagas d' = subscribe_sagas d \<and> sagas_seq d' = sagas_seq d \<and> outbox d' = outbox d"

lemma same_restD:
  "same_rest d d' \<Longrightarrow> subscriptions d' = subscriptions d"
  "same_rest d d' \<Longrightarrow> subscribe_sagas d' = subscribe_sagas d"
  "same_rest d d' \<Longrightarrow> outbox d' = outbox d"
  by (simp_all add: same_rest_def)

lemma same_rest_createRepo [keeps_rules]: "stmt_keeps (same_rest d) (createRepoQuery name)"
  by (rule stmt_keepsI) (auto simp: same_rest_def createRepoQuery_def Let_def split: if_splits)

lemma Ensure_same_rest: "keeps (same_rest d) (Ensure (FindByFullName Pool) (Repo_Create Pool) name)"
  unfolding Repo_Create_def by (intro keeps_rules)

lemma wp_Ensure:
  assumes "txn w = None"
  shows "wp (Ensure (FindByFullName Pool) (Repo_Create Pool) name) (\<lambda>r w'. txn w' = None \<and>
    same_rest (committed w) (committed w') \<and> (\<forall>i. r = Inr i \<longrightarrow> (name, i) \<in> repo_names (committed w'))) w"
proof -
  have "wp (Ensure (FindByFullName Pool) (Repo_Create Pool) name) (\<lambda>_. inv_world (same_rest (committed w))) w"
    by (rule keepsD [OF Ensure_same_rest]) (use assms in \<open>simp add: inv_world_def same_rest_def\<close>)
  then show ?thesis
    using repo_store.Ensure_sound [OF assms, of name] by (simp add: wp_run inv_world_def)
qed

lemma normalize_ok:
  "normalizeSubscribeInput parse_ok email repo = Inr (e, n) \<Longrightarrow>
     e = TrimSpace email \<and> n = TrimSpace repo \<and> parse_ok e \<and> repo_slug n"
  by (auto simp: normalizeSubscribeInput_def ValidateEmail_def ValidateRepo_slug [symmetric] Let_def
      split: option.splits if_splits)

lemma wp_Subscribe:
  assumes "txn w = None"
  shows "wp (Subscribe_Execute parse_ok check_repo ttl email repo) (\<lambda>r w'. txn w' = None \<and>
    (r \<noteq> Inr () \<and> subscriptions (committed w') = subscriptions (committed w) \<and>
       subscribe_sagas (committed w') = subscribe_sagas (committed w) \<and>
       outbox (committed w') = outbox (committed w)
     \<or> (\<exists>d rid. (TrimSpace repo, rid) \<in> repo_names d \<and> same_rest (committed w) d \<and>
          subscribed (TrimSpace email) (TrimSpace repo) rid d (committed w')))) w"
proof (cases "normalizeSubscribeInput parse_ok email repo")
  case (Inl e)
  then show ?thesis using assms by (simp add: Subscribe_Execute_def wp_return)
next
  case (Inr p)
  then obtain e n where norm: "normalizeSubscribeInput parse_ok email repo = Inr (e, n)" by (cases p) auto
  note en = normalize_ok [OF norm]
  show ?thesis
  proof (cases "verifyRepo check_repo n")
    case (Some err)
    then show ?thesis using assms norm by (simp add: Subscribe_Execute_def wp_return)
  next
    case None
    let ?Q = "\<lambda>r w'. txn w' = None \<and>
      (r \<noteq> Inr () \<and> subscriptions (committed w') = subscriptions (committed w) \<and>
         subscribe_sagas (committed w') = subscribe_sagas (committed w) \<and>
         outbox (committed w') = outbox (committed w)
       \<or> (\<exists>d rid. (TrimSpace repo, rid) \<in> repo_names d \<and> same_rest (committed w) d \<and>
            subscribed (TrimSpace email) (TrimSpace repo) rid d (committed w')))"
    have pend: "wp (createPending ttl e n i) ?Q v"
      if v: "txn v = None" "same_rest (committed w) (committed v)" "(n, i) \<in> repo_names (committed v)" for i v
      by (rule wp_mono [OF wp_createPending [OF v(1)]]) (use v en in \<open>auto simp: same_rest_def\<close>)
    have "wp (Ensure (FindByFullName Pool) (Repo_Create Pool) n) (\<lambda>r. wp (check r
        (Wrap (''ensure repository '' @ n)) (\<lambda>rid. createPending ttl e n rid)) ?Q) w"
      by (rule wp_mono [OF wp_Ensure [OF assms]])
        (auto simp: wp_check pend same_restD split: sum.splits)
    then show ?thesis
      by (simp only: Subscribe_Execute_def norm None sum.case prod.case option.case wp_bind)
  qed
qed

end
