(* ===== verification/Fanout.thy ===== *)
theory Fanout
  imports Subscribe
begin

text \<open>
  The fan-out of a found release to the confirmed subscribers of its repository
  (\<^verbatim>\<open>internal/fanout\<close>, with the adapter of \<^verbatim>\<open>internal/app\<close>), and the
  outbox relay of the subscription service. The lemmas give the database one message commits:
  the tag and one event for every subscriber, or nothing.
\<close>

section \<open>The worker\<close>

record Recipient =
  rc_Email :: string
  rc_UnsubscribeToken :: string

record DetectedRelease =
  dr_ReleaseTag :: string
  dr_ReleaseName :: string
  dr_ReleaseURL :: string

definition subsToRecipients :: "Subscription list \<Rightarrow> Recipient list" where
  "subsToRecipients subs =
     map (\<lambda>s. \<lparr>rc_Email = sb_Email s, rc_UnsubscribeToken = sb_UnsubscribeToken s\<rparr>) subs"

definition ListConfirmed :: "(int \<Rightarrow> Subscription list sub_io) \<Rightarrow> int \<Rightarrow> Recipient list sub_io" where
  "ListConfirmed lister repoID =
     do { subs \<leftarrow> lister repoID; check subs id (\<lambda>subs. ok (subsToRecipients subs)) }"

definition UpdateLastSeenTag :: "dbtx \<Rightarrow> int \<Rightarrow> string \<Rightarrow> unit sub_io" where
  "UpdateLastSeenTag q repoID tag =
     do { r \<leftarrow> Exec q (updateLastSeenTagQuery repoID tag);
          check r (Wrap (''update last_seen_tag repo_id='' @ FormatInt repoID)) (\<lambda>_. ok ()) }"

definition release_event :: "DetectedRelease \<Rightarrow> Recipient \<Rightarrow> ReleaseDetected" where
  "release_event r rec =
     \<lparr>rd_Email = rc_Email rec, rd_UnsubscribeToken = rc_UnsubscribeToken rec,
      rd_ReleaseTag = dr_ReleaseTag r, rd_ReleaseName = dr_ReleaseName r, rd_ReleaseURL = dr_ReleaseURL r\<rparr>"

definition buildEvents :: "DetectedRelease \<Rightarrow> Recipient list \<Rightarrow> bytes list" where
  "buildEvents r recs = map (\<lambda>rec. Marshal_ReleaseDetected (release_event r rec)) recs"

fun insert_events :: "bytes list \<Rightarrow> unit sub_io" where
  "insert_events [] = ok ()"
| "insert_events (payload # payloads) =
     do { r \<leftarrow> outbox_Insert outbox_update ''insert outbox row'' Tx SubjectRelease payload;
          check r (Wrap ''fanout: insert outbox'') (\<lambda>_. insert_events payloads) }"

definition handleReleaseFound :: "(int \<Rightarrow> Recipient list sub_io) \<Rightarrow> bytes \<Rightarrow> unit sub_io" where
  "handleReleaseFound recipients data =
     (case Unmarshal_ReleaseFound data of
        None \<Rightarrow> ok ()
      | Some ev \<Rightarrow> do {
          recs \<leftarrow> recipients (rf_RepoID ev);
          check recs (Wrap (''fanout: list confirmed for repo_id='' @ FormatInt (rf_RepoID ev))) (\<lambda>recs. do {
            tx \<leftarrow> BeginTx;
            check tx (Wrap ''fanout: begin tx'') (\<lambda>_. defer_Rollback (do {
              r \<leftarrow> UpdateLastSeenTag Tx (rf_RepoID ev) (rf_ReleaseTag ev);
              check r (Wrap ''fanout: update last_seen_tag'') (\<lambda>_. do {
                r \<leftarrow> (if 0 < length recs
                      then insert_events (buildEvents
                        \<lparr>dr_ReleaseTag = rf_ReleaseTag ev, dr_ReleaseName = rf_ReleaseName ev,
                         dr_ReleaseURL = rf_ReleaseURL ev\<rparr> recs)
                      else ok ());
                check r id (\<lambda>_. Commit) }) })) }) })"

definition fanout_Consume :: "(int \<Rightarrow> Recipient list sub_io) \<Rightarrow> bytes \<Rightarrow> (sub_db, verdict) run" where
  "fanout_Consume recipients data =
     do { r \<leftarrow> handleReleaseFound recipients data;
          ret (case r of Inl _ \<Rightarrow> Nak | Inr _ \<Rightarrow> Ack) }"

text \<open>The lister as \<^verbatim>\<open>app.go\<close> wires it.\<close>

definition recipient_lister :: "int \<Rightarrow> Recipient list sub_io" where
  "recipient_lister = ListConfirmed ConfirmedByRepositoryID"

section \<open>What one message commits\<close>

definition confirmed_of :: "sub_db \<Rightarrow> int \<Rightarrow> Subscription list" where
  "confirmed_of d i = filter (\<lambda>s. sb_RepositoryID s = i \<and> sb_Confirmed s) (subscriptions d)"

definition release_payload :: "ReleaseFound \<Rightarrow> Subscription \<Rightarrow> bytes" where
  "release_payload ev s = Marshal_ReleaseDetected
     \<lparr>rd_Email = sb_Email s, rd_UnsubscribeToken = sb_UnsubscribeToken s,
      rd_ReleaseTag = rf_ReleaseTag ev, rd_ReleaseName = rf_ReleaseName ev, rd_ReleaseURL = rf_ReleaseURL ev\<rparr>"

definition enqueue_all :: "string \<Rightarrow> bytes list \<Rightarrow> outbox_table \<Rightarrow> outbox_table" where
  "enqueue_all subject payloads t = fold (insert_row subject) payloads t"

definition tagged :: "ReleaseFound \<Rightarrow> int \<Rightarrow> sub_db \<Rightarrow> sub_db" where
  "tagged ev now d = d\<lparr>repositories := update_where (\<lambda>r. rp_ID r = rf_RepoID ev)
     (\<lambda>r. r\<lparr>rp_LastSeenTag := rf_ReleaseTag ev, rp_UpdatedAt := now\<rparr>) (repositories d)\<rparr>"

definition fanned_out :: "ReleaseFound \<Rightarrow> int \<Rightarrow> sub_db \<Rightarrow> sub_db" where
  "fanned_out ev now d =
     outbox_update (enqueue_all SubjectRelease (map (release_payload ev) (confirmed_of d (rf_RepoID ev))))
       (tagged ev now d)"

lemma enqueue_all_simps [simp]:
  "enqueue_all subject [] t = t"
  "enqueue_all subject (p # ps) t = enqueue_all subject ps (insert_row subject p t)"
  by (simp_all add: enqueue_all_def)

lemma outbox_update_id [simp]: "outbox_update (\<lambda>t. t) d = d"
  by simp

lemma subsToRecipients_Nil [simp]: "subsToRecipients subs = [] \<longleftrightarrow> subs = []"
  by (simp add: subsToRecipients_def)

lemma wp_insert_events:
  assumes "txn w = Some (d, False)"
    and ok: "\<And>fs. Q (Inr ()) (w\<lparr>faults := fs, txn := Some (outbox_update (enqueue_all SubjectRelease ps) d, False)\<rparr>)"
    and bad: "\<And>e fs d'. Q (Inl e) (w\<lparr>faults := fs, txn := Some (d', True)\<rparr>)"
  shows "wp (insert_events ps) Q w"
  using assms
proof (induction ps arbitrary: w d)
  case Nil
  from Nil(2) [of "faults w"] have "Q (Inr ()) (w\<lparr>txn := Some (d, False)\<rparr>)" by simp
  moreover have "w\<lparr>txn := Some (d, False)\<rparr> = w" using Nil(1) by (cases w) simp
  ultimately show ?case by (simp add: wp_return)
next
  case (Cons p ps)
  have "wp (insert_events ps) Q
      (w\<lparr>faults := tl (faults w), txn := Some (outbox_update (insert_row SubjectRelease p) d, False)\<rparr>)"
    by (rule Cons.IH [where d = "outbox_update (insert_row SubjectRelease p) d"])
      (use Cons.prems in \<open>simp_all add: comp_def\<close>)
  then show ?case
    using Cons.prems(1,3)
    by (simp add: outbox_Insert_def wp_simps Let_def insertOutboxQuery_def split: fault.splits)
qed

lemma insert_events_calm:
  "txn w = Some (d, False) \<Longrightarrow> faults w = [] \<Longrightarrow>
   wp (insert_events ps) Q w =
     Q (Inr ()) (w\<lparr>txn := Some (outbox_update (enqueue_all SubjectRelease ps) d, False)\<rparr>)"
proof (induction ps arbitrary: w d)
  case Nil
  then have "w\<lparr>txn := Some (d, False)\<rparr> = w" by (cases w) simp
  then show ?case by (simp add: wp_return)
next
  case (Cons p ps)
  have fx: "w\<lparr>faults := [], txn := x\<rparr> = w\<lparr>txn := x\<rparr>" for x using Cons.prems(2) by (cases w) simp
  show ?case
    using Cons.prems Cons.IH [of "w\<lparr>txn := Some (outbox_update (insert_row SubjectRelease p) d, False)\<rparr>"]
    by (simp add: outbox_Insert_def wp_simps Let_def insertOutboxQuery_def comp_def fx)
qed

lemma build_confirmed:
  "buildEvents \<lparr>dr_ReleaseTag = rf_ReleaseTag ev, dr_ReleaseName = rf_ReleaseName ev,
                dr_ReleaseURL = rf_ReleaseURL ev\<rparr> (subsToRecipients subs) = map (release_payload ev) subs"
  by (simp add: buildEvents_def subsToRecipients_def release_event_def release_payload_def)

lemma wp_recipient_lister:
  "wp (recipient_lister i) Q w =
     (let w' = w\<lparr>faults := tl (faults w)\<rparr> in
      case next_fault (faults w) of
        Fine \<Rightarrow> Q (Inr (subsToRecipients (confirmed_of (committed w) i))) w'
      | _ \<Rightarrow> Q (Inl (Wrap (''query confirmed subscriptions by repository_id '' @ FormatInt i)
                        (Opaque ''connection failure''))) w')"
  by (simp add: recipient_lister_def ListConfirmed_def ConfirmedByRepositoryID_def
      ListConfirmedByRepositoryID_def wp_simps listConfirmedSubscriptionsByRepositoryIDQuery_def
      confirmed_of_def Let_def split: fault.splits)

lemma wp_handleReleaseFound:
  assumes "txn w = None" "Unmarshal_ReleaseFound data = Some ev"
  shows "wp (handleReleaseFound recipient_lister data) (\<lambda>r w'. txn w' = None \<and> stream w' = stream w \<and>
    (committed w' = committed w \<and> r \<noteq> Inr ()
     \<or> committed w' = fanned_out ev (pg_clock w) (committed w))) w"
  using assms
  by (auto simp: handleReleaseFound_def wp_recipient_lister wp_bind wp_check wp_BeginTx wp_defer_Rollback
      UpdateLastSeenTag_def wp_Exec wp_call_Tx updateLastSeenTagQuery_def wp_return wp_Commit wp_if Let_def
      build_confirmed fanned_out_def tagged_def
      split: fault.splits intro!: wp_insert_events)

lemma calm_handleReleaseFound:
  assumes "calm w" "Unmarshal_ReleaseFound data = Some ev" "varchar255 (rf_ReleaseTag ev)"
  shows "wp (handleReleaseFound recipient_lister data) (\<lambda>r w'. r = Inr () \<and>
    committed w' = fanned_out ev (pg_clock w) (committed w)) w"
  using assms
  by (auto simp: handleReleaseFound_def wp_recipient_lister wp_bind wp_check wp_BeginTx wp_defer_Rollback
      UpdateLastSeenTag_def wp_Exec wp_call_Tx updateLastSeenTagQuery_def wp_return wp_Commit wp_if Let_def
      build_confirmed fanned_out_def tagged_def insert_events_calm calm_def)

lemma insert_events_keeps_wf [keeps_rules]: "keeps sub_wf (insert_events ps)"
  by (induction ps) (auto intro!: keeps_rules)

lemma fanout_keeps_wf [keeps_rules]: "keeps sub_wf (handleReleaseFound recipient_lister data)"
  unfolding handleReleaseFound_def recipient_lister_def ListConfirmed_def UpdateLastSeenTag_def
    ConfirmedByRepositoryID_def
  by (intro keeps_rules)

section \<open>The outbox relay of the service\<close>

definition sub_FetchForUpdate :: "nat \<Rightarrow> OutboxRow list sub_io" where
  "sub_FetchForUpdate = outbox_FetchForUpdate outbox ''fetch pending outbox rows''"

definition sub_MarkPublished :: "int list \<Rightarrow> unit sub_io" where
  "sub_MarkPublished = outbox_MarkPublished outbox outbox_update ''mark outbox rows published''"

definition sub_msgID :: "int \<Rightarrow> string" where
  "sub_msgID i = FormatInt i"

definition sub_publishPending :: "unit sub_io" where
  "sub_publishPending = publish_pending sub_FetchForUpdate sub_MarkPublished sub_msgID"

lemma sub_msgID_inj: "inj sub_msgID"
  by (rule injI) (simp add: sub_msgID_def FormatInt_inj)

interpretation sub_relay: outbox_store outbox sub_FetchForUpdate sub_MarkPublished
  "Wrap ''fetch pending outbox rows'' (Opaque ''connection failure'')"
  "Wrap ''mark outbox rows published'' (Opaque ''connection failure'')"
  "\<lambda>ids now. outbox_update (mark_rows ids now)"
  "\<lambda>subject payload. outbox_update (insert_row subject payload)"
  by standard (simp_all add: sub_FetchForUpdate_def sub_MarkPublished_def outbox_Fetch_stmt outbox_Mark_stmt)

lemma relay_keeps [keeps_rules]:
  assumes "\<And>ids now d. I d \<Longrightarrow> I (outbox_update (mark_rows ids now) d)"
  shows "keeps I sub_publishPending"
proof -
  have "stmt_keeps I (markOutboxPublishedQuery outbox outbox_update ids)" for ids
    by (rule stmt_keepsI) (auto simp: markOutboxPublishedQuery_def intro: assms)
  moreover have "stmt_keeps I (fetchOutboxForUpdateQuery outbox n lk)" for n lk
    by (rule stmt_keepsI) (simp add: fetchOutboxForUpdateQuery_def)
  moreover have "keeps I (publish_rows m rows)" for m rows
    by (induction rows) (auto intro!: keeps_rules)
  ultimately show ?thesis
    unfolding sub_publishPending_def publish_pending_def sub_FetchForUpdate_def sub_MarkPublished_def
      outbox_FetchForUpdate_def outbox_MarkPublished_def
    by (intro keeps_rules)
qed

lemma pending_enqueue_all:
  "outbox_wf t \<Longrightarrow> map (\<lambda>r. (ob_Subject r, ob_Payload r)) (pending (enqueue_all subject ps t)) =
     map (\<lambda>r. (ob_Subject r, ob_Payload r)) (pending t) @ map (Pair subject) ps"
  by (induction ps arbitrary: t) (simp_all add: outbox_wf_insert pending_insert)

end
