(* ===== verification/SagaSystem.thy ===== *)
theory SagaSystem
  imports Fanout
begin

text \<open>
  The subscription service as a system of concurrent handlers. A state is the committed database
  and what handlers have in hand between two transactions: compensations still to run
  (\<open>inflight\<close>), confirmations whose saga is still to be completed (\<open>confirming\<close>), repositories to
  be checked and to be deleted by the catalog cleanup. Each step runs one transaction or
  statement of one handler, from any environment: any faults, clock and locks. A crash drops what
  the handlers had in hand.
\<close>

section \<open>Order on saga states\<close>

fun saga_rank :: "SagaState \<Rightarrow> nat" where
  "saga_rank StateStarted = 0"
| "saga_rank StateAwaitingConfirmation = 1"
| "saga_rank StateCompensating = 2"
| "saga_rank StateCompleted = 3"
| "saga_rank StateFailed = 3"

instantiation SagaState :: order
begin

definition less_eq_SagaState :: "SagaState \<Rightarrow> SagaState \<Rightarrow> bool" where
  "less_eq_SagaState a b \<longleftrightarrow> a = b \<or> saga_rank a < saga_rank b"

definition less_SagaState :: "SagaState \<Rightarrow> SagaState \<Rightarrow> bool" where
  "less_SagaState a b \<longleftrightarrow> saga_rank a < saga_rank b"

instance
  by standard (auto simp: less_eq_SagaState_def less_SagaState_def)

end

lemma SagaState_le_simps [simp]:
  "StateStarted \<le> s"
  "StateAwaitingConfirmation \<le> s \<longleftrightarrow> s \<noteq> StateStarted"
  "StateCompensating \<le> s \<longleftrightarrow> s \<notin> {StateStarted, StateAwaitingConfirmation}"
  "StateCompleted \<le> s \<longleftrightarrow> s = StateCompleted"
  "StateFailed \<le> s \<longleftrightarrow> s = StateFailed"
  by (cases s; simp add: less_eq_SagaState_def)+

section \<open>States and steps\<close>

record sys =
  sdb :: sub_db
  inflight :: "(SagaRow \<times> string) list"
  confirming :: "int list"
  cleaning :: "int list"
  deleting :: "int list"

definition init_sys :: sys where
  "init_sys = \<lparr>sdb = empty_sub_db, inflight = [], confirming = [], cleaning = [], deleting = []\<rparr>"

definition runs_at :: "sub_db world \<Rightarrow> sys \<Rightarrow> bool" where
  "runs_at w s \<longleftrightarrow> committed w = sdb s \<and> txn w = None"

datatype sys_event =
    EvRepoCreate string
  | EvSubscribe string Subscription
  | EvEmailSent string
  | EvEmailFailed string string
  | EvReap
  | EvCompensate SagaRow string
  | EvConfirm string
  | EvConfirmed int
  | EvUnsubscribe string
  | EvCleanupCheck int
  | EvCleanupDelete int
  | EvFanout bytes
  | EvRelay
  | EvCrash

inductive sys_step :: "sys \<Rightarrow> sys_event \<Rightarrow> sys \<Rightarrow> bool" where
  step_repo: "runs_at w s \<Longrightarrow>
    sys_step s (EvRepoCreate name) (s\<lparr>sdb := run_db (Repo_Create Pool name) w\<rparr>)"
| step_subscribe: "runs_at w s \<Longrightarrow>
    sys_step s (EvSubscribe sagaID sub) (s\<lparr>sdb := run_db (createAndEnqueue ttl sagaID sub payload) w\<rparr>)"
| step_sent: "runs_at w s \<Longrightarrow>
    sys_step s (EvEmailSent sagaID) (s\<lparr>sdb := run_db (HandleEmailSent sagaID) w\<rparr>)"
| step_failed: "runs_at w s \<Longrightarrow> run_result (email_failed_tx sagaID reason) w = r \<Longrightarrow>
    sys_step s (EvEmailFailed sagaID reason)
      (s\<lparr>sdb := run_db (email_failed_tx sagaID reason) w,
         inflight := inflight s @ (case r of Inr (Some row) \<Rightarrow> [(row, reason)] | _ \<Rightarrow> [])\<rparr>)"
| step_reap: "runs_at w s \<Longrightarrow> run_result reap_tx w = r \<Longrightarrow>
    sys_step s EvReap
      (s\<lparr>sdb := run_db reap_tx w,
         inflight := inflight s @ (case r of
           Inr rows \<Rightarrow> map (\<lambda>row. (row, ''confirmation deadline exceeded'')) rows | Inl _ \<Rightarrow> [])\<rparr>)"
| step_compensate: "runs_at w s \<Longrightarrow> (row, reason) \<in> set (inflight s) \<Longrightarrow>
    run_result (compensate_tx row reason) w = r \<Longrightarrow>
    sys_step s (EvCompensate row reason)
      (s\<lparr>sdb := run_db (compensate_tx row reason) w,
         inflight := remove1 (row, reason) (inflight s),
         cleaning := cleaning s @ (if r = Inr True then [sg_RepositoryID row] else [])\<rparr>)"
| step_confirm: "runs_at w s \<Longrightarrow> run_result (store_Confirm Pool token) w = r \<Longrightarrow>
    sys_step s (EvConfirm token)
      (s\<lparr>sdb := run_db (store_Confirm Pool token) w,
         confirming := confirming s @ (case r of Inr i \<Rightarrow> [i] | Inl _ \<Rightarrow> [])\<rparr>)"
| step_confirmed: "runs_at w s \<Longrightarrow> i \<in> set (confirming s) \<Longrightarrow>
    sys_step s (EvConfirmed i)
      (s\<lparr>sdb := run_db (HandleConfirmed i) w, confirming := remove1 i (confirming s)\<rparr>)"
\<comment> \<open>\<open>rid\<close> is the repository an earlier \<^verbatim>\<open>FindByUnsubscribeToken\<close> read\<close>
| step_unsubscribe: "runs_at w s \<Longrightarrow>
    sys_step s (EvUnsubscribe token)
      (s\<lparr>sdb := run_db (DeleteByUnsubscribeToken Pool token) w, cleaning := cleaning s @ [rid]\<rparr>)"
| step_check: "runs_at w s \<Longrightarrow> rid \<in> set (cleaning s) \<Longrightarrow>
    run_result (HasAnyByRepositoryID Pool rid) w = r \<Longrightarrow>
    sys_step s (EvCleanupCheck rid)
      (s\<lparr>cleaning := remove1 rid (cleaning s),
         deleting := deleting s @ (if r = Inr False then [rid] else [])\<rparr>)"
| step_delete: "runs_at w s \<Longrightarrow> rid \<in> set (deleting s) \<Longrightarrow>
    sys_step s (EvCleanupDelete rid)
      (s\<lparr>sdb := run_db (DeleteByID Pool rid) w, deleting := remove1 rid (deleting s)\<rparr>)"
| step_fanout: "runs_at w s \<Longrightarrow>
    sys_step s (EvFanout data) (s\<lparr>sdb := run_db (handleReleaseFound recipient_lister data) w\<rparr>)"
| step_relay: "runs_at w s \<Longrightarrow> sys_step s EvRelay (s\<lparr>sdb := run_db sub_publishPending w\<rparr>)"
| step_crash: "sys_step s EvCrash (s\<lparr>inflight := [], confirming := [], cleaning := [], deleting := []\<rparr>)"

inductive_cases sys_stepE: "sys_step s ev s'"

inductive reachable :: "sys \<Rightarrow> bool" where
  reach_init: "reachable init_sys"
| reach_step: "reachable s \<Longrightarrow> sys_step s ev s' \<Longrightarrow> reachable s'"

section \<open>The invariant\<close>

definition sagas_ok :: "sub_db \<Rightarrow> bool" where
  "sagas_ok d \<longleftrightarrow>
     (\<forall>r \<in> set (subscribe_sagas d). sg_SubscriptionID r < subscriptions_seq d) \<and>
     distinct (map sg_SubscriptionID (subscribe_sagas d)) \<and>
     (\<forall>r \<in> set (subscribe_sagas d). sg_State r = StateFailed \<longrightarrow>
        (\<forall>s \<in> set (subscriptions d). sb_ID s \<noteq> sg_SubscriptionID r)) \<and>
     (\<forall>r \<in> set (subscribe_sagas d). sg_State r = StateCompleted \<longrightarrow>
        \<not> pending_sub d (sg_SubscriptionID r)) \<and>
     (\<forall>s \<in> set (subscriptions d). \<not> sb_Confirmed s \<longrightarrow>
        (\<exists>r \<in> set (subscribe_sagas d). sg_SubscriptionID r = sb_ID s))"

definition inflight_ok :: "sub_db \<Rightarrow> (SagaRow \<times> string) list \<Rightarrow> bool" where
  "inflight_ok d infl \<longleftrightarrow>
     distinct (map (sg_ID \<circ> fst) infl) \<and>
     (\<forall>p \<in> set infl. \<exists>r \<in> set (subscribe_sagas d). sg_ID r = sg_ID (fst p) \<and>
        sg_SubscriptionID r = sg_SubscriptionID (fst p) \<and> sg_State r \<in> {StateCompensating, StateCompleted})"

definition confirming_ok :: "sub_db \<Rightarrow> int list \<Rightarrow> bool" where
  "confirming_ok d is \<longleftrightarrow> (\<forall>i \<in> set is. i < subscriptions_seq d \<and> \<not> pending_sub d i)"

definition sys_inv :: "sys \<Rightarrow> bool" where
  "sys_inv s \<longleftrightarrow> sub_wf (sdb s) \<and> sagas_ok (sdb s) \<and> inflight_ok (sdb s) (inflight s) \<and>
     confirming_ok (sdb s) (confirming s)"

section \<open>What a step may do to the database\<close>

text \<open>The abstract system: the effect each event may have, without transactions and faults.\<close>

definition same_core :: "sub_db \<Rightarrow> sub_db \<Rightarrow> bool" where
  "same_core d d' \<longleftrightarrow> subscriptions d' = subscriptions d \<and> subscriptions_seq d' = subscriptions_seq d \<and>
     subscribe_sagas d' = subscribe_sagas d \<and> sagas_seq d' = sagas_seq d"

fun effect :: "sys_event \<Rightarrow> sub_db \<Rightarrow> sub_db \<Rightarrow> bool" where
  "effect (EvRepoCreate name) d d' = same_core d d'"
| "effect (EvSubscribe sagaID sub) d d' =
     (d' = d \<or> (creatable d sagaID sub \<and> (\<exists>p now dl. d' = created sagaID sub p now dl d)))"
| "effect (EvEmailSent sagaID) d d' =
     (d' = d \<or> (\<exists>row. saga_by_id d sagaID = Some row \<and> sg_State row = StateStarted \<and>
        d' = set_saga_state (sg_ID row) StateAwaitingConfirmation None d))"
| "effect (EvEmailFailed sagaID reason) d d' =
     (d' = d \<or> (\<exists>row. saga_by_id d sagaID = Some row \<and>
        sg_State row \<in> {StateStarted, StateAwaitingConfirmation} \<and>
        d' = set_saga_state (sg_ID row) StateCompensating (Some reason) d))"
| "effect EvReap d d' = (d' = d \<or> (\<exists>lk now. d' = compensating (expired_batch lk now d) d))"
| "effect (EvCompensate row reason) d d' = (d' = d \<or> d' = compensated row reason d)"
| "effect (EvConfirm token) d d' =
     (d' = d \<or> (\<exists>now. d' = confirm_where (\<lambda>s. sb_ConfirmToken s = token) now d))"
| "effect (EvConfirmed i) d d' =
     (d' = d \<or> (\<exists>row. saga_by_sub d i = Some row \<and> sg_State row \<notin> {StateCompleted, StateFailed} \<and>
        d' = set_saga_state (sg_ID row) StateCompleted None d))"
| "effect (EvUnsubscribe token) d d' =
     (d' = d \<or> d' = delete_subscriptions (\<lambda>s. sb_UnsubscribeToken s = token) d)"
| "effect (EvCleanupDelete rid) d d' = (d' = d \<or> d' = delete_repository rid d)"
| "effect (EvFanout data) d d' = same_core d d'"
| "effect EvRelay d d' = same_core d d'"
| "effect _ d d' = (d' = d)"

lemma same_core_refl [simp]: "same_core d d"
  by (simp add: same_core_def)

lemma same_core_stmts [keeps_rules]:
  "stmt_keeps (same_core d) (createRepoQuery name)"
  "stmt_keeps (same_core d) (updateLastSeenTagQuery rid tag)"
  "stmt_keeps (same_core d) (insertOutboxQuery outbox_update subject payload)"
  by (rule stmt_keepsI, auto simp: same_core_def sub_queries Let_def split: if_splits)+

lemma same_core_insert_events [keeps_rules]: "keeps (same_core d) (insert_events ps)"
  by (induction ps) (auto simp: outbox_Insert_def intro!: keeps_rules)

lemma same_core_ops:
  "keeps (same_core d) (Repo_Create Pool name)"
  "keeps (same_core d) (handleReleaseFound recipient_lister data)"
  "keeps (same_core d) sub_publishPending"
  unfolding Repo_Create_def handleReleaseFound_def recipient_lister_def ListConfirmed_def
    UpdateLastSeenTag_def ConfirmedByRepositoryID_def
  by (intro keeps_rules | simp add: same_core_def)+

lemma wp_store_Confirm:
  "txn w = None \<Longrightarrow>
   wp (store_Confirm Pool token) (\<lambda>r w'. txn w' = None \<and>
     (case r of
        Inr i \<Rightarrow> (\<exists>s \<in> set (subscriptions (committed w)). sb_ConfirmToken s = token \<and> sb_ID s = i) \<and>
          committed w' = confirm_where (\<lambda>s. sb_ConfirmToken s = token) (pg_clock w) (committed w)
      | Inl e \<Rightarrow> committed w' = committed w \<or>
          committed w' = confirm_where (\<lambda>s. sb_ConfirmToken s = token) (pg_clock w) (committed w))) w"
  by (cases "find (\<lambda>s. sb_ConfirmToken s = token) (subscriptions (committed w))")
    (auto simp: store_Confirm_def wp_simps confirmSubscriptionByTokenQuery_def Let_def
      dest: find_SomeD split: fault.splits)

lemma wp_DeleteByUnsubscribeToken:
  "txn w = None \<Longrightarrow>
   wp (DeleteByUnsubscribeToken Pool token) (\<lambda>r w'. txn w' = None \<and>
     (committed w' = committed w \<or>
      committed w' = delete_subscriptions (\<lambda>s. sb_UnsubscribeToken s = token) (committed w))) w"
  by (auto simp: DeleteByUnsubscribeToken_def wp_simps deleteSubscriptionByUnsubscribeTokenQuery_def
      Let_def split: fault.splits)

lemma runs_atD: "runs_at w s \<Longrightarrow> committed w = sdb s" "runs_at w s \<Longrightarrow> txn w = None"
  by (simp_all add: runs_at_def)

lemma runs_keeps: "keeps I m \<Longrightarrow> runs_at w s \<Longrightarrow> I (sdb s) \<Longrightarrow> I (run_db m w)"
  using keeps_run_db [of I m w] by (simp add: runs_at_def idle_def)

lemma step_effect:
  assumes "sys_step s ev s'"
  shows "effect ev (sdb s) (sdb s')"
  using assms
proof (cases rule: sys_step.cases)
  case (step_subscribe w sagaID sub ttl payload)
  then show ?thesis
    using wp_createAndEnqueue [OF runs_atD(2), of w s ttl sagaID sub payload]
    by (auto simp: wp_run run_db_world create_post_def Let_def runs_atD split: sum.splits)
next
  case (step_sent w sagaID)
  then show ?thesis
    using wp_HandleEmailSent [OF runs_atD(2), of w s sagaID]
    by (auto simp: wp_run run_db_world runs_atD)
next
  case (step_failed w sagaID reason r)
  then show ?thesis
    using wp_email_failed_tx [OF runs_atD(2), of w s sagaID reason]
    by (auto simp: wp_run run_db_world runs_atD split: sum.splits option.splits)
next
  case (step_reap w r)
  then show ?thesis
    using wp_reap_tx [OF runs_atD(2), of w s]
    by (auto simp: wp_run run_db_world runs_atD Let_def split: sum.splits)
next
  case (step_compensate w row reason r)
  then show ?thesis
    using wp_compensate_tx [OF runs_atD(2), of w s row reason]
    by (auto simp: wp_run run_db_world runs_atD split: sum.splits)
next
  case (step_confirm w token r)
  then show ?thesis
    using wp_store_Confirm [OF runs_atD(2), of w s token]
    by (auto simp: wp_run run_db_world runs_atD split: sum.splits)
next
  case (step_confirmed w i)
  then show ?thesis
    using wp_HandleConfirmed [OF runs_atD(2), of w s i]
    by (auto simp: wp_run run_db_world runs_atD)
next
  case (step_unsubscribe w token rid)
  then show ?thesis
    using wp_DeleteByUnsubscribeToken [OF runs_atD(2), of w s token]
    by (auto simp: wp_run run_db_world runs_atD)
next
  case (step_delete w rid)
  then show ?thesis
    using wp_DeleteByID [OF runs_atD(2), of w s rid]
    by (auto simp: wp_run run_db_world runs_atD)
qed (auto intro: runs_keeps [OF same_core_ops(1)] runs_keeps [OF same_core_ops(2)]
       runs_keeps [OF same_core_ops(3)])

section \<open>The invariant is kept\<close>

definition saga_upd :: "(SagaRow \<Rightarrow> bool) \<Rightarrow> SagaState \<Rightarrow> string option \<Rightarrow> sub_db \<Rightarrow> sub_db" where
  "saga_upd P st le d = d\<lparr>subscribe_sagas :=
     update_where P (\<lambda>r. r\<lparr>sg_State := st, sg_LastError := le\<rparr>) (subscribe_sagas d)\<rparr>"

lemma set_saga_state_upd: "set_saga_state i st le d = saga_upd (\<lambda>r. sg_ID r = i) st le d"
  by (simp add: set_saga_state_def saga_upd_def)

lemma update_where_twice:
  "(\<And>r. f (f r) = f r) \<Longrightarrow> (\<And>r. Q (f r) = Q r) \<Longrightarrow>
     update_where Q f (update_where P f rs) = update_where (\<lambda>r. P r \<or> Q r) f rs"
  by (induction rs) auto

lemma compensating_upd:
  "compensating rows d = saga_upd (\<lambda>r. sg_ID r \<in> sg_ID ` set rows) StateCompensating None d"
proof (induction rows arbitrary: d)
  case Nil
  then show ?case by (simp add: saga_upd_def)
next
  case (Cons row rows)
  then show ?case
    by (simp add: set_saga_state_upd) (simp add: saga_upd_def update_where_twice)
qed

lemma saga_upd_simps [simp]:
  "subscriptions (saga_upd P st le d) = subscriptions d"
  "subscriptions_seq (saga_upd P st le d) = subscriptions_seq d"
  "subscribe_sagas (saga_upd P st le d) =
     update_where P (\<lambda>r. r\<lparr>sg_State := st, sg_LastError := le\<rparr>) (subscribe_sagas d)"
  "pending_sub (saga_upd P st le d) i = pending_sub d i"
  by (simp_all add: saga_upd_def pending_sub_def)

lemma sagas_ok_upd:
  assumes "sagas_ok d"
    and "\<And>r s. st = StateFailed \<Longrightarrow> r \<in> set (subscribe_sagas d) \<Longrightarrow> P r \<Longrightarrow> s \<in> set (subscriptions d) \<Longrightarrow>
      sb_ID s \<noteq> sg_SubscriptionID r"
    and "\<And>r. st = StateCompleted \<Longrightarrow> r \<in> set (subscribe_sagas d) \<Longrightarrow> P r \<Longrightarrow>
      \<not> pending_sub d (sg_SubscriptionID r)"
  shows "sagas_ok (saga_upd P st le d)"
proof -
  have "\<exists>r \<in> set (subscribe_sagas d). sg_SubscriptionID (if P r then r\<lparr>sg_State := st, sg_LastError := le\<rparr> else r) = i"
    if "\<exists>r \<in> set (subscribe_sagas d). sg_SubscriptionID r = i" for i
    using that by auto
  then show ?thesis
    using assms unfolding sagas_ok_def by auto
qed

lemma inflight_ok_upd:
  assumes "inflight_ok d infl"
    and "\<And>r p. r \<in> set (subscribe_sagas d) \<Longrightarrow> P r \<Longrightarrow> p \<in> set infl \<Longrightarrow> sg_ID r = sg_ID (fst p) \<Longrightarrow>
      st \<in> {StateCompensating, StateCompleted}"
  shows "inflight_ok (saga_upd P st le d) infl"
proof -
  have "\<exists>r \<in> set (subscribe_sagas (saga_upd P st le d)). sg_ID r = sg_ID (fst p) \<and>
      sg_SubscriptionID r = sg_SubscriptionID (fst p) \<and> sg_State r \<in> {StateCompensating, StateCompleted}"
    if p: "p \<in> set infl" for p
  proof -
    obtain r where r: "r \<in> set (subscribe_sagas d)" "sg_ID r = sg_ID (fst p)"
      "sg_SubscriptionID r = sg_SubscriptionID (fst p)" "sg_State r \<in> {StateCompensating, StateCompleted}"
      using assms(1) p unfolding inflight_ok_def by blast
    then show ?thesis
      using assms(2) [OF r(1) _ p r(2)] by (auto intro!: bexI [OF _ r(1)])
  qed
  then show ?thesis
    using assms(1) by (simp add: inflight_ok_def)
qed

lemma inflight_ok_subset:
  "inflight_ok d infl \<Longrightarrow> inflight_ok d (remove1 p infl)"
  unfolding inflight_ok_def by (auto simp: distinct_map distinct_remove1 dest: notin_set_remove1 intro: inj_on_subset)

lemma inflight_ok_same:
  "inflight_ok d infl \<Longrightarrow> subscribe_sagas d' = subscribe_sagas d \<Longrightarrow> inflight_ok d' infl"
  by (simp add: inflight_ok_def)

lemma confirming_ok_mono:
  "confirming_ok d is \<Longrightarrow> subscriptions_seq d \<le> subscriptions_seq d' \<Longrightarrow>
   (\<And>i. pending_sub d' i \<Longrightarrow> pending_sub d i \<or> i \<ge> subscriptions_seq d) \<Longrightarrow> confirming_ok d' is"
  unfolding confirming_ok_def by force

lemma pending_delete: "pending_sub (delete_subscriptions P d) i \<Longrightarrow> pending_sub d i"
  by (auto simp: pending_sub_def delete_subscriptions_def)

lemma pending_confirm: "pending_sub (confirm_where P now d) i \<Longrightarrow> pending_sub d i"
  by (auto simp: pending_sub_def confirm_where_def split: if_splits)

lemma pending_delete_repository: "pending_sub (delete_repository rid d) i \<Longrightarrow> pending_sub d i"
  by (auto simp: pending_sub_def delete_repository_def split: if_splits)

lemma pending_created:
  "pending_sub (created sagaID sub p now dl d) i \<longleftrightarrow> pending_sub d i \<or> i = subscriptions_seq d"
  by (auto simp: pending_sub_def created_def new_subscription_row_def)

lemma sagas_ok_delete: "sagas_ok d \<Longrightarrow> sagas_ok (delete_subscriptions P d)"
  unfolding sagas_ok_def pending_sub_def delete_subscriptions_def by auto

lemma sagas_ok_delete_repository: "sagas_ok d \<Longrightarrow> sagas_ok (delete_repository rid d)"
  unfolding sagas_ok_def pending_sub_def delete_repository_def by auto

lemma sagas_ok_confirm: "sagas_ok d \<Longrightarrow> sagas_ok (confirm_where P now d)"
  unfolding sagas_ok_def confirm_where_def by (auto simp: pending_sub_def)

lemma sagas_ok_created:
  assumes "sagas_ok d" "sub_wf d"
  shows "sagas_ok (created sagaID sub p now dl d)"
proof -
  have "sb_ID s < subscriptions_seq d" if "s \<in> set (subscriptions d)" for s
    using assms(2) that by (simp add: sub_wf_def)
  then show ?thesis
    using assms(1) unfolding sagas_ok_def pending_created
    by (auto simp: created_def new_subscription_row_def less_le)
qed

lemma saga_by_idD: "saga_by_id d i = Some row \<Longrightarrow> row \<in> set (subscribe_sagas d) \<and> sg_SagaID row = i"
  unfolding saga_by_id_def by (drule find_SomeD) simp

lemma saga_by_subD: "saga_by_sub d i = Some row \<Longrightarrow> row \<in> set (subscribe_sagas d) \<and> sg_SubscriptionID row = i"
  unfolding saga_by_sub_def by (drule find_SomeD) simp

lemma saga_ID_unique:
  "sub_wf d \<Longrightarrow> r \<in> set (subscribe_sagas d) \<Longrightarrow> r' \<in> set (subscribe_sagas d) \<Longrightarrow> sg_ID r = sg_ID r' \<Longrightarrow> r = r'"
  using distinct_map_eqD [of sg_ID] sub_wfD(6) by blast

lemma saga_sub_unique:
  "sagas_ok d \<Longrightarrow> r \<in> set (subscribe_sagas d) \<Longrightarrow> r' \<in> set (subscribe_sagas d) \<Longrightarrow>
     sg_SubscriptionID r = sg_SubscriptionID r' \<Longrightarrow> r = r'"
  unfolding sagas_ok_def using distinct_map_eqD [of sg_SubscriptionID] by blast

text \<open>The row a compensation has in hand stands for the row in the table.\<close>

lemma inflight_row:
  assumes "sub_wf d" "inflight_ok d infl" "(row, reason) \<in> set infl"
    and "r \<in> set (subscribe_sagas d)" "sg_ID r = sg_ID row"
  shows "sg_SubscriptionID r = sg_SubscriptionID row" "sg_State r \<in> {StateCompensating, StateCompleted}"
proof -
  obtain r' where r': "r' \<in> set (subscribe_sagas d)" "sg_ID r' = sg_ID row"
    "sg_SubscriptionID r' = sg_SubscriptionID row" "sg_State r' \<in> {StateCompensating, StateCompleted}"
    using assms(2,3) unfolding inflight_ok_def by force
  then have "r = r'" using saga_ID_unique [OF assms(1,4)] assms(5) by simp
  then show "sg_SubscriptionID r = sg_SubscriptionID row" "sg_State r \<in> {StateCompensating, StateCompleted}"
    using r' by simp_all
qed

lemma compensated_cases:
  "compensated row reason d =
     (if pending_sub d (sg_SubscriptionID row)
      then saga_upd (\<lambda>r. sg_ID r = sg_ID row) StateFailed (Some reason)
             (delete_subscriptions (\<lambda>s. sb_ID s = sg_SubscriptionID row \<and> \<not> sb_Confirmed s) d)
      else saga_upd (\<lambda>r. sg_ID r = sg_ID row) StateCompleted None d)"
  by (simp add: compensated_def set_saga_state_upd)

lemma sub_ID_unique:
  "sub_wf d \<Longrightarrow> x \<in> set (subscriptions d) \<Longrightarrow> y \<in> set (subscriptions d) \<Longrightarrow> sb_ID x = sb_ID y \<Longrightarrow> x = y"
  using distinct_map_eqD [of sb_ID] sub_wfD(3) by blast

lemma compensated_gone:
  assumes "sub_wf d" "pending_sub d i"
    and "x \<in> set (subscriptions (delete_subscriptions (\<lambda>s. sb_ID s = i \<and> \<not> sb_Confirmed s) d))"
  shows "sb_ID x \<noteq> i"
proof
  assume "sb_ID x = i"
  moreover obtain y where "y \<in> set (subscriptions d)" "sb_ID y = i" "\<not> sb_Confirmed y"
    using assms(2) by (auto simp: pending_sub_def)
  ultimately show False
    using assms(1,3) sub_ID_unique [of d x y] by (auto simp: delete_subscriptions_def)
qed

lemma delete_subscriptions_sagas [simp]:
  "subscribe_sagas (delete_subscriptions P d) = subscribe_sagas d"
  "subscriptions_seq (delete_subscriptions P d) = subscriptions_seq d"
  "subscribe_sagas (confirm_where P now d) = subscribe_sagas d"
  "subscriptions_seq (confirm_where P now d) = subscriptions_seq d"
  by (simp_all add: delete_subscriptions_def confirm_where_def)

lemma sagas_ok_compensated:
  assumes "sub_wf d" "sagas_ok d" "inflight_ok d infl" "(row, reason) \<in> set infl"
  shows "sagas_ok (compensated row reason d)"
proof (cases "pending_sub d (sg_SubscriptionID row)")
  case True
  show ?thesis
    unfolding compensated_cases if_P [OF True]
    using inflight_row(1) [OF assms(1,3,4)] compensated_gone [OF assms(1) True]
    by (intro sagas_ok_upd sagas_ok_delete [OF assms(2)]) auto
next
  case False
  show ?thesis
    unfolding compensated_cases if_not_P [OF False]
    using inflight_row(1) [OF assms(1,3,4)] False
    by (intro sagas_ok_upd assms(2)) auto
qed

lemma inflight_ok_compensated:
  assumes "sub_wf d" "inflight_ok d infl" "(row, reason) \<in> set infl"
  shows "inflight_ok (compensated row reason d) (remove1 (row, reason) infl)"
proof -
  have d: "distinct (map (sg_ID \<circ> fst) infl)" using assms(2) by (simp add: inflight_ok_def)
  have other: "sg_ID (fst p) \<noteq> sg_ID row" if "p \<in> set (remove1 (row, reason) infl)" for p
  proof -
    have "p \<in> set infl" "p \<noteq> (row, reason)"
      using that d by (auto simp: distinct_map set_remove1_eq dest: notin_set_remove1)
    then show ?thesis
      using distinct_map_eqD [OF d, of p "(row, reason)"] assms(3) by auto
  qed
  have "inflight_ok (saga_upd (\<lambda>r. sg_ID r = sg_ID row) st le d') (remove1 (row, reason) infl)"
    if same: "subscribe_sagas d' = subscribe_sagas d" for st le d'
  proof (rule inflight_ok_upd [OF inflight_ok_subset [OF inflight_ok_same [OF assms(2) same]]])
    fix r p
    assume "sg_ID r = sg_ID row" "p \<in> set (remove1 (row, reason) infl)" "sg_ID r = sg_ID (fst p)"
    with other [of p] show "st \<in> {StateCompensating, StateCompleted}" by simp
  qed
  then show ?thesis
    by (simp add: compensated_cases)
qed

section \<open>Every reachable state is good\<close>

lemma step_hands:
  assumes "sys_step s ev s'"
  shows "case ev of
      EvEmailFailed sagaID reason \<Rightarrow> inflight s' = inflight s \<or>
        (\<exists>row. saga_by_id (sdb s) sagaID = Some row \<and>
           sg_State row \<in> {StateStarted, StateAwaitingConfirmation} \<and>
           sdb s' = set_saga_state (sg_ID row) StateCompensating (Some reason) (sdb s) \<and>
           inflight s' = inflight s @ [(row, reason)])
    | EvReap \<Rightarrow> inflight s' = inflight s \<or>
        (\<exists>lk now. sdb s' = compensating (expired_batch lk now (sdb s)) (sdb s) \<and>
           inflight s' = inflight s @
             map (\<lambda>row. (row, ''confirmation deadline exceeded'')) (expired_batch lk now (sdb s)))
    | EvCompensate row reason \<Rightarrow>
        (row, reason) \<in> set (inflight s) \<and> inflight s' = remove1 (row, reason) (inflight s)
    | EvCrash \<Rightarrow> inflight s' = []
    | _ \<Rightarrow> inflight s' = inflight s"
  using assms
proof (cases rule: sys_step.cases)
  case (step_failed w sagaID reason r)
  then show ?thesis
    using wp_email_failed_tx [OF runs_atD(2), of w s sagaID reason]
    by (auto simp: wp_run run_db_world runs_atD split: sum.splits option.splits)
next
  case (step_reap w r)
  then show ?thesis
    using wp_reap_tx [OF runs_atD(2), of w s]
    by (auto simp: wp_run run_db_world runs_atD Let_def split: sum.splits)
qed auto

lemma step_confirming:
  assumes "sys_step s ev s'" "i \<in> set (confirming s')"
  shows "i \<in> set (confirming s) \<or>
    (\<exists>token now. ev = EvConfirm token \<and> sdb s' = confirm_where (\<lambda>x. sb_ConfirmToken x = token) now (sdb s) \<and>
       (\<exists>x \<in> set (subscriptions (sdb s)). sb_ConfirmToken x = token \<and> sb_ID x = i))"
  using assms
proof (cases rule: sys_step.cases)
  case (step_confirm w token r)
  then show ?thesis
    using assms(2) wp_store_Confirm [OF runs_atD(2), of w s token]
    by (auto simp: wp_run run_db_world runs_atD split: sum.splits)
qed (auto dest: set_remove1_subset [THEN subsetD])

lemma step_needs:
  assumes "sys_step s ev s'"
  shows "ev = EvConfirmed i \<Longrightarrow> i \<in> set (confirming s)"
    "ev = EvCompensate row reason \<Longrightarrow> (row, reason) \<in> set (inflight s)"
    "ev = EvCleanupDelete rid \<Longrightarrow> rid \<in> set (deleting s)"
  using assms by (auto elim: sys_step.cases)

lemma step_wf:
  assumes "sys_step s ev s'" "sub_wf (sdb s)"
  shows "sub_wf (sdb s')"
proof -
  have relay: "keeps sub_wf sub_publishPending"
    by (rule relay_keeps) (auto intro!: sub_wf_outbox outbox_wf_mark)
  show ?thesis
    using assms
    by (cases rule: sys_step.cases) (auto intro!: relay runs_keeps keeps_rules)
qed

end
