(* ===== verification/SagaInvariant.thy ===== *)
theory SagaInvariant
  imports SagaSystem
begin

text \<open>
  What holds in every reachable state of the subscription service: the invariant of the sagas,
  the order in which a saga moves through its states, what becomes of confirmed and of pending
  subscriptions, and the states a saga cannot leave.
\<close>

section \<open>The invariant\<close>

lemma in_expired_batch:
  "r \<in> set (expired_batch lk now d) \<Longrightarrow> r \<in> set (subscribe_sagas d) \<and> expired now r \<and> sg_ID r \<notin> set lk"
  unfolding expired_batch_def by (drule in_set_takeD) simp

lemma expired_state: "expired now r \<Longrightarrow> sg_State r \<in> {StateStarted, StateAwaitingConfirmation}"
  by (simp add: expired_def)

lemma inflight_add:
  assumes "sub_wf d" "inflight_ok d infl"
    and "\<And>r. r \<in> set rows \<Longrightarrow> r \<in> set (subscribe_sagas d) \<and>
      sg_State r \<in> {StateStarted, StateAwaitingConfirmation}"
    and "distinct (map sg_ID rows)"
  shows "inflight_ok (saga_upd (\<lambda>r. sg_ID r \<in> sg_ID ` set rows) StateCompensating le d)
    (infl @ map (\<lambda>row. (row, reason)) rows)"
proof -
  let ?P = "\<lambda>r. sg_ID r \<in> sg_ID ` set rows" and ?infl = "infl @ map (\<lambda>row. (row, reason)) rows"
  have old: "inflight_ok (saga_upd ?P StateCompensating le d) infl"
    by (rule inflight_ok_upd [OF assms(2)]) simp
  have fresh: "sg_ID (fst p) \<noteq> sg_ID r" if p: "p \<in> set infl" and r: "r \<in> set rows" for p r
  proof
    assume eq: "sg_ID (fst p) = sg_ID r"
    obtain row why where "p = (row, why)" by (cases p)
    then show False
      using inflight_row(2) [OF assms(1,2), of row why r] p eq assms(3) [OF r] by auto
  qed
  have "distinct (map (sg_ID \<circ> fst) ?infl)"
    using assms(2,4) fresh by (fastforce simp: inflight_ok_def comp_def)
  moreover have "\<exists>r \<in> set (subscribe_sagas (saga_upd ?P StateCompensating le d)). sg_ID r = sg_ID (fst p) \<and>
      sg_SubscriptionID r = sg_SubscriptionID (fst p) \<and> sg_State r \<in> {StateCompensating, StateCompleted}"
    if p: "p \<in> set ?infl" for p
  proof (cases "p \<in> set infl")
    case True
    then show ?thesis using old unfolding inflight_ok_def by blast
  next
    case False
    then obtain row where row: "row \<in> set rows" "fst p = row" using p by auto
    then show ?thesis
      using assms(3) [OF row(1)] by (auto intro!: bexI [of _ row])
  qed
  ultimately show ?thesis by (simp only: inflight_ok_def) blast
qed

lemma confirm_not_pending:
  assumes "sub_wf d" "x \<in> set (subscriptions d)" "sb_ConfirmToken x = token"
  shows "\<not> pending_sub (confirm_where (\<lambda>x. sb_ConfirmToken x = token) now d) (sb_ID x)"
  using assms(2,3) by (auto simp: pending_sub_def confirm_where_def dest: sub_ID_unique [OF assms(1)])

lemma effect_sagas_ok:
  assumes "effect ev d d'" "sub_wf d" "sagas_ok d" "inflight_ok d infl" "confirming_ok d conf"
    and "\<And>i. ev = EvConfirmed i \<Longrightarrow> i \<in> set conf"
    and "\<And>row reason. ev = EvCompensate row reason \<Longrightarrow> (row, reason) \<in> set infl"
  shows "sagas_ok d'"
proof (cases ev)
  case (EvRepoCreate x1)
  then show ?thesis using assms(1,3) by (simp add: same_core_def sagas_ok_def pending_sub_def)
next
  case (EvFanout x1)
  then show ?thesis using assms(1,3) by (simp add: same_core_def sagas_ok_def pending_sub_def)
next
  case EvRelay
  then show ?thesis using assms(1,3) by (simp add: same_core_def sagas_ok_def pending_sub_def)
next
  case (EvSubscribe sagaID sub)
  then show ?thesis using assms(1-3) by (auto simp: sagas_ok_created)
next
  case (EvEmailSent sagaID)
  then show ?thesis
    using assms(1,3) by (auto simp: set_saga_state_upd intro: sagas_ok_upd)
next
  case (EvEmailFailed sagaID reason)
  then show ?thesis
    using assms(1,3) by (auto simp: set_saga_state_upd intro: sagas_ok_upd)
next
  case EvReap
  then show ?thesis
    using assms(1,3) by (auto simp: compensating_upd intro: sagas_ok_upd)
next
  case (EvCompensate row reason)
  then show ?thesis
    using assms(1,3,7) sagas_ok_compensated [OF assms(2-4)] by auto
next
  case (EvConfirm token)
  then show ?thesis using assms(1,3) by (auto simp: sagas_ok_confirm)
next
  case (EvConfirmed i)
  then have np: "\<not> pending_sub d i" using assms(5,6) by (simp add: confirming_ok_def)
  have "sagas_ok (set_saga_state (sg_ID row) StateCompleted None d)" if "saga_by_sub d i = Some row" for row
    unfolding set_saga_state_upd
  proof (rule sagas_ok_upd [OF assms(3)])
    fix r assume "r \<in> set (subscribe_sagas d)" "sg_ID r = sg_ID row"
    then have "r = row" using saga_ID_unique [OF assms(2)] saga_by_subD [OF that] by blast
    then show "\<not> pending_sub d (sg_SubscriptionID r)" using np saga_by_subD [OF that] by simp
  qed simp
  then show ?thesis using assms(1,3) EvConfirmed by auto
next
  case (EvUnsubscribe token)
  then show ?thesis using assms(1,3) by (auto simp: sagas_ok_delete)
next
  case (EvCleanupDelete rid)
  then show ?thesis using assms(1,3) by (auto simp: sagas_ok_delete_repository)
qed (use assms(1,3) in auto)

lemma pending_compensated: "pending_sub (compensated row reason d) i \<Longrightarrow> pending_sub d i"
  by (auto simp: compensated_cases dest: pending_delete split: if_splits)

lemma created_seq [simp]:
  "subscriptions_seq (created sagaID sub p now dl d) = subscriptions_seq d + 1"
  by (simp add: created_def)

lemma compensated_seq [simp]: "subscriptions_seq (compensated row reason d) = subscriptions_seq d"
  by (simp add: compensated_cases)

lemma same_core_pending: "same_core d d' \<Longrightarrow> pending_sub d' i = pending_sub d i"
  by (simp add: same_core_def pending_sub_def)

lemma effect_seq: "effect ev d d' \<Longrightarrow> subscriptions_seq d \<le> subscriptions_seq d'"
  by (cases ev) (auto simp: same_core_def set_saga_state_upd compensating_upd)

lemma effect_pending:
  "effect ev d d' \<Longrightarrow> pending_sub d' i \<Longrightarrow> pending_sub d i \<or> i \<ge> subscriptions_seq d"
  by (cases ev) (auto simp: same_core_pending set_saga_state_upd compensating_upd pending_created
      dest: pending_compensated pending_delete pending_confirm pending_delete_repository)

lemma effect_inflight_same:
  assumes "effect ev d d'" "inflight_ok d infl" "sub_wf d"
    and "\<And>sagaID reason. ev \<noteq> EvEmailFailed sagaID reason" "ev \<noteq> EvReap"
    and "\<And>row reason. ev \<noteq> EvCompensate row reason"
  shows "inflight_ok d' infl"
proof (cases ev)
  case (EvSubscribe sagaID sub)
  have "inflight_ok (created sagaID sub p now dl d) infl" for p now dl
    using assms(2) unfolding inflight_ok_def by (simp add: created_def)
  then show ?thesis using assms(1,2) EvSubscribe by auto
next
  case (EvEmailSent sagaID)
  have "inflight_ok (set_saga_state (sg_ID row) StateAwaitingConfirmation None d) infl"
    if row: "saga_by_id d sagaID = Some row" "sg_State row = StateStarted" for row
    unfolding set_saga_state_upd
  proof (rule inflight_ok_upd [OF assms(2)])
    fix r p assume r: "r \<in> set (subscribe_sagas d)" "sg_ID r = sg_ID row" "p \<in> set infl" "sg_ID r = sg_ID (fst p)"
    then have "r = row" using saga_ID_unique [OF assms(3)] saga_by_idD [OF row(1)] by blast
    then show "StateAwaitingConfirmation \<in> {StateCompensating, StateCompleted}"
      using inflight_row(2) [OF assms(3,2), of "fst p" "snd p" r] r row(2) by simp
  qed
  then show ?thesis using assms(1,2) EvEmailSent by auto
next
  case (EvConfirmed i)
  then show ?thesis
    using assms(1,2) by (auto simp: set_saga_state_upd intro: inflight_ok_upd)
qed (use assms in \<open>auto simp: same_core_def intro: inflight_ok_same\<close>)

lemma sys_inv_init: "sys_inv init_sys"
  by (simp add: sys_inv_def init_sys_def sagas_ok_def inflight_ok_def confirming_ok_def empty_sub_db_def
      sub_wf_empty [unfolded empty_sub_db_def])

lemma step_inflight_ok:
  assumes "sys_step s ev s'" "sys_inv s"
  shows "inflight_ok (sdb s') (inflight s')"
proof -
  have inv: "sub_wf (sdb s)" "inflight_ok (sdb s) (inflight s)"
    using assms(2) by (simp_all add: sys_inv_def)
  note eff = step_effect [OF assms(1)] and hands = step_hands [OF assms(1)]
  show ?thesis
  proof (cases ev)
    case (EvEmailFailed sagaID reason)
    have one: "inflight_ok (set_saga_state (sg_ID row) StateCompensating (Some reason) (sdb s))
        (inflight s @ [(row, reason)])"
      if "saga_by_id (sdb s) sagaID = Some row" "sg_State row \<in> {StateStarted, StateAwaitingConfirmation}" for row
      using inflight_add [OF inv, of "[row]" "Some reason" reason] that saga_by_idD [OF that(1)]
      by (simp add: set_saga_state_upd)
    have "inflight_ok (sdb s') (inflight s)"
      using eff inv(2) EvEmailFailed by (auto simp: set_saga_state_upd intro: inflight_ok_upd)
    then show ?thesis using hands one EvEmailFailed by auto
  next
    case EvReap
    have batch: "inflight_ok (compensating (expired_batch lk now (sdb s)) (sdb s))
        (inflight s @ map (\<lambda>row. (row, reason)) (expired_batch lk now (sdb s)))" for lk now reason
      unfolding compensating_upd
      by (rule inflight_add [OF inv])
        (use in_expired_batch expired_state in blast,
         simp add: expired_batch_def distinct_take_filter sub_wfD [OF inv(1)])
    have "inflight_ok (sdb s') (inflight s)"
      using eff inv(2) EvReap by (auto simp: compensating_upd intro: inflight_ok_upd)
    then show ?thesis using hands batch EvReap by auto
  next
    case (EvCompensate row reason)
    then show ?thesis
      using eff hands inv inflight_ok_compensated [OF inv] inflight_ok_subset [OF inv(2)] by auto
  next
    case EvCrash
    then show ?thesis using hands by (simp add: inflight_ok_def)
  qed (use hands effect_inflight_same [OF eff inv(2,1)] in auto)
qed

lemma step_confirming_ok:
  assumes "sys_step s ev s'" "sys_inv s"
  shows "confirming_ok (sdb s') (confirming s')"
proof -
  have wf: "sub_wf (sdb s)" and old: "confirming_ok (sdb s) (confirming s)"
    using assms(2) by (simp_all add: sys_inv_def)
  have "i < subscriptions_seq (sdb s') \<and> \<not> pending_sub (sdb s') i" if i: "i \<in> set (confirming s')" for i
    using step_confirming [OF assms(1) i]
  proof
    assume "i \<in> set (confirming s)"
    then show ?thesis
      using old effect_pending [OF step_effect [OF assms(1)]] effect_seq [OF step_effect [OF assms(1)]]
      unfolding confirming_ok_def by force
  next
    assume "\<exists>token now. ev = EvConfirm token \<and>
      sdb s' = confirm_where (\<lambda>x. sb_ConfirmToken x = token) now (sdb s) \<and>
      (\<exists>x \<in> set (subscriptions (sdb s)). sb_ConfirmToken x = token \<and> sb_ID x = i)"
    then obtain token now x where
      "sdb s' = confirm_where (\<lambda>x. sb_ConfirmToken x = token) now (sdb s)"
      "x \<in> set (subscriptions (sdb s))" "sb_ConfirmToken x = token" "sb_ID x = i" by blast
    then show ?thesis
      using confirm_not_pending [OF wf] wf by (auto simp: sub_wf_def)
  qed
  then show ?thesis by (simp add: confirming_ok_def)
qed

lemma sys_inv_step:
  assumes "sys_step s ev s'" "sys_inv s"
  shows "sys_inv s'"
proof -
  have "sub_wf (sdb s)" "sagas_ok (sdb s)" "inflight_ok (sdb s) (inflight s)"
    "confirming_ok (sdb s) (confirming s)"
    using assms(2) by (simp_all add: sys_inv_def)
  then have "sagas_ok (sdb s')"
    using effect_sagas_ok [OF step_effect [OF assms(1)]] step_needs [OF assms(1)] by blast
  then show ?thesis
    using assms step_wf step_inflight_ok step_confirming_ok by (auto simp: sys_inv_def)
qed

lemma reachable_inv: "reachable s \<Longrightarrow> sys_inv s"
  by (induction rule: reachable.induct) (auto intro: sys_inv_init sys_inv_step)

section \<open>How a saga moves\<close>

text \<open>
  The state machine the documentation draws (\<^verbatim>\<open>docs/SDD.md\<close>, section 6) with the cause it
  gives for each edge: \<open>d\<close> is the database before the step, \<open>r\<close> the saga, \<open>b\<close> its next state.
\<close>

definition documented_edge :: "sys_event \<Rightarrow> sub_db \<Rightarrow> SagaRow \<Rightarrow> SagaState \<Rightarrow> bool" where
  "documented_edge ev d r b \<longleftrightarrow>
     (let email_failed = \<exists>reason. ev = EvEmailFailed (sg_SagaID r) reason;
          compensated = \<exists>row reason. ev = EvCompensate row reason \<and> sg_ID row = sg_ID r;
          confirmed = (ev = EvConfirmed (sg_SubscriptionID r));
          pending = pending_sub d (sg_SubscriptionID r) in
      case sg_State r of
        StateStarted \<Rightarrow> b = StateAwaitingConfirmation \<and> ev = EvEmailSent (sg_SagaID r) \<or>
          b = StateCompensating \<and> email_failed
      | StateAwaitingConfirmation \<Rightarrow> b = StateCompleted \<and> confirmed \<and> \<not> pending \<or>
          b = StateCompensating \<and> (email_failed \<or> ev = EvReap)
      | StateCompensating \<Rightarrow> b = StateFailed \<and> compensated \<and> pending \<or>
          b = StateCompleted \<and> (compensated \<or> confirmed) \<and> \<not> pending
      | _ \<Rightarrow> False)"

text \<open>The two edges of the code that the drawing lacks: a confirmation or the reaper may reach a
  saga before the news that its e-mail was sent.\<close>

definition undocumented_edge :: "sys_event \<Rightarrow> sub_db \<Rightarrow> SagaRow \<Rightarrow> SagaState \<Rightarrow> bool" where
  "undocumented_edge ev d r b \<longleftrightarrow> sg_State r = StateStarted \<and>
     (b = StateCompleted \<and> ev = EvConfirmed (sg_SubscriptionID r) \<and> \<not> pending_sub d (sg_SubscriptionID r) \<or>
      b = StateCompensating \<and> ev = EvReap)"

definition saga_move :: "sys_event \<Rightarrow> sub_db \<Rightarrow> SagaRow \<Rightarrow> SagaState \<Rightarrow> bool" where
  "saga_move ev d r b \<longleftrightarrow> b = sg_State r \<or> documented_edge ev d r b \<or> undocumented_edge ev d r b"

lemma saga_move_le: "saga_move ev d r b \<Longrightarrow> sg_State r \<le> b"
  by (cases "sg_State r") (auto simp: saga_move_def documented_edge_def undocumented_edge_def Let_def)

lemma saga_move_compensating:
  "saga_move ev d r b \<Longrightarrow> sg_State r = StateCompensating \<Longrightarrow> b \<in> {StateCompensating, StateFailed, StateCompleted}"
  by (auto simp: saga_move_def documented_edge_def undocumented_edge_def Let_def)

definition same_saga :: "SagaRow \<Rightarrow> SagaRow \<Rightarrow> bool" where
  "same_saga r r' \<longleftrightarrow> sg_ID r' = sg_ID r \<and> sg_SagaID r' = sg_SagaID r \<and>
     sg_SubscriptionID r' = sg_SubscriptionID r \<and> sg_RepositoryID r' = sg_RepositoryID r \<and>
     sg_Email r' = sg_Email r \<and> sg_DeadlineAt r' = sg_DeadlineAt r"

lemma same_saga_refl [simp]: "same_saga r r"
  by (simp add: same_saga_def)

lemma saga_move_refl [simp]: "saga_move ev d r (sg_State r)"
  by (simp add: saga_move_def)

definition sagas_move :: "sys_event \<Rightarrow> sub_db \<Rightarrow> sub_db \<Rightarrow> bool" where
  "sagas_move ev d d' \<longleftrightarrow> (\<forall>r \<in> set (subscribe_sagas d). \<exists>r' \<in> set (subscribe_sagas d').
     same_saga r r' \<and> saga_move ev d r (sg_State r'))"

lemma sagas_move_same: "subscribe_sagas d' = subscribe_sagas d \<Longrightarrow> sagas_move ev d d'"
  unfolding sagas_move_def by (auto intro!: bexI)

lemma sagas_move_refl [simp]: "sagas_move ev d d"
  by (rule sagas_move_same) simp

lemma sagas_move_upd:
  assumes "\<And>r. r \<in> set (subscribe_sagas d) \<Longrightarrow> P r \<Longrightarrow> saga_move ev d r st"
    and "subscribe_sagas d' = subscribe_sagas d"
  shows "sagas_move ev d (saga_upd P st le d')"
proof -
  have "\<exists>r' \<in> set (subscribe_sagas d). same_saga r (if P r' then r'\<lparr>sg_State := st, sg_LastError := le\<rparr> else r') \<and>
     saga_move ev d r (sg_State (if P r' then r'\<lparr>sg_State := st, sg_LastError := le\<rparr> else r'))"
    if "r \<in> set (subscribe_sagas d)" for r
    using that assms(1) [OF that] by (intro bexI [of _ r]) (auto simp: same_saga_def)
  then show ?thesis
    using assms(2) by (auto simp: sagas_move_def)
qed

lemma step_moves:
  assumes "sys_step s ev s'" "sys_inv s"
  shows "sagas_move ev (sdb s) (sdb s')"
proof -
  have inv: "sub_wf (sdb s)" "sagas_ok (sdb s)" "inflight_ok (sdb s) (inflight s)" "confirming_ok (sdb s) (confirming s)"
    using assms(2) by (simp_all add: sys_inv_def)
  note eff = step_effect [OF assms(1)]
  note edge_defs = saga_move_def documented_edge_def undocumented_edge_def Let_def
  have one: "sagas_move ev (sdb s) (set_saga_state (sg_ID row) st le (sdb s))"
    if "row \<in> set (subscribe_sagas (sdb s))" "saga_move ev (sdb s) row st" for row st le
    unfolding set_saga_state_upd
  proof (rule sagas_move_upd)
    fix r assume "r \<in> set (subscribe_sagas (sdb s))" "sg_ID r = sg_ID row"
    then have "r = row" using saga_ID_unique [OF inv(1) _ that(1)] by blast
    then show "saga_move ev (sdb s) r st" using that(2) by simp
  qed simp
  show ?thesis
  proof (cases ev)
    case (EvEmailSent sagaID)
    have "sagas_move ev (sdb s) (set_saga_state (sg_ID row) StateAwaitingConfirmation None (sdb s))"
      if "saga_by_id (sdb s) sagaID = Some row" "sg_State row = StateStarted" for row
      using that(2) saga_by_idD [OF that(1)] EvEmailSent by (intro one) (simp_all add: edge_defs)
    then show ?thesis using eff EvEmailSent by auto
  next
    case (EvEmailFailed sagaID reason)
    have "sagas_move ev (sdb s) (set_saga_state (sg_ID row) StateCompensating (Some reason) (sdb s))"
      if "saga_by_id (sdb s) sagaID = Some row" "sg_State row \<in> {StateStarted, StateAwaitingConfirmation}" for row
      using that(2) saga_by_idD [OF that(1)] EvEmailFailed by (intro one) (auto simp: edge_defs)
    then show ?thesis using eff EvEmailFailed by auto
  next
    case EvReap
    have "sagas_move ev (sdb s) (compensating (expired_batch lk now (sdb s)) (sdb s))" for lk now
      unfolding compensating_upd
    proof (rule sagas_move_upd)
      fix r assume r: "r \<in> set (subscribe_sagas (sdb s))" "sg_ID r \<in> sg_ID ` set (expired_batch lk now (sdb s))"
      then obtain r' where r': "r' \<in> set (expired_batch lk now (sdb s))" "sg_ID r = sg_ID r'" by auto
      then have "r = r'" using r(1) saga_ID_unique [OF inv(1)] in_expired_batch by blast
      then show "saga_move ev (sdb s) r StateCompensating"
        using expired_state [of now r] in_expired_batch [OF r'(1)] EvReap by (auto simp: edge_defs)
    qed simp
    then show ?thesis using eff EvReap by auto
  next
    case (EvCompensate row reason)
    have hand: "(row, reason) \<in> set (inflight s)" using step_needs(2) [OF assms(1) EvCompensate] .
    have st: "sg_SubscriptionID r = sg_SubscriptionID row \<and> (sg_State r = StateCompensating \<or>
        (sg_State r = StateCompleted \<and> \<not> pending_sub (sdb s) (sg_SubscriptionID row)))"
      if r: "r \<in> set (subscribe_sagas (sdb s))" "sg_ID r = sg_ID row" for r
      using inflight_row [OF inv(1,3) hand r] inv(2) r(1) unfolding sagas_ok_def by fastforce
    have "sagas_move ev (sdb s) (compensated row reason (sdb s))"
    proof (cases "pending_sub (sdb s) (sg_SubscriptionID row)")
      case True
      have "saga_move ev (sdb s) r StateFailed" if "r \<in> set (subscribe_sagas (sdb s))" "sg_ID r = sg_ID row" for r
        using st [OF that] that(2) True EvCompensate by (auto simp: edge_defs)
      then show ?thesis using True by (simp add: compensated_cases sagas_move_upd)
    next
      case False
      have "saga_move ev (sdb s) r StateCompleted" if "r \<in> set (subscribe_sagas (sdb s))" "sg_ID r = sg_ID row" for r
        using st [OF that] that(2) False EvCompensate by (auto simp: edge_defs)
      then show ?thesis using False by (simp add: compensated_cases sagas_move_upd)
    qed
    then show ?thesis using eff EvCompensate by auto
  next
    case (EvConfirmed i)
    have np: "\<not> pending_sub (sdb s) i"
      using step_needs(1) [OF assms(1) EvConfirmed] inv(4) by (simp add: confirming_ok_def)
    have "saga_move ev (sdb s) row StateCompleted"
      if "saga_by_sub (sdb s) i = Some row" "sg_State row \<notin> {StateCompleted, StateFailed}" for row
      using that(2) saga_by_subD [OF that(1)] np EvConfirmed by (cases "sg_State row") (auto simp: edge_defs)
    then have "sagas_move ev (sdb s) (set_saga_state (sg_ID row) StateCompleted None (sdb s))"
      if "saga_by_sub (sdb s) i = Some row" "sg_State row \<notin> {StateCompleted, StateFailed}" for row
      using that saga_by_subD [OF that(1)] by (intro one) simp_all
    then show ?thesis using eff EvConfirmed by auto
  next
    case (EvSubscribe sagaID sub)
    then show ?thesis
      using eff by (auto simp: sagas_move_def created_def intro!: bexI)
  qed (use eff in \<open>auto simp: same_core_def intro!: sagas_move_same\<close>)
qed

section \<open>Runs\<close>

inductive sys_run :: "sys \<Rightarrow> sys_event list \<Rightarrow> sys \<Rightarrow> bool" where
  run_nil: "sys_run s [] s"
| run_cons: "sys_step s ev s1 \<Longrightarrow> sys_run s1 evs s' \<Longrightarrow> sys_run s (ev # evs) s'"

lemma sys_run_inv: "sys_run s evs s' \<Longrightarrow> sys_inv s \<Longrightarrow> sys_inv s'"
  by (induction rule: sys_run.induct) (auto intro: sys_inv_step)

lemma run_state_mono:
  assumes "sys_run s evs s'" "sys_inv s" "r \<in> set (subscribe_sagas (sdb s))"
  shows "\<exists>r' \<in> set (subscribe_sagas (sdb s')). same_saga r r' \<and> sg_State r \<le> sg_State r'"
  using assms
proof (induction arbitrary: r rule: sys_run.induct)
  case (run_nil s)
  then show ?case by (auto intro: bexI [of _ r])
next
  case (run_cons s ev s1 evs s')
  obtain r1 where r1: "r1 \<in> set (subscribe_sagas (sdb s1))" "same_saga r r1" "sg_State r \<le> sg_State r1"
    using step_moves [OF run_cons.hyps(1) run_cons.prems(1)] run_cons.prems(2) saga_move_le
    unfolding sagas_move_def by blast
  obtain r' where "r' \<in> set (subscribe_sagas (sdb s'))" "same_saga r1 r'" "sg_State r1 \<le> sg_State r'"
    using run_cons.IH [OF sys_inv_step [OF run_cons.hyps(1) run_cons.prems(1)] r1(1)] by blast
  then show ?case
    using r1 order_trans by (fastforce simp: same_saga_def)
qed

section \<open>Confirmed subscriptions\<close>

definition same_sub :: "Subscription \<Rightarrow> Subscription \<Rightarrow> bool" where
  "same_sub x y \<longleftrightarrow> sb_ID y = sb_ID x \<and> sb_Email y = sb_Email x \<and> sb_RepositoryID y = sb_RepositoryID x \<and>
     sb_ConfirmToken y = sb_ConfirmToken x \<and> sb_UnsubscribeToken y = sb_UnsubscribeToken x"

lemma step_keeps_confirmed:
  assumes "sys_step s ev s'" "x \<in> set (subscriptions (sdb s))" "sb_Confirmed x"
    and "ev \<noteq> EvUnsubscribe (sb_UnsubscribeToken x)" "ev \<noteq> EvCleanupDelete (sb_RepositoryID x)"
  shows "\<exists>y \<in> set (subscriptions (sdb s')). same_sub x y \<and> sb_Confirmed y"
proof -
  note eff = step_effect [OF assms(1)]
  have same: ?thesis if "x \<in> set (subscriptions (sdb s'))"
    using that assms(3) by (auto simp: same_sub_def)
  show ?thesis
  proof (cases ev)
    case (EvConfirm token)
    have "\<exists>y \<in> set (subscriptions (confirm_where P now (sdb s))). same_sub x y \<and> sb_Confirmed y" for P now
      using assms(2,3) by (auto simp: confirm_where_def same_sub_def intro!: bexI [of _ x])
    then show ?thesis using eff EvConfirm same assms(2) by auto
  next
    case (EvCompensate row reason)
    then show ?thesis
      using eff same assms(2,3) by (auto simp: compensated_cases delete_subscriptions_def split: if_splits)
  qed (use eff same assms(2-) in \<open>auto simp: same_core_def created_def set_saga_state_upd compensating_upd
      delete_subscriptions_def delete_repository_def split: if_splits\<close>)
qed

section \<open>A saga nobody works on\<close>

text \<open>
  The saga with id \<open>i\<close> is \<^verbatim>\<open>COMPENSATING\<close>, its subscription \<open>x\<close> is still pending, and no
  handler has the compensation in hand: the state a crash or a failed compensation leaves.
\<close>

definition stuck :: "int \<Rightarrow> Subscription \<Rightarrow> sys \<Rightarrow> bool" where
  "stuck i x s \<longleftrightarrow>
     (\<exists>r \<in> set (subscribe_sagas (sdb s)). sg_ID r = i \<and> sg_State r = StateCompensating \<and>
        sg_SubscriptionID r = sb_ID x) \<and>
     x \<in> set (subscriptions (sdb s)) \<and> \<not> sb_Confirmed x \<and> i \<notin> (sg_ID \<circ> fst) ` set (inflight s)"

text \<open>The user confirms or unsubscribes, or the repository is deleted.\<close>

definition releases :: "sys_event \<Rightarrow> Subscription \<Rightarrow> bool" where
  "releases ev x \<longleftrightarrow> ev = EvConfirm (sb_ConfirmToken x) \<or> ev = EvUnsubscribe (sb_UnsubscribeToken x) \<or>
     ev = EvCleanupDelete (sb_RepositoryID x)"

lemma step_keeps_pending:
  assumes "sys_step s ev s'" "x \<in> set (subscriptions (sdb s))" "\<not> releases ev x"
    and "\<And>row reason. ev = EvCompensate row reason \<Longrightarrow> sg_SubscriptionID row \<noteq> sb_ID x"
  shows "x \<in> set (subscriptions (sdb s'))"
proof -
  note eff = step_effect [OF assms(1)]
  show ?thesis
  proof (cases ev)
    case (EvConfirm token)
    then show ?thesis
      using eff assms(2,3) by (auto simp: releases_def confirm_where_def in_set_update_where intro!: bexI [of _ x])
  next
    case (EvCompensate row reason)
    then show ?thesis
      using eff assms(2,4) by (auto simp: compensated_cases delete_subscriptions_def split: if_splits)
  qed (use eff assms(2,3) in \<open>auto simp: releases_def same_core_def created_def set_saga_state_upd
      compensating_upd delete_subscriptions_def delete_repository_def split: if_splits\<close>)
qed

lemma pending_subI: "x \<in> set (subscriptions d) \<Longrightarrow> \<not> sb_Confirmed x \<Longrightarrow> pending_sub d (sb_ID x)"
  by (auto simp: pending_sub_def)

lemma stuck_inflight:
  assumes "sys_step s ev s'" "sys_inv s" "stuck i x s"
  shows "i \<notin> (sg_ID \<circ> fst) ` set (inflight s')"
proof -
  have wf: "sub_wf (sdb s)" using assms(2) by (simp add: sys_inv_def)
  obtain r where r: "r \<in> set (subscribe_sagas (sdb s))" "sg_ID r = i" "sg_State r = StateCompensating"
    and out: "i \<notin> (sg_ID \<circ> fst) ` set (inflight s)"
    using assms(3) by (auto simp: stuck_def)
  have fresh: "sg_ID row \<noteq> i"
    if "row \<in> set (subscribe_sagas (sdb s))" "sg_State row \<in> {StateStarted, StateAwaitingConfirmation}" for row
  proof
    assume "sg_ID row = i"
    then have "r = row" using saga_ID_unique [OF wf r(1) that(1)] r(2) by simp
    then show False using that(2) r(3) by simp
  qed
  have add: "i \<notin> (sg_ID \<circ> fst) ` set (inflight s @ map (\<lambda>row. (row, reason)) rows)"
    if "\<And>row. row \<in> set rows \<Longrightarrow> sg_ID row \<noteq> i" for rows reason
    using out that by (auto simp: image_Un image_image)
  note hands = step_hands [OF assms(1)]
  show ?thesis
  proof (cases ev)
    case (EvEmailFailed sagaID reason)
    with hands consider "inflight s' = inflight s"
      | row where "saga_by_id (sdb s) sagaID = Some row"
          "sg_State row \<in> {StateStarted, StateAwaitingConfirmation}"
          "inflight s' = inflight s @ map (\<lambda>row. (row, reason)) [row]"
      by auto
    then show ?thesis
    proof cases
      case 2
      then have "sg_ID row \<noteq> i" using fresh saga_by_idD by blast
      then show ?thesis unfolding 2(3) by (intro add) simp
    qed (use out in simp)
  next
    case EvReap
    have "sg_ID row \<noteq> i" if "row \<in> set (expired_batch lk now (sdb s))" for row lk now
      using fresh in_expired_batch [OF that] expired_state by blast
    then have "i \<notin> (sg_ID \<circ> fst) ` set (inflight s @
        map (\<lambda>row. (row, ''confirmation deadline exceeded'')) (expired_batch lk now (sdb s)))" for lk now
      by (rule add)
    moreover obtain lk now where "inflight s' = inflight s \<or> inflight s' = inflight s @
        map (\<lambda>row. (row, ''confirmation deadline exceeded'')) (expired_batch lk now (sdb s))"
      using hands EvReap by auto
    ultimately show ?thesis using out by metis
  next
    case (EvCompensate row reason)
    then have "inflight s' = remove1 (row, reason) (inflight s)" using hands by simp
    then have "set (inflight s') \<subseteq> set (inflight s)" by (simp add: set_remove1_subset)
    then show ?thesis using out by blast
  qed (use hands out in auto)
qed

lemma stuck_step:
  assumes "sys_step s ev s'" "sys_inv s" "stuck i x s" "\<not> releases ev x"
  shows "stuck i x s'"
proof -
  have inv: "sub_wf (sdb s)" "sagas_ok (sdb s)" "inflight_ok (sdb s) (inflight s)"
    using assms(2) by (simp_all add: sys_inv_def)
  obtain r where r: "r \<in> set (subscribe_sagas (sdb s))" "sg_ID r = i" "sg_State r = StateCompensating"
      "sg_SubscriptionID r = sb_ID x"
    and x: "x \<in> set (subscriptions (sdb s))" "\<not> sb_Confirmed x"
    using assms(3) by (auto simp: stuck_def)
  have x': "x \<in> set (subscriptions (sdb s'))"
  proof (rule step_keeps_pending [OF assms(1) x(1) assms(4)])
    fix row reason assume ev: "ev = EvCompensate row reason"
    then have hand: "(row, reason) \<in> set (inflight s)" using step_needs(2) [OF assms(1)] by blast
    then obtain r' where r': "r' \<in> set (subscribe_sagas (sdb s))" "sg_ID r' = sg_ID row"
      "sg_SubscriptionID r' = sg_SubscriptionID row"
      using inv(3) unfolding inflight_ok_def by force
    have "i \<noteq> sg_ID row" using hand assms(3) by (force simp: stuck_def)
    then show "sg_SubscriptionID row \<noteq> sb_ID x"
      using saga_sub_unique [OF inv(2) r(1) r'(1)] r r' by auto
  qed
  have inv': "sagas_ok (sdb s')" using sys_inv_step [OF assms(1,2)] by (simp add: sys_inv_def)
  obtain r1 where r1: "r1 \<in> set (subscribe_sagas (sdb s'))" "same_saga r r1"
    "saga_move ev (sdb s) r (sg_State r1)"
    using step_moves [OF assms(1,2)] r(1) unfolding sagas_move_def by blast
  have "sg_State r1 \<noteq> StateCompleted" "sg_State r1 \<noteq> StateFailed"
    using inv' r1(1,2) r(4) x' x(2) pending_subI [OF x' x(2)] unfolding sagas_ok_def same_saga_def by force+
  then have "sg_State r1 = StateCompensating"
    using saga_move_compensating [OF r1(3) r(3)] by simp
  then show ?thesis
    using r1 r x' x(2) stuck_inflight [OF assms(1-3)] by (auto simp: stuck_def same_saga_def)
qed

lemma stuck_run:
  assumes "sys_run s evs s'" "sys_inv s" "stuck i x s" "\<forall>ev \<in> set evs. \<not> releases ev x"
  shows "stuck i x s'"
  using assms by (induction rule: sys_run.induct) (auto intro: stuck_step sys_inv_step)

lemma sys_run_reachable: "sys_run s evs s' \<Longrightarrow> reachable s \<Longrightarrow> reachable s'"
  by (induction rule: sys_run.induct) (auto intro: reach_step)

lemma pending_has_saga:
  assumes "sagas_ok d" "x \<in> set (subscriptions d)" "\<not> sb_Confirmed x"
  shows "\<exists>r \<in> set (subscribe_sagas d). sg_SubscriptionID r = sb_ID x \<and>
    sg_State r \<in> {StateStarted, StateAwaitingConfirmation, StateCompensating}"
proof -
  obtain r where r: "r \<in> set (subscribe_sagas d)" "sg_SubscriptionID r = sb_ID x"
    using assms unfolding sagas_ok_def by blast
  have "sg_State r \<noteq> StateFailed" "sg_State r \<noteq> StateCompleted"
    using assms(1,2) r pending_subI [OF assms(2,3)] unfolding sagas_ok_def by force+
  then show ?thesis using r by (cases "sg_State r") auto
qed

lemma terminal_max: "a \<in> {StateCompleted, StateFailed} \<Longrightarrow> a \<le> b \<Longrightarrow> b = a" for a b :: SagaState
  by (cases a; cases b) (simp_all add: less_eq_SagaState_def)

lemma sys_run_append: "sys_run s evs s1 \<Longrightarrow> sys_step s1 ev s' \<Longrightarrow> sys_run s (evs @ [ev]) s'"
  by (induction rule: sys_run.induct) (auto intro: sys_run.intros)

end
