(* ===== verification/SagaScenarios.thy ===== *)
theory SagaScenarios
  imports SagaInvariant
begin

text \<open>
  Concrete runs of the system: a subscription whose email fails and whose handler crashes between
  the two transactions of its compensation, and a catalog cleanup that meets a new subscriber
  between its check and its delete. They show that the states the properties speak of are
  reachable.
\<close>

definition world_of :: "sys \<Rightarrow> sub_db world" where
  "world_of s = calm_world (sdb s) 0 []"

lemma runs_world_of [simp]: "runs_at (world_of s) s"
  by (simp add: runs_at_def world_of_def)

lemma calm_world_of [simp]: "calm (world_of s)" "committed (world_of s) = sdb s"
  "pg_clock (world_of s) = 0" "go_clock (world_of s) = 0" "drift (world_of s) = []"
  by (simp_all add: world_of_def)

section \<open>The subscriptions\<close>

definition sub_a :: Subscription where
  "sub_a = \<lparr>sb_ID = 0, sb_Email = ''a@x.y'', sb_RepositoryID = 1, sb_Confirmed = False,
            sb_ConfirmToken = ''ca'', sb_UnsubscribeToken = ''ua'', sb_CreatedAt = 0, sb_ConfirmedAt = None\<rparr>"

definition sub_b :: Subscription where
  "sub_b = \<lparr>sb_ID = 0, sb_Email = ''b@x.y'', sb_RepositoryID = 1, sb_Confirmed = False,
            sb_ConfirmToken = ''cb'', sb_UnsubscribeToken = ''ub'', sb_CreatedAt = 0, sb_ConfirmedAt = None\<rparr>"

definition db_repo :: sub_db where
  "db_repo = empty_sub_db\<lparr>repositories := [\<lparr>rp_ID = 1, rp_FullName = ''o/r'', rp_LastSeenTag = '''',
     rp_CreatedAt = 0, rp_UpdatedAt = 0\<rparr>], repositories_seq := 2\<rparr>"

definition sys_of :: "sub_db \<Rightarrow> sys" where
  "sys_of d = init_sys\<lparr>sdb := d\<rparr>"

lemma sys_of_simps [simp]: "sdb (sys_of d) = d" "inflight (sys_of d) = []" "confirming (sys_of d) = []"
  "cleaning (sys_of d) = []" "deleting (sys_of d) = []" "(sys_of d)\<lparr>sdb := d'\<rparr> = sys_of d'"
  by (simp_all add: sys_of_def init_sys_def)

lemma repo_step: "sys_step init_sys (EvRepoCreate ''o/r'') (sys_of db_repo)"
proof -
  have "run_db (Repo_Create Pool ''o/r'') (world_of init_sys) = db_repo"
    by (rule run_db_wp)
      (simp add: world_of_def Repo_Create_def wp_simps createRepoQuery_def varchar255_short init_sys_def
        empty_sub_db_def db_repo_def Let_def)
  then show ?thesis
    using step_repo [of "world_of init_sys" init_sys "''o/r''"] by (simp add: sys_of_def)
qed

lemma reach_repo: "reachable (sys_of db_repo)"
  by (rule reach_step [OF reach_init repo_step])

lemma subscribe_step:
  assumes "creatable (sdb s) sagaID sub"
  shows "sys_step s (EvSubscribe sagaID sub) (s\<lparr>sdb := created sagaID sub (Json JNull) 0 0 (sdb s)\<rparr>)"
proof -
  have "run_db (createAndEnqueue 0 sagaID sub (Json JNull)) (world_of s) = created sagaID sub (Json JNull) 0 0 (sdb s)"
    using calm_create_ok [of "world_of s" sagaID sub 0 "Json JNull"] assms
    by (simp add: wp_run run_db_world next_drift_def)
  then show ?thesis
    using step_subscribe [of "world_of s" s sagaID sub 0 "Json JNull"] by simp
qed

definition db_a :: sub_db where
  "db_a = created ''sa'' sub_a (Json JNull) 0 0 db_repo"

lemma reach_a: "reachable (sys_of db_a)"
proof -
  have "creatable db_repo ''sa'' sub_a"
    by (simp add: creatable_def db_repo_def empty_sub_db_def sub_a_def varchar255_short token_clash_def
        pair_taken_def)
  then show ?thesis
    using reach_step [OF reach_repo subscribe_step [of "sys_of db_repo" "''sa''" sub_a]]
    by (simp add: db_a_def)
qed

section \<open>A compensation nobody finishes\<close>

definition row_a :: SagaRow where
  "row_a = \<lparr>sg_ID = 1, sg_SagaID = ''sa'', sg_SubscriptionID = 1, sg_RepositoryID = 1, sg_Email = ''a@x.y'',
            sg_State = StateStarted, sg_DeadlineAt = 0, sg_LastError = None\<rparr>"

definition pending_a :: Subscription where
  "pending_a = \<lparr>sb_ID = 1, sb_Email = ''a@x.y'', sb_RepositoryID = 1, sb_Confirmed = False,
     sb_ConfirmToken = ''ca'', sb_UnsubscribeToken = ''ua'', sb_CreatedAt = 0, sb_ConfirmedAt = None\<rparr>"

lemma db_a_simps [simp]:
  "subscriptions db_a = [pending_a]" "subscribe_sagas db_a = [row_a]" "subscriptions_seq db_a = 2"
  "sagas_seq db_a = 2" "repositories db_a = repositories db_repo"
  by (simp_all add: db_a_def created_def db_repo_def empty_sub_db_def new_subscription_row_def sub_a_def
      pending_a_def row_a_def)

definition marked_a :: sys where
  "marked_a = sys_of (set_saga_state 1 StateCompensating (Some ''bounced'') db_a)"

lemma email_failed_a:
  "sys_step (sys_of db_a) (EvEmailFailed ''sa'' ''bounced'') (marked_a\<lparr>inflight := [(row_a, ''bounced'')]\<rparr>)"
proof -
  let ?w = "world_of (sys_of db_a)"
  have "wp (email_failed_tx ''sa'' ''bounced'') (\<lambda>r w'. r = Inr (Some row_a) \<and>
      committed w' = set_saga_state 1 StateCompensating (Some ''bounced'') db_a) ?w"
    by (simp add: world_of_def email_failed_tx_def FindBySagaIDForUpdate_def UpdateState_def wp_simps Let_def
        findBySagaIDForUpdateQuery_def updateSagaStateQuery_def row_a_def)
  then have "run_result (email_failed_tx ''sa'' ''bounced'') ?w = Inr (Some row_a)"
    "run_db (email_failed_tx ''sa'' ''bounced'') ?w = set_saga_state 1 StateCompensating (Some ''bounced'') db_a"
    by (simp_all add: wp_run run_db_world)
  then show ?thesis
    using step_failed [of ?w "sys_of db_a" "''sa''" "''bounced''"] by (simp add: marked_a_def)
qed

text \<open>The four calls of the first transaction go well, one of the next four, those of the second, fails.\<close>

lemma bounce_commits:
  assumes "txn w = None" "faults w = Fine # Fine # Fine # Fine # fs"
    and "saga_by_id (committed w) sagaID = Some row" "sg_State row \<in> {StateStarted, StateAwaitingConfirmation}"
  shows "wp (email_failed_tx sagaID reason) (\<lambda>r w'. r = Inr (Some row) \<and> txn w' = None \<and> faults w' = fs \<and>
    committed w' = set_saga_state (sg_ID row) StateCompensating (Some reason) (committed w)) w"
  using assms
  by (auto simp: email_failed_tx_def FindBySagaIDForUpdate_def UpdateState_def wp_simps Let_def
      findBySagaIDForUpdateQuery_def updateSagaStateQuery_def saga_by_id_def)

lemma compensation_tx_fails:
  assumes "txn w = None" "faults w = replicate k Fine @ Fail # fs" "k < 4"
  shows "wp (compensate_tx row reason) (\<lambda>r w'. (\<exists>e. r = Inl e) \<and> txn w' = None \<and> committed w' = committed w) w"
proof -
  have "k = 0 \<or> k = 1 \<or> k = 2 \<or> k = 3" using assms(3) by auto
  then show ?thesis
    using assms(1,2)
    by (elim disjE)
      (simp_all add: compensate_tx_def DeleteUnconfirmedSubscription_def UpdateState_def wp_simps
        Let_def deleteUnconfirmedSubscriptionQuery_def updateSagaStateQuery_def numeral_3_eq_3 numeral_2_eq_2)
qed

lemma compensation_fails:
  assumes "txn w = None" "faults w = replicate k Fine @ Fail # fs" "k < 4"
  shows "wp (compensate orc row reason) (\<lambda>r w'. (\<exists>e. r = Inl e) \<and> txn w' = None \<and> committed w' = committed w) w"
  using compensation_tx_fails [OF assms, of row reason]
  by (auto simp: compensate_def wp_bind wp_check elim!: wp_mono)

definition bounced :: "SagaRow \<Rightarrow> string \<Rightarrow> sys \<Rightarrow> sys" where
  "bounced g reason s = s\<lparr>sdb := set_saga_state (sg_ID g) StateCompensating (Some reason) (sdb s)\<rparr>"

lemma find_saga:
  assumes "reachable s" "g \<in> set (subscribe_sagas (sdb s))"
  shows "saga_by_id (sdb s) (sg_SagaID g) = Some g"
    "saga_by_id (sdb (bounced g reason s)) (sg_SagaID g) =
       Some (g\<lparr>sg_State := StateCompensating, sg_LastError := Some reason\<rparr>)"
proof -
  have "distinct (map sg_SagaID (subscribe_sagas (sdb s)))"
    using reachable_inv [OF assms(1)] sub_wfD(7) by (simp add: sys_inv_def)
  from find_key_unique [OF this assms(2)] find_update_where_same [OF this assms(2)]
  show "saga_by_id (sdb s) (sg_SagaID g) = Some g"
    "saga_by_id (sdb (bounced g reason s)) (sg_SagaID g) =
       Some (g\<lparr>sg_State := StateCompensating, sg_LastError := Some reason\<rparr>)"
    by (simp_all add: saga_by_id_def bounced_def set_saga_state_def)
qed

lemma wp_bounce:
  "wp (saga_Consume orc SubjectEmailFailed (Marshal_EmailFailed \<lparr>ef_SagaID = sagaID, ef_Reason = reason\<rparr>)) Q w =
     wp (email_failed_tx sagaID reason)
       (\<lambda>r. case r of
          Inl e \<Rightarrow> Q Nak
        | Inr None \<Rightarrow> Q Ack
        | Inr (Some row) \<Rightarrow> wp (compensate orc row reason) (\<lambda>r. Q (case r of Inl _ \<Rightarrow> Nak | Inr _ \<Rightarrow> Ack))) w"
proof -
  have ret: "wp (ret v) Q = Q v" for v :: verdict
    by (rule ext) (simp add: wp_return)
  show ?thesis
    by (simp add: saga_Consume_def saga_handle_def wp_bind wp_HandleEmailFailed ret
        cong del: sum.case_cong_weak option.case_cong_weak)
qed

lemma bounce_fails:
  assumes "reachable s" "g \<in> set (subscribe_sagas (sdb s))"
    and "sg_State g \<in> {StateStarted, StateAwaitingConfirmation}"
    and "runs_at w s" "faults w = replicate n Fine @ Fail # fs" "4 \<le> n" "n < 8"
  shows "wp (saga_Consume orc SubjectEmailFailed
      (Marshal_EmailFailed \<lparr>ef_SagaID = sg_SagaID g, ef_Reason = reason\<rparr>))
    (\<lambda>v w'. v = Nak \<and> committed w' = sdb (bounced g reason s)) w"
proof -
  obtain k where k: "n = 4 + k" "k < 4" using assms(6,7) le_Suc_ex by fastforce
  have fs: "faults w = Fine # Fine # Fine # Fine # replicate k Fine @ Fail # fs"
    using assms(5) k(1) by (simp add: numeral_eq_Suc)
  have "wp (compensate orc g reason) (\<lambda>r w'. (case r of Inl _ \<Rightarrow> Nak | Inr _ \<Rightarrow> Ack) = Nak \<and>
      committed w' = sdb (bounced g reason s)) w'"
    if "txn w' = None" "faults w' = replicate k Fine @ Fail # fs" "committed w' = sdb (bounced g reason s)" for w'
    by (rule wp_mono [OF compensation_fails [OF that(1,2) k(2)]]) (use that(3) in auto)
  then show ?thesis
    unfolding wp_bounce
    by (intro wp_mono [OF bounce_commits [OF runs_atD(2) [OF assms(4)] fs]])
      (use assms(3) find_saga(1) [OF assms(1,2)] runs_atD(1) [OF assms(4)] in \<open>auto simp: bounced_def\<close>)
qed

lemma bounced_reachable:
  assumes "reachable s" "g \<in> set (subscribe_sagas (sdb s))"
    and "sg_State g \<in> {StateStarted, StateAwaitingConfirmation}"
  shows "reachable (bounced g reason s)" "sg_ID g \<notin> (sg_ID \<circ> fst) ` set (inflight s)"
proof -
  have inv: "sub_wf (sdb s)" "inflight_ok (sdb s) (inflight s)"
    using reachable_inv [OF assms(1)] by (simp_all add: sys_inv_def)
  show free: "sg_ID g \<notin> (sg_ID \<circ> fst) ` set (inflight s)"
    using inflight_row(2) [OF inv _ assms(2)] assms(3) by fastforce
  let ?fs = "[Fine, Fine, Fine, Fine, Fail]" and ?s1 = "(bounced g reason s)\<lparr>inflight := inflight s @ [(g, reason)]\<rparr>"
  let ?w = "(world_of s)\<lparr>faults := ?fs\<rparr>" and ?w1 = "(world_of ?s1)\<lparr>faults := [Fail]\<rparr>"
  have "runs_at ?w s" "runs_at ?w1 ?s1" by (simp_all add: runs_at_def world_of_def)
  have "run_result (email_failed_tx (sg_SagaID g) reason) ?w = Inr (Some g)"
    "run_db (email_failed_tx (sg_SagaID g) reason) ?w = sdb (bounced g reason s)"
    using bounce_commits [of ?w "[Fail]" "sg_SagaID g" g reason] find_saga(1) [OF assms(1,2)] assms(3)
      runs_atD [OF \<open>runs_at ?w s\<close>] by (simp_all add: wp_run run_db_world bounced_def)
  then have "sys_step s (EvEmailFailed (sg_SagaID g) reason) ?s1"
    using step_failed [OF \<open>runs_at ?w s\<close> refl, of "sg_SagaID g" reason] by (simp add: bounced_def)
  then have r1: "reachable ?s1" by (rule reach_step [OF assms(1)])
  obtain e where "run_result (compensate_tx g reason) ?w1 = Inl e"
    "run_db (compensate_tx g reason) ?w1 = sdb (bounced g reason s)"
    using compensation_tx_fails [of ?w1 0 "[]" g reason] runs_atD [OF \<open>runs_at ?w1 ?s1\<close>]
    by (auto simp: wp_run run_db_world)
  then have "sys_step ?s1 (EvCompensate g reason) (?s1\<lparr>inflight := remove1 (g, reason) (inflight s @ [(g, reason)])\<rparr>)"
    using step_compensate [OF \<open>runs_at ?w1 ?s1\<close> _ refl, of g reason] by simp
  moreover have "remove1 (g, reason) (inflight s @ [(g, reason)]) = inflight s"
    using free by (force simp: remove1_append)
  then have "?s1\<lparr>inflight := remove1 (g, reason) (inflight s @ [(g, reason)])\<rparr> = bounced g reason s"
    by (cases s) (simp add: bounced_def)
  ultimately show "reachable (bounced g reason s)" using reach_step [OF r1] by metis
qed

lemma bounced_stuck:
  assumes "reachable s" "g \<in> set (subscribe_sagas (sdb s))"
    and "sg_State g \<in> {StateStarted, StateAwaitingConfirmation}"
    and "x \<in> set (subscriptions (sdb s))" "sb_ID x = sg_SubscriptionID g" "\<not> sb_Confirmed x"
  shows "stuck (sg_ID g) x (bounced g reason s)"
  using assms(2,4-6) bounced_reachable(2) [OF assms(1-3)]
  by (auto simp: stuck_def bounced_def set_saga_state_def in_set_update_where intro!: bexI [of _ g])

lemma bounce_redelivered:
  assumes "reachable s" "g \<in> set (subscribe_sagas (sdb s))" "runs_at w (bounced g reason s)"
  shows "wp (saga_Consume orc SubjectEmailFailed
      (Marshal_EmailFailed \<lparr>ef_SagaID = sg_SagaID g, ef_Reason = again\<rparr>))
    (\<lambda>v w'. committed w' = sdb (bounced g reason s) \<and> (calm w \<longrightarrow> v = Ack)) w"
proof -
  note found = find_saga(2) [OF assms(1,2), of reason] and at = runs_atD [OF assms(3)]
  have "wp (email_failed_tx (sg_SagaID g) again) (\<lambda>r w'. r = Inr None) w" if "calm w"
    using that found at
    by (auto simp: email_failed_tx_def FindBySagaIDForUpdate_def UpdateState_def wp_simps Let_def calm_def
        findBySagaIDForUpdateQuery_def saga_by_id_def)
  then have "wp (email_failed_tx (sg_SagaID g) again)
      (\<lambda>r w'. committed w' = sdb (bounced g reason s) \<and> (r = Inr None \<or> (\<exists>e. r = Inl e) \<and> \<not> calm w)) w"
    using wp_email_failed_tx [OF at(2), of "sg_SagaID g" again] found at(1)
    by (auto simp: wp_run split: sum.splits option.splits)
  then show ?thesis
    unfolding wp_bounce by (rule wp_mono) auto
qed

lemma reach_marked_a: "reachable marked_a"
proof -
  have "reachable (marked_a\<lparr>inflight := [(row_a, ''bounced'')]\<rparr>)"
    by (rule reach_step [OF reach_a email_failed_a])
  from reach_step [OF this step_crash] show ?thesis
    by (simp add: marked_a_def sys_of_def init_sys_def)
qed

lemma stuck_marked_a: "stuck 1 pending_a marked_a"
  by (simp add: stuck_def marked_a_def set_saga_state_def row_a_def) (simp add: pending_a_def)

section \<open>A cleanup that meets a new subscriber\<close>

lemma unsubscribe_step:
  "sys_step s (EvUnsubscribe token) (s\<lparr>
     sdb := delete_subscriptions (\<lambda>x. sb_UnsubscribeToken x = token) (sdb s), cleaning := cleaning s @ [rid]\<rparr>)"
proof -
  have "run_db (DeleteByUnsubscribeToken Pool token) (world_of s) =
      delete_subscriptions (\<lambda>x. sb_UnsubscribeToken x = token) (sdb s)"
    by (rule run_db_wp)
      (simp add: world_of_def DeleteByUnsubscribeToken_def wp_simps Let_def
        deleteSubscriptionByUnsubscribeTokenQuery_def)
  then show ?thesis using step_unsubscribe [of "world_of s" s token rid] by simp
qed

lemma check_step:
  assumes "rid \<in> set (cleaning s)" "subscribers (sdb s) rid = {}"
  shows "sys_step s (EvCleanupCheck rid) (s\<lparr>cleaning := remove1 rid (cleaning s), deleting := deleting s @ [rid]\<rparr>)"
proof -
  have "run_result (HasAnyByRepositoryID Pool rid) (world_of s) = Inr False"
    using assms(2)
    by (intro run_result_wp)
      (simp add: world_of_def HasAnyByRepositoryID_def wp_simps Let_def
        hasAnySubscriptionsByRepositoryIDQuery_def subscribers_def)
  then show ?thesis using step_check [OF runs_world_of assms(1) refl] by simp
qed

lemma confirm_step:
  assumes "find (\<lambda>x. sb_ConfirmToken x = token) (subscriptions (sdb s)) = Some x"
  shows "sys_step s (EvConfirm token) (s\<lparr>
     sdb := confirm_where (\<lambda>x. sb_ConfirmToken x = token) 0 (sdb s), confirming := confirming s @ [sb_ID x]\<rparr>)"
proof -
  have "wp (store_Confirm Pool token) (\<lambda>r w'. r = Inr (sb_ID x) \<and>
      committed w' = confirm_where (\<lambda>x. sb_ConfirmToken x = token) 0 (sdb s)) (world_of s)"
    using assms
    by (simp add: world_of_def store_Confirm_def wp_simps Let_def confirmSubscriptionByTokenQuery_def)
  then show ?thesis
    using step_confirm [of "world_of s" s token] by (simp add: wp_run run_db_world)
qed

lemma delete_step:
  assumes "rid \<in> set (deleting s)"
  shows "sys_step s (EvCleanupDelete rid) (s\<lparr>
     sdb := delete_repository rid (sdb s), deleting := remove1 rid (deleting s)\<rparr>)"
proof -
  have "run_db (DeleteByID Pool rid) (world_of s) = delete_repository rid (sdb s)"
    by (rule run_db_wp) (simp add: world_of_def DeleteByID_def wp_simps Let_def deleteByIDQuery_def)
  then show ?thesis using step_delete [OF runs_world_of assms] by simp
qed

definition db_gone :: sub_db where
  "db_gone = delete_subscriptions (\<lambda>x. sb_UnsubscribeToken x = ''ua'') db_a"

definition db_b :: sub_db where
  "db_b = created ''sb'' sub_b (Json JNull) 0 0 db_gone"

definition race_db :: sub_db where
  "race_db = confirm_where (\<lambda>x. sb_ConfirmToken x = ''cb'') 0 db_b"

definition race :: sys where
  "race = \<lparr>sdb = race_db, inflight = [], confirming = [2], cleaning = [], deleting = [1]\<rparr>"

lemma db_gone_simps [simp]: "subscriptions db_gone = []" "subscribe_sagas db_gone = [row_a]"
  "subscriptions_seq db_gone = 2" "repositories db_gone = repositories db_repo"
  by (simp_all add: db_gone_def delete_subscriptions_def pending_a_def)

lemma reach_race: "reachable race"
proof -
  have 1: "reachable ((sys_of db_gone)\<lparr>cleaning := [1]\<rparr>)"
    using reach_step [OF reach_a unsubscribe_step [of "sys_of db_a" "''ua''" 1]]
    by (simp add: db_gone_def sys_of_def init_sys_def)
  have 2: "reachable ((sys_of db_gone)\<lparr>deleting := [1]\<rparr>)"
    using reach_step [OF 1 check_step [of 1]] by (simp add: subscribers_def sys_of_def init_sys_def)
  have "creatable db_gone ''sb'' sub_b"
    by (simp add: creatable_def sub_b_def row_a_def varchar255_short token_clash_def pair_taken_def
        db_repo_def empty_sub_db_def)
  then have 3: "reachable ((sys_of db_b)\<lparr>deleting := [1]\<rparr>)"
    using reach_step [OF 2 subscribe_step [of _ "''sb''" sub_b]] by (simp add: db_b_def sys_of_def init_sys_def)
  have "find (\<lambda>x. sb_ConfirmToken x = ''cb'') (subscriptions db_b) = Some (new_subscription_row sub_b 0 db_gone)"
    by (simp add: db_b_def created_def new_subscription_row_def sub_b_def)
  then show ?thesis
    using reach_step [OF 3 confirm_step [of "''cb''" "(sys_of db_b)\<lparr>deleting := [1]\<rparr>"]]
    by (simp add: race_def race_db_def sys_of_def init_sys_def new_subscription_row_def)
qed

lemma race_subscriber:
  "subscriptions race_db = [\<lparr>sb_ID = 2, sb_Email = ''b@x.y'', sb_RepositoryID = 1, sb_Confirmed = True,
     sb_ConfirmToken = ''cb'', sb_UnsubscribeToken = ''ub'', sb_CreatedAt = 0, sb_ConfirmedAt = Some 0\<rparr>]"
  by (simp add: race_db_def confirm_where_def db_b_def created_def new_subscription_row_def sub_b_def)

lemma race_repository: "repositories race_db = repositories db_repo"
  by (simp add: race_db_def confirm_where_def db_b_def created_def)

lemma race_lost: "subscriptions (delete_repository 1 race_db) = []"
  by (simp add: delete_repository_def race_repository race_subscriber)
    (simp add: db_repo_def)

section \<open>A subscription that is confirmed\<close>

lemma confirmed_step:
  assumes "i \<in> set (confirming s)" "saga_by_sub (sdb s) i = Some row"
    and "sg_State row \<notin> {StateCompleted, StateFailed}"
  shows "sys_step s (EvConfirmed i) (s\<lparr>
     sdb := set_saga_state (sg_ID row) StateCompleted None (sdb s), confirming := remove1 i (confirming s)\<rparr>)"
proof -
  have "run_db (HandleConfirmed i) (world_of s) = set_saga_state (sg_ID row) StateCompleted None (sdb s)"
    by (rule run_db_wp, rule wp_mono [OF calm_HandleConfirmed]) (use assms(2,3) in auto)
  then show ?thesis using step_confirmed [OF runs_world_of assms(1)] by simp
qed

definition db_done :: sub_db where
  "db_done = set_saga_state 1 StateCompleted None (confirm_where (\<lambda>x. sb_ConfirmToken x = ''ca'') 0 db_a)"

lemma db_done_sagas: "subscribe_sagas db_done = [row_a\<lparr>sg_State := StateCompleted\<rparr>]"
  by (simp add: db_done_def set_saga_state_def confirm_where_def row_a_def)

lemma reach_done: "reachable (sys_of db_done)"
proof -
  let ?d = "confirm_where (\<lambda>x. sb_ConfirmToken x = ''ca'') 0 db_a"
  have "find (\<lambda>x. sb_ConfirmToken x = ''ca'') (subscriptions (sdb (sys_of db_a))) = Some pending_a"
    by (simp add: pending_a_def)
  from reach_step [OF reach_a confirm_step [OF this]]
  have 1: "reachable ((sys_of ?d)\<lparr>confirming := [1]\<rparr>)"
    by (simp add: sys_of_def init_sys_def pending_a_def)
  have "saga_by_sub ?d 1 = Some row_a"
    by (simp add: saga_by_sub_def confirm_where_def row_a_def)
  then show ?thesis
    using reach_step [OF 1 confirmed_step [of 1 "(sys_of ?d)\<lparr>confirming := [1]\<rparr>" row_a]]
    by (simp add: db_done_def row_a_def sys_of_def init_sys_def)
qed

end
