(* ===== verification/Reaper.thy ===== *)
theory Reaper
  imports SagaScenarios
begin

text \<open>
  A pass of the reaper when nothing fails: it ends every expired saga of its batch, as failed if its
  subscription was still pending, which is then gone, and as completed otherwise.
\<close>

section \<open>What a pass does to subscriptions and sagas\<close>

definition core :: "sub_db \<Rightarrow> Subscription list \<times> SagaRow list" where
  "core d = (subscriptions d, subscribe_sagas d)"

lemma pending_sub_core: "core d = core d' \<Longrightarrow> pending_sub d i = pending_sub d' i"
  by (simp add: core_def pending_sub_def)

lemma compensated_core:
  "core d = core d' \<Longrightarrow> core (compensated row reason d) = core (compensated row reason d')"
  by (frule pending_sub_core [of d d' "sg_SubscriptionID row"])
    (auto simp: compensated_def Let_def core_def set_saga_state_def delete_subscriptions_def)

definition compensated_all :: "string \<Rightarrow> SagaRow list \<Rightarrow> sub_db \<Rightarrow> sub_db" where
  "compensated_all reason rows d = fold (\<lambda>row. compensated row reason) rows d"

lemma compensated_all_core:
  "core d = core d' \<Longrightarrow> core (compensated_all reason rows d) = core (compensated_all reason rows d')"
proof (induction rows arbitrary: d d')
  case (Cons row rows)
  from Cons.IH [OF compensated_core [OF Cons.prems]] show ?case
    by (simp add: compensated_all_def)
qed (simp add: compensated_all_def)

lemma calm_orphan_check:
  assumes "calm w"
  shows "wp (DeleteIfOrphaned (DeleteByID Pool) i (HasAnyByRepositoryID Pool)) (\<lambda>r w'. calm w' \<and>
    core (committed w') = core (committed w)) w"
proof -
  have "core (delete_repository i (committed w)) = core (committed w)" if "subscribers (committed w) i = {}"
    using delete_unused_repository [OF that] by (simp add: core_def)
  then show ?thesis
    using assms
    by (auto simp: DeleteIfOrphaned_def DeleteByID_def HasAnyByRepositoryID_def wp_simps Let_def calm_def
        deleteByIDQuery_def hasAnySubscriptionsByRepositoryIDQuery_def subscribers_def)
qed

lemma calm_CompensateExpired:
  assumes "calm w"
  shows "wp (CompensateExpired orchestrator row) (\<lambda>r w'. r = Inr () \<and> calm w' \<and>
    core (committed w') = core (compensated row ''confirmation deadline exceeded'' (committed w))) w"
  unfolding CompensateExpired_def compensate_def wp_bind
  apply (rule wp_mono [OF calm_compensate_tx [OF assms]])
  apply (clarsimp simp: wp_check wp_if wp_bind wp_return orchestrator_def)
  apply (rule wp_mono [OF calm_orphan_check])
   apply (simp_all add: wp_return)
  done

lemma calm_compensate_each:
  "calm w \<Longrightarrow> wp (compensate_each orchestrator rows) (\<lambda>r w'. calm w' \<and>
     core (committed w') = core (compensated_all ''confirmation deadline exceeded'' rows (committed w))) w"
proof (induction rows arbitrary: w)
  case (Cons row rows)
  show ?case
    unfolding compensate_each.simps wp_bind
    apply (rule wp_mono [OF calm_CompensateExpired [OF Cons.prems]])
    apply (elim conjE)
    apply (rule wp_mono [OF Cons.IH], assumption)
    apply (drule compensated_all_core)
    apply (simp add: compensated_all_def)
    done
qed (simp add: wp_return compensated_all_def)

lemma calm_mark_expired:
  "txn w = Some (d, False) \<Longrightarrow> faults w = [] \<Longrightarrow>
   wp (mark_expired rows) Q w = Q () (w\<lparr>txn := Some (compensating rows d, False)\<rparr>)"
proof (induction rows arbitrary: w d)
  case Nil
  then have "w\<lparr>txn := Some (d, False)\<rparr> = w" by (cases w) simp
  then show ?case by (simp add: wp_return)
next
  case (Cons row rows)
  have fx: "w\<lparr>faults := [], txn := x\<rparr> = w\<lparr>txn := x\<rparr>" for x using Cons.prems(2) by (cases w) simp
  show ?case
    using Cons.prems Cons.IH [of "w\<lparr>txn := Some (set_saga_state (sg_ID row) StateCompensating None d, False)\<rparr>"]
    by (simp add: UpdateState_def wp_simps Let_def updateSagaStateQuery_def fx)
qed

lemma calm_reap_tx:
  assumes "calm w"
  shows "wp reap_tx (\<lambda>r w'. calm w' \<and> r = Inr (expired_batch [] (pg_clock w) (committed w)) \<and>
    committed w' = compensating (expired_batch [] (pg_clock w) (committed w)) (committed w)) w"
  using assms
  by (auto simp: reap_tx_def FindExpiredForUpdate_def findExpiredForUpdateQuery_def wp_simps Let_def calm_def
      expired_batch_def calm_mark_expired)

lemma calm_reap:
  assumes "calm w"
  shows "wp (reap orchestrator) (\<lambda>r w'. r = Inr () \<and> calm w' \<and>
    (let rows = expired_batch [] (pg_clock w) (committed w) in
     core (committed w') =
       core (compensated_all ''confirmation deadline exceeded'' rows (compensating rows (committed w))))) w"
  unfolding reap_def wp_bind
  apply (rule wp_mono [OF calm_reap_tx [OF assms]])
  apply (clarsimp simp: wp_check wp_bind wp_return Let_def)
  apply (rule wp_mono [OF calm_compensate_each])
   apply (simp_all add: wp_return)
  done

section \<open>How the expired sagas end\<close>

lemma compensated_sagas:
  "subscribe_sagas (compensated row reason d) =
     update_where (\<lambda>r. sg_ID r = sg_ID row)
       (\<lambda>r. r\<lparr>sg_State := (if pending_sub d (sg_SubscriptionID row) then StateFailed else StateCompleted),
              sg_LastError := (if pending_sub d (sg_SubscriptionID row) then Some reason else None)\<rparr>) (subscribe_sagas d)"
  by (simp add: compensated_def Let_def set_saga_state_def delete_subscriptions_def)

lemma compensated_pending:
  "pending_sub (compensated row reason d) i \<longleftrightarrow> pending_sub d i \<and> i \<noteq> sg_SubscriptionID row"
  by (auto simp: compensated_def Let_def pending_sub_def set_saga_state_def delete_subscriptions_def delete_where_def)

lemma compensated_keeps_other:
  "r \<in> set (subscribe_sagas d) \<Longrightarrow> sg_ID r \<noteq> sg_ID row \<Longrightarrow> r \<in> set (subscribe_sagas (compensated row reason d))"
  unfolding compensated_sagas in_set_update_where by (rule bexI [of _ r]) simp_all

definition ended :: "SagaRow \<Rightarrow> bool \<Rightarrow> sub_db \<Rightarrow> bool" where
  "ended row failed d \<longleftrightarrow> \<not> pending_sub d (sg_SubscriptionID row) \<and>
     (\<exists>r \<in> set (subscribe_sagas d). same_saga row r \<and> sg_State r = (if failed then StateFailed else StateCompleted))"

lemma ended_later:
  assumes "ended row failed d" "sg_ID row \<noteq> sg_ID other"
  shows "ended row failed (compensated other reason d)"
proof -
  obtain r where r: "r \<in> set (subscribe_sagas d)" "same_saga row r" "sg_State r = (if failed then StateFailed else StateCompleted)"
    using assms(1) unfolding ended_def by blast
  have "sg_ID r \<noteq> sg_ID other" using r(2) assms(2) by (simp add: same_saga_def)
  then have "r \<in> set (subscribe_sagas (compensated other reason d))"
    using r(1) by (intro compensated_keeps_other)
  then show ?thesis
    using r(2,3) assms(1) unfolding ended_def compensated_pending by blast
qed

lemma ended_all_later:
  "ended row failed d \<Longrightarrow> sg_ID row \<notin> sg_ID ` set rows \<Longrightarrow> ended row failed (compensated_all reason rows d)"
  by (induction rows arbitrary: d) (auto simp: compensated_all_def ended_later)

lemma compensated_ends:
  assumes "r \<in> set (subscribe_sagas d)" "same_saga row r"
  shows "ended row (pending_sub d (sg_SubscriptionID row)) (compensated row reason d)"
proof -
  let ?r = "r\<lparr>sg_State := (if pending_sub d (sg_SubscriptionID row) then StateFailed else StateCompleted),
    sg_LastError := (if pending_sub d (sg_SubscriptionID row) then Some reason else None)\<rparr>"
  have "?r \<in> set (subscribe_sagas (compensated row reason d))"
    unfolding compensated_sagas in_set_update_where
    by (rule bexI [OF _ assms(1)]) (use assms(2) in \<open>simp add: same_saga_def\<close>)
  moreover have "same_saga row ?r" using assms(2) by (simp add: same_saga_def)
  ultimately show ?thesis
    unfolding ended_def compensated_pending by (intro conjI bexI [of _ ?r]) simp_all
qed

lemma compensated_all_ends:
  assumes "row \<in> set rows" "distinct (map sg_ID rows)" "distinct (map sg_SubscriptionID rows)"
    and "\<forall>row \<in> set rows. \<exists>r \<in> set (subscribe_sagas d). same_saga row r"
  shows "ended row (pending_sub d (sg_SubscriptionID row)) (compensated_all reason rows d)"
  using assms
proof (induction rows arbitrary: d)
  case (Cons other rows)
  let ?d = "compensated other reason d"
  have all: "compensated_all reason (other # rows) d = compensated_all reason rows ?d"
    by (simp add: compensated_all_def)
  show ?case
  proof (cases "row = other")
    case True
    obtain r where "r \<in> set (subscribe_sagas d)" "same_saga other r" using Cons.prems(4) by auto
    then show ?thesis
      unfolding True all using compensated_ends Cons.prems(2) by (intro ended_all_later) simp_all
  next
    case False
    then have row: "row \<in> set rows" using Cons.prems(1) by simp
    have "\<exists>r \<in> set (subscribe_sagas ?d). same_saga x r" if "x \<in> set rows" for x
    proof -
      obtain r where r: "r \<in> set (subscribe_sagas d)" "same_saga x r" using Cons.prems(4) \<open>x \<in> set rows\<close> by auto
      have "sg_ID x \<noteq> sg_ID other" using Cons.prems(2) imageI [OF that, of sg_ID] by auto
      then have "r \<in> set (subscribe_sagas ?d)"
        using r by (intro compensated_keeps_other) (simp_all add: same_saga_def)
      then show ?thesis using r(2) by blast
    qed
    then have "ended row (pending_sub ?d (sg_SubscriptionID row)) (compensated_all reason rows ?d)"
      using Cons.prems(2,3) row by (intro Cons.IH) auto
    moreover have "sg_SubscriptionID row \<noteq> sg_SubscriptionID other"
      using Cons.prems(3) imageI [OF row, of sg_SubscriptionID] by auto
    ultimately show ?thesis by (simp add: all compensated_pending)
  qed
qed simp

lemma compensating_sagas:
  assumes "r \<in> set (subscribe_sagas d)"
  shows "\<exists>r' \<in> set (subscribe_sagas (compensating rows d)). same_saga r r'"
  unfolding compensating_upd saga_upd_def
  using assms by (auto simp: in_set_update_where same_saga_def intro!: bexI [of _ r])

lemma ended_core: "core d = core d' \<Longrightarrow> ended row b d = ended row b d'"
  using pending_sub_core [of d d'] by (auto simp: ended_def core_def)

lemma compensating_pending [simp]: "pending_sub (compensating rows d) i = pending_sub d i"
  unfolding compensating_upd by (simp add: pending_sub_def saga_upd_def)

text \<open>C39: a pass of the reaper from a reachable state, when nothing fails, ends each expired saga of its
  batch: as failed, with the subscription gone, if it was still pending, and as completed if it was
  confirmed or deleted in the meantime.\<close>

theorem reaper_ends_expired_sagas:
  assumes "reachable s" "calm w" "committed w = sdb s" "row \<in> set (expired_batch [] (pg_clock w) (committed w))"
  shows "wp (reap orchestrator) (\<lambda>r w'. r = Inr () \<and> \<not> pending_sub (committed w') (sg_SubscriptionID row) \<and>
    (\<exists>row' \<in> set (subscribe_sagas (committed w')). same_saga row row' \<and>
       sg_State row' = (if pending_sub (committed w) (sg_SubscriptionID row) then StateFailed else StateCompleted))) w"
proof -
  let ?rows = "expired_batch [] (pg_clock w) (committed w)" and ?d = "committed w"
  have inv: "sub_wf ?d" "sagas_ok ?d"
    using reachable_inv [OF assms(1)] assms(3) by (simp_all add: sys_inv_def)
  have dist: "distinct (map sg_ID ?rows)" "distinct (map sg_SubscriptionID ?rows)"
    using inv
    by (simp_all add: expired_batch_def sub_wf_def sagas_ok_def distinct_map_filter take_map [symmetric])
  have "\<exists>r \<in> set (subscribe_sagas (compensating ?rows ?d)). same_saga x r" if "x \<in> set ?rows" for x
  proof -
    have "x \<in> set (subscribe_sagas ?d)"
      using that by (auto simp: expired_batch_def dest: in_set_takeD)
    then show ?thesis by (rule compensating_sagas)
  qed
  then have "ended row (pending_sub (compensating ?rows ?d) (sg_SubscriptionID row))
      (compensated_all ''confirmation deadline exceeded'' ?rows (compensating ?rows ?d))"
    by (intro compensated_all_ends [OF assms(4) dist]) blast
  then have fin: "ended row (pending_sub ?d (sg_SubscriptionID row))
      (compensated_all ''confirmation deadline exceeded'' ?rows (compensating ?rows ?d))" by simp
  show ?thesis
  proof (rule wp_mono [OF calm_reap [OF assms(2)]])
    fix r w'
    assume post: "r = Inr () \<and> calm w' \<and> (let rows = ?rows in core (committed w') =
      core (compensated_all ''confirmation deadline exceeded'' rows (compensating rows ?d)))"
    then have "ended row (pending_sub ?d (sg_SubscriptionID row)) (committed w')"
      using ended_core fin unfolding Let_def by blast
    then show "r = Inr () \<and> \<not> pending_sub (committed w') (sg_SubscriptionID row) \<and>
      (\<exists>row' \<in> set (subscribe_sagas (committed w')). same_saga row row' \<and>
         sg_State row' = (if pending_sub ?d (sg_SubscriptionID row) then StateFailed else StateCompleted))"
      using post unfolding ended_def by blast
  qed
qed

theorem reaper_ends_expired_sagas_witness:
  "\<not> pending_sub (run_db (reap orchestrator) (calm_world db_a 1 [])) 1"
  using reaper_ends_expired_sagas [OF reach_a, of "calm_world db_a 1 []" row_a]
  by (simp add: wp_run run_db_world expired_batch_def expired_def row_a_def reaperBatch_def)

end
