(* ===== verification/Monitoring.thy ===== *)
theory Monitoring
  imports Relay Github Catalog
begin

text \<open>
  The monitoring service: its tables (\<^verbatim>\<open>scan_cursors\<close>, \<^verbatim>\<open>monitoring_outbox\<close>), the
  cursor and outbox stores (\<^verbatim>\<open>internal/store\<close>), the catalog client
  (\<^verbatim>\<open>internal/catalogclient\<close>), and what the worker does with one repository
  (\<^verbatim>\<open>internal/monitoring\<close>). The worker takes the catalog as an interface, whose contract is
  the locale \<open>cursor_store\<close>.
\<close>

section \<open>Database\<close>

record ScanCursor =
  cu_RepoID :: int
  cu_FullName :: string
  cu_LastSeenTag :: string
  cu_UpdatedAt :: int

record mon_db =
  scan_cursors :: "ScanCursor list"
  monitoring_outbox :: outbox_table

definition empty_mon_db :: mon_db where
  "empty_mon_db = \<lparr>scan_cursors = [], monitoring_outbox = \<lparr>ob_rows = [], ob_seq = 1\<rparr>\<rparr>"

type_synonym 'a mon_io = "(mon_db, sentinel, 'a) io"

definition getLastSeenTagQuery :: "int \<Rightarrow> (mon_db, string option) stmt" where
  "getLastSeenTagQuery repoID now d =
     Inr (map_option cu_LastSeenTag (find (\<lambda>c. cu_RepoID c = repoID) (scan_cursors d)), d)"

text \<open>\<^verbatim>\<open>INSERT ... ON CONFLICT (repo_id) DO UPDATE\<close>\<close>

definition upsert_cursor :: "int \<Rightarrow> string \<Rightarrow> string \<Rightarrow> int \<Rightarrow> mon_db \<Rightarrow> mon_db" where
  "upsert_cursor repoID fullName tag now d =
     (if \<exists>c \<in> set (scan_cursors d). cu_RepoID c = repoID
      then d\<lparr>scan_cursors := update_where (\<lambda>c. cu_RepoID c = repoID)
               (\<lambda>c. c\<lparr>cu_LastSeenTag := tag, cu_UpdatedAt := now\<rparr>) (scan_cursors d)\<rparr>
      else d\<lparr>scan_cursors := scan_cursors d @
               [\<lparr>cu_RepoID = repoID, cu_FullName = fullName, cu_LastSeenTag = tag, cu_UpdatedAt = now\<rparr>]\<rparr>)"

definition upsertLastSeenTagQuery :: "int \<Rightarrow> string \<Rightarrow> string \<Rightarrow> (mon_db, nat) stmt" where
  "upsertLastSeenTagQuery repoID fullName tag now d = Inr (1, upsert_cursor repoID fullName tag now d)"

section \<open>Stores\<close>

definition GetLastSeenTag :: "int \<Rightarrow> string mon_io" where
  "GetLastSeenTag repoID =
     do { r \<leftarrow> QueryRow Pool (getLastSeenTagQuery repoID);
          ret (case r of
            Inl e \<Rightarrow>
              if errors_Is e ErrNoRows then Inr ''''
              else Inl (Wrap (''get last_seen_tag repo_id='' @ FormatInt repoID) e)
          | Inr tag \<Rightarrow> Inr tag) }"

definition UpdateLastSeenTagAtomic :: "int \<Rightarrow> string \<Rightarrow> string \<Rightarrow> (dbtx \<Rightarrow> unit mon_io) \<Rightarrow> unit mon_io" where
  "UpdateLastSeenTagAtomic repoID fullName tag onTx =
     do { tx \<leftarrow> BeginTx;
          check tx (Wrap ''begin tx'') (\<lambda>_. defer_Rollback (do {
            r \<leftarrow> Exec Tx (upsertLastSeenTagQuery repoID fullName tag);
            check r (Wrap (''upsert last_seen_tag repo_id='' @ FormatInt repoID)) (\<lambda>_. do {
              r \<leftarrow> onTx Tx;
              check r id (\<lambda>_. Commit) }) })) }"

definition mon_Insert :: "dbtx \<Rightarrow> string \<Rightarrow> bytes \<Rightarrow> unit mon_io" where
  "mon_Insert q subject payload = outbox_Insert monitoring_outbox_update ''insert monitoring outbox'' q subject payload"

definition mon_FetchForUpdate :: "nat \<Rightarrow> OutboxRow list mon_io" where
  "mon_FetchForUpdate = outbox_FetchForUpdate monitoring_outbox ''fetch monitoring outbox''"

definition mon_MarkPublished :: "int list \<Rightarrow> unit mon_io" where
  "mon_MarkPublished =
     outbox_MarkPublished monitoring_outbox monitoring_outbox_update ''mark monitoring outbox published''"

section \<open>Worker: one repository\<close>

definition noReleaseYet :: string where "noReleaseYet = ''(no release)''"

record mon_TrackedRepo =
  mr_ID :: int
  mr_FullName :: string
  mr_LastSeenTag :: string

record mon_DetectedRelease =
  md_RepoID :: int
  md_RepoName :: string
  md_ReleaseTag :: string
  md_ReleaseName :: string
  md_ReleaseURL :: string

definition HasNewRelease :: "mon_TrackedRepo \<Rightarrow> string \<Rightarrow> bool" where
  "HasNewRelease r tag \<longleftrightarrow> mr_LastSeenTag r \<noteq> '''' \<and> tag \<noteq> mr_LastSeenTag r"

text \<open>The update half of the interface \<^verbatim>\<open>catalogClient\<close>.\<close>

type_synonym 'db updater_io =
  "int \<Rightarrow> string \<Rightarrow> string \<Rightarrow> (dbtx \<Rightarrow> ('db, sentinel, unit) io) \<Rightarrow> ('db, sentinel, unit) io"

type_synonym 'db enqueuer = "dbtx \<Rightarrow> mon_DetectedRelease \<Rightarrow> ('db, sentinel, unit) io"

definition getLatestRelease ::
  "(string \<Rightarrow> go_error + Release) \<Rightarrow> mon_TrackedRepo \<Rightarrow> go_error + Release option" where
  "getLatestRelease gh repo =
     (case gh (mr_FullName repo) of
        Inl e \<Rightarrow> if errors_Is e (Sentinel db_ErrNotFound) then Inr None else Inl e
      | Inr release \<Rightarrow> Inr (Some release))"

definition seedCursor :: "'db updater_io \<Rightarrow> mon_TrackedRepo \<Rightarrow> Release option \<Rightarrow> ('db, sentinel, unit) io" where
  "seedCursor update repo release =
     (let tag = (case release of None \<Rightarrow> noReleaseYet | Some r \<Rightarrow> gr_Tag r) in
      do { r \<leftarrow> update (mr_ID repo) (mr_FullName repo) tag (\<lambda>q. ok ());
           check r id (\<lambda>_. ok ()) })"

definition processRepository ::
  "(string \<Rightarrow> go_error + Release) \<Rightarrow> 'db updater_io \<Rightarrow> 'db enqueuer \<Rightarrow> mon_TrackedRepo \<Rightarrow>
     ('db, sentinel, unit) io" where
  "processRepository gh update enqueue repo =
     (case getLatestRelease gh repo of
        Inl e \<Rightarrow> err e
      | Inr release \<Rightarrow>
          if mr_LastSeenTag repo = '''' then seedCursor update repo release
          else
            (case release of
               None \<Rightarrow> ok ()
             | Some rel \<Rightarrow>
                 if \<not> HasNewRelease repo (gr_Tag rel) then ok ()
                 else
                   (let dr = \<lparr>md_RepoID = mr_ID repo, md_RepoName = mr_FullName repo,
                              md_ReleaseTag = gr_Tag rel, md_ReleaseName = gr_Name rel,
                              md_ReleaseURL = gr_URL rel\<rparr> in
                    update (mr_ID repo) (mr_FullName repo) (gr_Tag rel) (\<lambda>q. enqueue q dr))))"

definition Enqueue :: "mon_db enqueuer" where
  "Enqueue q dr =
     mon_Insert q SubjectReleaseFound (Marshal_ReleaseFound
       \<lparr>rf_RepoID = md_RepoID dr, rf_RepoName = md_RepoName dr, rf_ReleaseTag = md_ReleaseTag dr,
        rf_ReleaseName = md_ReleaseName dr, rf_ReleaseURL = md_ReleaseURL dr\<rparr>)"

section \<open>Catalog client\<close>

text \<open>\<open>rpc\<close> is the answer of the subscription service to \<^verbatim>\<open>ListTrackedRepos\<close>.\<close>

fun load_cursors :: "(int \<Rightarrow> ('db, sentinel, string) io) \<Rightarrow> TrackedRepo list \<Rightarrow> ('db, sentinel, mon_TrackedRepo list) io" where
  "load_cursors get [] = ok []"
| "load_cursors get (r # rs) =
     do { tag \<leftarrow> get (tr_RepoId r);
          check tag id (\<lambda>tag. do {
            rest \<leftarrow> load_cursors get rs;
            check rest id (\<lambda>rest.
              ok (\<lparr>mr_ID = tr_RepoId r, mr_FullName = tr_FullName r, mr_LastSeenTag = tag\<rparr> # rest)) }) }"

definition client_ListTracked ::
  "(int \<Rightarrow> ('db, sentinel, string) io) \<Rightarrow> go_error + TrackedRepo list \<Rightarrow> ('db, sentinel, mon_TrackedRepo list) io" where
  "client_ListTracked get rpc =
     (case rpc of
        Inl e \<Rightarrow> err (Wrap ''list tracked repos via grpc'' e)
      | Inr repos \<Rightarrow> load_cursors get repos)"

definition client_UpdateLastSeenTagAtomic :: "'db updater_io \<Rightarrow> 'db updater_io" where
  "client_UpdateLastSeenTagAtomic update repoID fullName tag onTx = update repoID fullName tag onTx"

section \<open>Relay\<close>

definition mon_msgID :: "int \<Rightarrow> string" where
  "mon_msgID i = ''mon-'' @ FormatInt i"

definition mon_publishPending :: "unit mon_io" where
  "mon_publishPending = publish_pending mon_FetchForUpdate mon_MarkPublished mon_msgID"

lemma mon_msgID_inj: "inj mon_msgID"
  by (rule injI) (simp add: mon_msgID_def FormatInt_inj)

interpretation mon_relay: outbox_store monitoring_outbox mon_FetchForUpdate mon_MarkPublished
  "Wrap ''fetch monitoring outbox'' (Opaque ''connection failure'')"
  "Wrap ''mark monitoring outbox published'' (Opaque ''connection failure'')"
  "\<lambda>ids now. monitoring_outbox_update (mark_rows ids now)"
  "\<lambda>subject payload. monitoring_outbox_update (insert_row subject payload)"
  by standard (simp_all add: mon_FetchForUpdate_def mon_MarkPublished_def outbox_Fetch_stmt outbox_Mark_stmt)

section \<open>The contract of the cursor store\<close>

text \<open>
  An update sets the cursor and does the work of the callback in one transaction, or does
  nothing; \<open>advanced\<close> is the database with the cursor set, \<open>queued\<close> the one with the event.
\<close>

locale cursor_store =
  fixes cursor :: "'db \<Rightarrow> int \<Rightarrow> string"
    and queue :: "'db \<Rightarrow> outbox_table"
    and Update :: "'db updater_io"
    and Enq :: "'db enqueuer"
    and event_of :: "mon_DetectedRelease \<Rightarrow> bytes"
  assumes Update_plain: "txn w = None \<Longrightarrow>
      wp (Update i name tag (\<lambda>q. ok ())) (\<lambda>r w'. txn w' = None \<and>
        (committed w' = committed w \<and> r \<noteq> Inr () \<or>
         cursor (committed w') = (cursor (committed w))(i := tag) \<and>
           queue (committed w') = queue (committed w))) w"
    and Update_enqueue: "txn w = None \<Longrightarrow>
      wp (Update i name tag (\<lambda>q. Enq q dr)) (\<lambda>r w'. txn w' = None \<and>
        (committed w' = committed w \<and> r \<noteq> Inr () \<or>
         cursor (committed w') = (cursor (committed w))(i := tag) \<and>
           queue (committed w') = insert_row SubjectReleaseFound (event_of dr) (queue (committed w)))) w"
begin

lemma process_post:
  assumes "txn w = None" "mr_LastSeenTag repo = cursor (committed w) (mr_ID repo)"
  shows "wp (processRepository gh Update Enq repo) (\<lambda>r w'. txn w' = None \<and>
    (committed w' = committed w
     \<or> mr_LastSeenTag repo = '''' \<and> queue (committed w') = queue (committed w) \<and>
       (\<exists>rel. getLatestRelease gh repo = Inr rel \<and> cursor (committed w') = (cursor (committed w))
          (mr_ID repo := (case rel of None \<Rightarrow> noReleaseYet | Some x \<Rightarrow> gr_Tag x)))
     \<or> (\<exists>rel. getLatestRelease gh repo = Inr (Some rel) \<and> HasNewRelease repo (gr_Tag rel) \<and>
          cursor (committed w') = (cursor (committed w))(mr_ID repo := gr_Tag rel) \<and>
          queue (committed w') = insert_row SubjectReleaseFound
            (event_of \<lparr>md_RepoID = mr_ID repo, md_RepoName = mr_FullName repo, md_ReleaseTag = gr_Tag rel,
                       md_ReleaseName = gr_Name rel, md_ReleaseURL = gr_URL rel\<rparr>) (queue (committed w))))) w"
proof (cases "getLatestRelease gh repo")
  case (Inl e)
  then show ?thesis using assms(1) by (simp add: processRepository_def wp_return)
next
  case (Inr rel)
  show ?thesis
  proof (cases "mr_LastSeenTag repo = ''''")
    case True
    show ?thesis
      unfolding processRepository_def seedCursor_def Inr Let_def sum.case if_P [OF True] wp_bind wp_check
      by (rule wp_mono [OF Update_plain [OF assms(1)]]) (auto simp: wp_return True Inr split: sum.splits)
  next
    case False
    then show ?thesis
      using assms(1)
      by (auto simp: processRepository_def Inr Let_def wp_return split: option.splits
          intro!: wp_mono [OF Update_enqueue])
  qed
qed

end

section \<open>The store of the service meets the contract\<close>

definition cursor_of :: "mon_db \<Rightarrow> int \<Rightarrow> string" where
  "cursor_of d i = (case find (\<lambda>c. cu_RepoID c = i) (scan_cursors d) of None \<Rightarrow> '''' | Some c \<Rightarrow> cu_LastSeenTag c)"

definition found_event :: "mon_DetectedRelease \<Rightarrow> bytes" where
  "found_event dr = Marshal_ReleaseFound
     \<lparr>rf_RepoID = md_RepoID dr, rf_RepoName = md_RepoName dr, rf_ReleaseTag = md_ReleaseTag dr,
      rf_ReleaseName = md_ReleaseName dr, rf_ReleaseURL = md_ReleaseURL dr\<rparr>"

lemma find_update_key:
  "(\<And>c. key (f c) = key c) \<Longrightarrow> find (\<lambda>c. key c = i) (update_where (\<lambda>c. key c = j) f cs) =
     map_option (\<lambda>c. if key c = j then f c else c) (find (\<lambda>c. key c = i) cs)"
  by (induction cs) auto

lemma cursor_upsert: "cursor_of (upsert_cursor i name tag now d) = (cursor_of d)(i := tag)"
proof (rule ext)
  fix j
  show "cursor_of (upsert_cursor i name tag now d) j = ((cursor_of d)(i := tag)) j"
  proof (cases "\<exists>c \<in> set (scan_cursors d). cu_RepoID c = i")
    case True
    then have "find (\<lambda>c. cu_RepoID c = i) (scan_cursors d) \<noteq> None" by (auto simp: find_None_iff)
    then show ?thesis
      using True by (auto simp: upsert_cursor_def cursor_of_def find_update_key [of cu_RepoID]
          dest: find_SomeD split: option.splits)
  next
    case False
    then have none: "find (\<lambda>c. cu_RepoID c = i) (scan_cursors d) = None" by (auto simp: find_None_iff)
    show ?thesis
      unfolding upsert_cursor_def if_not_P [OF False] cursor_of_def
      using none by (auto simp: find_append split: option.splits)
  qed
qed

lemma upsert_outbox [simp]: "monitoring_outbox (upsert_cursor i name tag now d) = monitoring_outbox d"
  by (simp add: upsert_cursor_def)

lemma cursor_outbox [simp]: "cursor_of (monitoring_outbox_update f d) = cursor_of d"
  by (simp add: cursor_of_def fun_eq_iff)

lemma wp_Update_plain:
  "txn w = None \<Longrightarrow>
   wp (client_UpdateLastSeenTagAtomic UpdateLastSeenTagAtomic i name tag (\<lambda>q. ok ())) (\<lambda>r w'. txn w' = None \<and>
     (committed w' = committed w \<and> r \<noteq> Inr ()
      \<or> committed w' = upsert_cursor i name tag (pg_clock w) (committed w))) w"
  by (auto simp: client_UpdateLastSeenTagAtomic_def UpdateLastSeenTagAtomic_def wp_simps Let_def
      upsertLastSeenTagQuery_def split: fault.splits)

lemma wp_Update_enqueue:
  "txn w = None \<Longrightarrow>
   wp (client_UpdateLastSeenTagAtomic UpdateLastSeenTagAtomic i name tag (\<lambda>q. Enqueue q dr)) (\<lambda>r w'. txn w' = None \<and>
     (committed w' = committed w \<and> r \<noteq> Inr ()
      \<or> committed w' = monitoring_outbox_update (insert_row SubjectReleaseFound (found_event dr))
          (upsert_cursor i name tag (pg_clock w) (committed w)))) w"
  by (auto simp: client_UpdateLastSeenTagAtomic_def UpdateLastSeenTagAtomic_def Enqueue_def mon_Insert_def
      outbox_Insert_def found_event_def wp_simps Let_def upsertLastSeenTagQuery_def insertOutboxQuery_def
      split: fault.splits)

interpretation mon_cursors: cursor_store cursor_of monitoring_outbox
  "client_UpdateLastSeenTagAtomic UpdateLastSeenTagAtomic" Enqueue found_event
proof
  show "wp (client_UpdateLastSeenTagAtomic UpdateLastSeenTagAtomic i name tag (\<lambda>q. ok ()))
      (\<lambda>r w'. txn w' = None \<and> (committed w' = committed w \<and> r \<noteq> Inr () \<or>
         cursor_of (committed w') = (cursor_of (committed w))(i := tag) \<and>
         monitoring_outbox (committed w') = monitoring_outbox (committed w))) w"
    if "txn w = None" for i name tag and w :: "mon_db world"
    by (rule wp_mono [OF wp_Update_plain [OF that]]) (auto simp: cursor_upsert)
  show "wp (client_UpdateLastSeenTagAtomic UpdateLastSeenTagAtomic i name tag (\<lambda>q. Enqueue q dr))
      (\<lambda>r w'. txn w' = None \<and> (committed w' = committed w \<and> r \<noteq> Inr () \<or>
         cursor_of (committed w') = (cursor_of (committed w))(i := tag) \<and>
         monitoring_outbox (committed w') =
           insert_row SubjectReleaseFound (found_event dr) (monitoring_outbox (committed w)))) w"
    if "txn w = None" for i name tag dr and w :: "mon_db world"
    by (rule wp_mono [OF wp_Update_enqueue [OF that]]) (auto simp: cursor_upsert)
qed

section \<open>What a repository's scans emit\<close>

text \<open>The abstract watcher: a cursor, and the releases reported for one observation.\<close>

definition observe :: "string \<Rightarrow> Release option \<Rightarrow> string \<times> Release list" where
  "observe c rel =
     (if c = '''' then ((case rel of None \<Rightarrow> noReleaseYet | Some r \<Rightarrow> gr_Tag r), [])
      else
        (case rel of
           None \<Rightarrow> (c, [])
         | Some r \<Rightarrow> if gr_Tag r = c then (c, []) else (gr_Tag r, [r])))"

fun observes :: "string \<Rightarrow> Release option list \<Rightarrow> string \<times> Release list" where
  "observes c [] = (c, [])"
| "observes c (rel # rels) =
     (case observe c rel of (c1, e1) \<Rightarrow> case observes c1 rels of (c2, e2) \<Rightarrow> (c2, e1 @ e2))"

fun seen_tags :: "Release option list \<Rightarrow> string list" where
  "seen_tags [] = []"
| "seen_tags (None # rels) = seen_tags rels"
| "seen_tags (Some r # rels) = gr_Tag r # seen_tags rels"

lemma observes_emits:
  "c \<noteq> '''' \<Longrightarrow> '''' \<notin> set (seen_tags rels) \<Longrightarrow>
     map gr_Tag (snd (observes c rels)) = tl (remdups_adj (c # seen_tags rels))"
proof (induction rels arbitrary: c rule: seen_tags.induct)
  case (3 r rels)
  have hd: "remdups_adj (x # xs) = x # tl (remdups_adj (x # xs))" for x :: string and xs
    by (cases xs) (auto simp: remdups_adj_Cons split: list.splits)
  show ?case
    using "3.prems" "3.IH" [of "gr_Tag r"] "3.IH" [of c] hd [of "gr_Tag r" "seen_tags rels"]
    by (auto simp: observe_def split_def)
qed (simp_all add: observe_def split_def)

lemma observes_from_start:
  "'''' \<notin> set (seen_tags (rel # rels)) \<Longrightarrow>
     map gr_Tag (snd (observes '''' (rel # rels))) =
     tl (remdups_adj ((case rel of None \<Rightarrow> noReleaseYet | Some r \<Rightarrow> gr_Tag r) # seen_tags rels))"
  by (cases rel) (auto simp: observe_def split_def noReleaseYet_def intro!: observes_emits)

text \<open>One scan of one repository: its cursor is read, then it is processed.\<close>

definition scan_one :: "(string \<Rightarrow> go_error + Release) \<Rightarrow> int \<Rightarrow> string \<Rightarrow> unit mon_io" where
  "scan_one gh i name =
     do { repos \<leftarrow> client_ListTracked GetLastSeenTag (Inr [\<lparr>tr_RepoId = i, tr_FullName = name\<rparr>]);
          check repos id (\<lambda>repos. processRepository gh
            (client_UpdateLastSeenTagAtomic UpdateLastSeenTagAtomic) Enqueue (hd repos)) }"

definition event_for :: "int \<Rightarrow> string \<Rightarrow> Release \<Rightarrow> bytes" where
  "event_for i name r = found_event
     \<lparr>md_RepoID = i, md_RepoName = name, md_ReleaseTag = gr_Tag r, md_ReleaseName = gr_Name r,
      md_ReleaseURL = gr_URL r\<rparr>"

lemma wp_GetLastSeenTag:
  "wp (GetLastSeenTag i) Q w =
     (let w' = w\<lparr>faults := tl (faults w)\<rparr> in
      case next_fault (faults w) of
        Fine \<Rightarrow> Q (Inr (cursor_of (committed w) i)) w'
      | _ \<Rightarrow> Q (Inl (Wrap (''get last_seen_tag repo_id='' @ FormatInt i) (Opaque ''connection failure''))) w')"
  by (cases "find (\<lambda>c. cu_RepoID c = i) (scan_cursors (committed w))")
    (auto simp: GetLastSeenTag_def wp_simps getLastSeenTagQuery_def cursor_of_def Let_def split: fault.splits)

lemma calm_Update:
  assumes "calm w"
  shows "wp (client_UpdateLastSeenTagAtomic UpdateLastSeenTagAtomic i name tag (\<lambda>q. ok ())) (\<lambda>r w'. calm w' \<and>
      r = Inr () \<and> committed w' = upsert_cursor i name tag (pg_clock w) (committed w)) w"
    and "wp (client_UpdateLastSeenTagAtomic UpdateLastSeenTagAtomic i name tag (\<lambda>q. Enqueue q dr)) (\<lambda>r w'. calm w' \<and>
      r = Inr () \<and> committed w' = monitoring_outbox_update (insert_row SubjectReleaseFound (found_event dr))
        (upsert_cursor i name tag (pg_clock w) (committed w))) w"
  using assms
  by (auto simp: calm_def client_UpdateLastSeenTagAtomic_def UpdateLastSeenTagAtomic_def Enqueue_def mon_Insert_def
      outbox_Insert_def found_event_def wp_simps Let_def upsertLastSeenTagQuery_def insertOutboxQuery_def)

lemma calm_scan_one:
  assumes "calm w" "getLatestRelease gh \<lparr>mr_ID = i, mr_FullName = name, mr_LastSeenTag = cursor_of (committed w) i\<rparr> = Inr rel"
  shows "wp (scan_one gh i name) (\<lambda>r w'. r = Inr () \<and> calm w' \<and>
    cursor_of (committed w') = (cursor_of (committed w))(i := fst (observe (cursor_of (committed w) i) rel)) \<and>
    monitoring_outbox (committed w') =
      fold (insert_row SubjectReleaseFound) (map (event_for i name) (snd (observe (cursor_of (committed w) i) rel)))
        (monitoring_outbox (committed w))) w"
proof -
  have w: "w\<lparr>faults := []\<rparr> = w" using assms(1) by (simp add: calm_def)
  have plain: "wp (client_UpdateLastSeenTagAtomic UpdateLastSeenTagAtomic i name tag (\<lambda>q. ok ())) (\<lambda>r.
      wp (check r id (\<lambda>_. ok ())) (\<lambda>r w'. r = Inr () \<and> calm w' \<and>
        cursor_of (committed w') = (cursor_of (committed w))(i := tag) \<and>
        monitoring_outbox (committed w') = monitoring_outbox (committed w))) w" for tag
    by (rule wp_mono [OF calm_Update(1) [OF assms(1)]]) (auto simp: wp_simps cursor_upsert)
  have enq: "wp (client_UpdateLastSeenTagAtomic UpdateLastSeenTagAtomic i name tag (\<lambda>q. Enqueue q dr)) (\<lambda>r w'.
      r = Inr () \<and> calm w' \<and> cursor_of (committed w') = (cursor_of (committed w))(i := tag) \<and>
      monitoring_outbox (committed w') =
        insert_row SubjectReleaseFound (found_event dr) (monitoring_outbox (committed w))) w" for tag dr
    by (rule wp_mono [OF calm_Update(2) [OF assms(1)]]) (auto simp: cursor_upsert)
  show ?thesis
    using assms plain enq
    by (auto simp: scan_one_def client_ListTracked_def wp_bind wp_check wp_GetLastSeenTag wp_return calmD Let_def w
        processRepository_def seedCursor_def observe_def HasNewRelease_def event_for_def fun_upd_idem
        split: option.splits)
qed

text \<open>A series of scans, one answer of GitHub for each.\<close>

fun scans :: "(string \<Rightarrow> go_error + Release) list \<Rightarrow> int \<Rightarrow> string \<Rightarrow> mon_db world \<Rightarrow> mon_db world" where
  "scans [] i name w = w"
| "scans (gh # ghs) i name w = scans ghs i name (run_world (scan_one gh i name) w)"

definition answers :: "string \<Rightarrow> (string \<Rightarrow> go_error + Release) \<Rightarrow> Release option \<Rightarrow> bool" where
  "answers name gh rel \<longleftrightarrow> (case gh name of
     Inl e \<Rightarrow> errors_Is e (Sentinel db_ErrNotFound) \<and> rel = None
   | Inr r \<Rightarrow> rel = Some r)"

lemma answers_latest: "answers name gh rel \<Longrightarrow> mr_FullName repo = name \<Longrightarrow> getLatestRelease gh repo = Inr rel"
  by (auto simp: answers_def getLatestRelease_def split: sum.splits)

lemma calm_scans:
  assumes "list_all2 (answers name) ghs rels" "calm w"
  shows "cursor_of (committed (scans ghs i name w)) i = fst (observes (cursor_of (committed w) i) rels) \<and>
    monitoring_outbox (committed (scans ghs i name w)) =
      fold (insert_row SubjectReleaseFound) (map (event_for i name) (snd (observes (cursor_of (committed w) i) rels)))
        (monitoring_outbox (committed w))"
  using assms
proof (induction arbitrary: w rule: list_all2_induct)
  case Nil
  then show ?case by simp
next
  case (Cons gh ghs rel rels)
  let ?c = "cursor_of (committed w) i" and ?v = "run_world (scan_one gh i name) w"
  have step: "calm ?v" "cursor_of (committed ?v) i = fst (observe ?c rel)"
    "monitoring_outbox (committed ?v) = fold (insert_row SubjectReleaseFound)
       (map (event_for i name) (snd (observe ?c rel))) (monitoring_outbox (committed w))"
    using calm_scan_one [OF Cons.prems answers_latest [OF Cons.hyps(1)]] by (simp_all add: wp_run)
  show ?case
    using Cons.IH [OF step(1)] step(2,3) by (simp add: split_def)
qed

end
