(* ===== verification/Scan.thy ===== *)
theory Scan
  imports Monitoring "HOL-Library.Multiset"
begin

text \<open>
  One scan of the monitoring worker as a concurrent program (\<^verbatim>\<open>runOneScan\<close>,
  \<^verbatim>\<open>processRepositories\<close>, \<^verbatim>\<open>handleRepositoryProcessingError\<close>): the loop over the
  repositories, the semaphore, the goroutines and the cancellation of the scan. The result of a
  repository is the parameter \<open>res\<close>. Every interleaving is a run of \<open>scan_step\<close>.
\<close>

definition maxConcurrentRepositoryScans :: nat where
  "maxConcurrentRepositoryScans = 10"

text \<open>Where the loop is: before its check, waiting for the semaphore, in \<^verbatim>\<open>wg.Wait\<close>, or done.\<close>

datatype 'r pc = AtCheck "'r list" | AtSem 'r "'r list" | AtWait | Done

record 'r scan =
  loop :: "'r pc"
  running :: "'r list"
  finished :: "'r list"
  cancelled :: bool
  rateLimited :: bool

definition scan_init :: "'r list \<Rightarrow> 'r scan" where
  "scan_init repos = \<lparr>loop = AtCheck repos, running = [], finished = [], cancelled = False, rateLimited = False\<rparr>"

definition is_rate_limited :: "go_error option \<Rightarrow> bool" where
  "is_rate_limited r = (case r of None \<Rightarrow> False | Some e \<Rightarrow> errors_Is e (Sentinel gh_ErrRateLimited))"

text \<open>The end of a goroutine: a rate limit raises the flag and cancels the scan.\<close>

definition finish :: "go_error option \<Rightarrow> 'r \<Rightarrow> 'r scan \<Rightarrow> 'r scan" where
  "finish res r s =
     s\<lparr>running := remove1 r (running s), finished := r # finished s,
       rateLimited := (rateLimited s \<or> is_rate_limited res),
       cancelled := (cancelled s \<or> is_rate_limited res)\<rparr>"

inductive scan_step :: "('r \<Rightarrow> go_error option) \<Rightarrow> 'r scan \<Rightarrow> 'r scan \<Rightarrow> bool" for res where
  check_stop: "loop s = AtCheck rs \<Longrightarrow> cancelled s \<Longrightarrow> rs \<noteq> [] \<Longrightarrow> scan_step res s (s\<lparr>loop := AtWait\<rparr>)"
| check_end: "loop s = AtCheck [] \<Longrightarrow> scan_step res s (s\<lparr>loop := AtWait\<rparr>)"
| check_go: "loop s = AtCheck (r # rs) \<Longrightarrow> \<not> cancelled s \<Longrightarrow> scan_step res s (s\<lparr>loop := AtSem r rs\<rparr>)"
| acquire: "loop s = AtSem r rs \<Longrightarrow> length (running s) < maxConcurrentRepositoryScans \<Longrightarrow>
    scan_step res s (s\<lparr>loop := AtCheck rs, running := r # running s\<rparr>)"
| done_one: "r \<in> set (running s) \<Longrightarrow> scan_step res s (finish (res r) r s)"
| wait_done: "loop s = AtWait \<Longrightarrow> running s = [] \<Longrightarrow> scan_step res s (s\<lparr>loop := Done\<rparr>)"

inductive_cases scan_stepE: "scan_step res s s'"

text \<open>The context of the whole scan may also be cancelled from outside.\<close>

inductive scan_reach :: "('r \<Rightarrow> go_error option) \<Rightarrow> 'r list \<Rightarrow> 'r scan \<Rightarrow> bool" for res repos where
  scan_start: "scan_reach res repos (scan_init repos)"
| scan_more: "scan_reach res repos s \<Longrightarrow> scan_step res s s' \<Longrightarrow> scan_reach res repos s'"
| scan_cancel: "scan_reach res repos s \<Longrightarrow> scan_reach res repos (s\<lparr>cancelled := True\<rparr>)"

section \<open>Bounds and accounting\<close>

fun todo :: "'r pc \<Rightarrow> 'r list" where
  "todo (AtCheck rs) = rs"
| "todo (AtSem r rs) = r # rs"
| "todo AtWait = []"
| "todo Done = []"

definition scan_inv :: "('r \<Rightarrow> go_error option) \<Rightarrow> 'r list \<Rightarrow> 'r scan \<Rightarrow> bool" where
  "scan_inv res repos s \<longleftrightarrow>
     length (running s) \<le> maxConcurrentRepositoryScans \<and>
     (\<exists>skipped. mset repos = mset (running s) + mset (finished s) + mset (todo (loop s)) + mset skipped \<and>
        (skipped \<noteq> [] \<longrightarrow> cancelled s \<and> loop s \<in> {AtWait, Done})) \<and>
     (rateLimited s \<longleftrightarrow> (\<exists>r \<in> set (finished s). is_rate_limited (res r))) \<and>
     (rateLimited s \<longrightarrow> cancelled s) \<and>
     (loop s = Done \<longrightarrow> running s = [])"

lemma scan_inv_init: "scan_inv res repos (scan_init repos)"
  by (simp add: scan_inv_def scan_init_def)

lemma scan_inv_step:
  assumes "scan_step res s s'" "scan_inv res repos s"
  shows "scan_inv res repos s'"
  using assms(1)
proof cases
  case (check_stop rs)
  then show ?thesis using assms(2) by (auto simp: scan_inv_def intro!: exI [of _ rs])
next
  case check_end
  then show ?thesis using assms(2) by (auto simp: scan_inv_def)
next
  case (check_go r rs)
  then show ?thesis using assms(2) by (auto simp: scan_inv_def)
next
  case (acquire r rs)
  then show ?thesis using assms(2) by (auto simp: scan_inv_def)
next
  case (done_one r)
  obtain skipped where sk: "mset repos = mset (running s) + mset (finished s) + mset (todo (loop s)) + mset skipped"
    "skipped \<noteq> [] \<longrightarrow> cancelled s \<and> loop s \<in> {AtWait, Done}"
    using assms(2) unfolding scan_inv_def by blast
  have "mset (running s) = mset (remove1 r (running s)) + {#r#}" using done_one(2) by simp
  then have "mset repos = mset (remove1 r (running s)) + mset (r # finished s) + mset (todo (loop s)) + mset skipped"
    using sk(1) by simp
  moreover have "length (remove1 r (running s)) \<le> length (running s)" by (simp add: length_remove1)
  ultimately show ?thesis
    using assms(2) sk(2) done_one unfolding scan_inv_def finish_def
    by (auto intro!: exI [of _ skipped])
next
  case wait_done
  then show ?thesis using assms(2) by (auto simp: scan_inv_def)
qed

lemma scan_reach_inv: "scan_reach res repos s \<Longrightarrow> scan_inv res repos s"
proof (induction rule: scan_reach.induct)
  case scan_start
  then show ?case by (rule scan_inv_init)
next
  case (scan_more s s')
  then show ?case by (blast intro: scan_inv_step)
next
  case (scan_cancel s)
  then show ?case unfolding scan_inv_def by auto
qed

section \<open>Every scan ends\<close>

text \<open>No state but \<open>Done\<close> is stuck, and every step makes the measure smaller.\<close>

fun pc_weight :: "'r pc \<Rightarrow> nat" where
  "pc_weight (AtCheck rs) = 3 * length rs + 2"
| "pc_weight (AtSem r rs) = 3 * length rs + 4"
| "pc_weight AtWait = 1"
| "pc_weight Done = 0"

definition scan_measure :: "'r scan \<Rightarrow> nat" where
  "scan_measure s = pc_weight (loop s) + length (running s)"

lemma scan_step_decreases: "scan_step res s s' \<Longrightarrow> scan_measure s' < scan_measure s"
  by (erule scan_stepE)
    (auto simp: scan_measure_def finish_def length_remove1 dest: length_pos_if_in_set)

lemma scan_progress:
  assumes "scan_inv res repos s" "loop s \<noteq> Done"
  shows "\<exists>s'. scan_step res s s'"
proof (cases "running s")
  case Nil
  show ?thesis
  proof (cases "loop s")
    case (AtCheck rs)
    then show ?thesis
      by (cases rs; cases "cancelled s") (auto intro: check_end check_stop check_go)
  next
    case (AtSem r rs)
    then show ?thesis
      using Nil acquire [of s r rs res] by (auto simp: maxConcurrentRepositoryScans_def)
  next
    case AtWait
    then show ?thesis using Nil by (auto intro: wait_done)
  qed (use assms(2) in simp)
next
  case (Cons r rs)
  then show ?thesis using done_one [of r s res] by auto
qed

section \<open>What a scan reports\<close>

text \<open>\<^verbatim>\<open>runOneScan\<close> from the end of the loop on: the result it reports.\<close>

definition scan_result :: "'r scan \<Rightarrow> go_error option \<times> string" where
  "scan_result s =
     (if rateLimited s then (Some (Sentinel gh_ErrRateLimited), ''rate_limited'') else (None, ''ok''))"

text \<open>After a cancellation at most the repository that already waits for the semaphore starts.\<close>

definition waiting :: "'r pc \<Rightarrow> 'r list" where
  "waiting p = (case p of AtSem r rs \<Rightarrow> [r] | _ \<Rightarrow> [])"

definition started :: "'r scan \<Rightarrow> 'r multiset" where
  "started s = mset (running s) + mset (finished s)"

inductive scan_steps :: "('r \<Rightarrow> go_error option) \<Rightarrow> 'r scan \<Rightarrow> 'r scan \<Rightarrow> bool" for res where
  steps_refl: "scan_steps res s s"
| steps_step: "scan_step res s s1 \<Longrightarrow> scan_steps res s1 s' \<Longrightarrow> scan_steps res s s'"

lemma finish_started:
  "r \<in> set (running s) \<Longrightarrow> started (finish res r s) = started s"
  by (simp add: started_def finish_def)

lemma cancelled_step:
  assumes "scan_step res s s1" "cancelled s"
  shows "cancelled s1" "started s1 + mset (waiting (loop s1)) \<subseteq># started s + mset (waiting (loop s))"
proof -
  show "cancelled s1" using assms by (auto simp: finish_def elim: scan_stepE)
  show "started s1 + mset (waiting (loop s1)) \<subseteq># started s + mset (waiting (loop s))"
    using assms(1)
  proof cases
    case (done_one r)
    then show ?thesis by (simp add: finish_started) (simp add: finish_def)
  qed (use assms(2) in \<open>auto simp: started_def waiting_def\<close>)
qed

lemma cancelled_steps:
  "scan_steps res s s' \<Longrightarrow> cancelled s \<Longrightarrow>
     started s' + mset (waiting (loop s')) \<subseteq># started s + mset (waiting (loop s))"
proof (induction rule: scan_steps.induct)
  case (steps_step s s1 s')
  then show ?case using cancelled_step [OF steps_step.hyps(1)] subset_mset.order_trans by blast
qed simp

section \<open>What a scan returns\<close>

definition context_Canceled :: go_error where
  "context_Canceled = Opaque ''context canceled''"

text \<open>The error \<^verbatim>\<open>runOneScan\<close> returns and the result it observes, if any.\<close>

definition runOneScan :: "go_error + mon_TrackedRepo list \<Rightarrow> mon_TrackedRepo scan \<Rightarrow> go_error option \<times> string option" where
  "runOneScan listed final =
     (case listed of
        Inl e \<Rightarrow> if errors_Is e context_Canceled then (None, None) else (Some e, Some ''error'')
      | Inr _ \<Rightarrow> (case scan_result final of (e, res) \<Rightarrow> (e, Some res)))"

section \<open>The worker's loop\<close>

text \<open>
  \<^verbatim>\<open>Start\<close>: a first scan, a ticker, then whatever \<^verbatim>\<open>select\<close> receives, each scan given by the
  error it returned. \<^verbatim>\<open>time.NewTicker\<close> panics unless its duration is positive. The log has one
  level for every failed scan.
\<close>

datatype worker_event = Ticked "go_error option" | CtxDone

datatype start_outcome = Panics | Returns | Waits

definition handleScanError :: "go_error \<Rightarrow> string" where
  "handleScanError e = (if errors_Is e (Sentinel gh_ErrRateLimited) then ''WARN'' else ''ERROR'')"

definition scan_log :: "go_error option \<Rightarrow> string list" where
  "scan_log r = (case r of None \<Rightarrow> [] | Some e \<Rightarrow> [handleScanError e])"

fun worker_loop :: "worker_event list \<Rightarrow> start_outcome \<times> string list" where
  "worker_loop [] = (Waits, [])"
| "worker_loop (CtxDone # es) = (Returns, [])"
| "worker_loop (Ticked r # es) = (case worker_loop es of (res, log) \<Rightarrow> (res, scan_log r @ log))"

definition worker_Start :: "int \<Rightarrow> go_error option \<Rightarrow> worker_event list \<Rightarrow> start_outcome \<times> string list" where
  "worker_Start loopDuration first es =
     (if loopDuration \<le> 0 then (Panics, scan_log first)
      else (case worker_loop es of (res, log) \<Rightarrow> (res, scan_log first @ log)))"

lemma worker_loop_runs: "fst (worker_loop es) \<noteq> Panics"
  by (induction es rule: worker_loop.induct) (auto split: prod.splits)

lemma worker_Start_panics: "fst (worker_Start d first es) = Panics \<longleftrightarrow> d \<le> 0"
  using worker_loop_runs [of es] by (auto simp: worker_Start_def split: prod.splits)

end
