(* ===== verification/Password.thy ===== *)
theory Password
  imports World
begin

text \<open>
  Password hashing of the auth service (\<^verbatim>\<open>internal/user/password.go\<close>): the PHC string of an
  argon2id hash, written with \<^verbatim>\<open>fmt.Sprintf\<close> and read back with \<^verbatim>\<open>strings.Split\<close>,
  \<^verbatim>\<open>fmt.Sscanf\<close> and \<^verbatim>\<open>base64.RawStdEncoding\<close>. The key derivation is the parameter
  \<open>IDKey password salt time memory threads keyLen\<close>; the library's panic on zero rounds or threads is
  outside the model, since a stored hash always carries the constants of \<open>HashPassword\<close>.
\<close>

section \<open>encoding/base64, raw standard alphabet\<close>

definition std_alphabet :: string where
  "std_alphabet = ''ABCDEFGHIJKLMNOPQRSTUVWXYZabcdefghijklmnopqrstuvwxyz0123456789+/''"

definition RawStdEncode :: "string \<Rightarrow> string" where
  "RawStdEncode bs = map (\<lambda>i. std_alphabet ! i) (b64_groups (map of_char bs))"

definition std_index :: "char \<Rightarrow> nat option" where
  "std_index c = map_of (zip std_alphabet [0..<64]) c"

text \<open>Two characters left over give one byte, three give two, one is an error; bits beyond the last
  byte are ignored.\<close>

fun b64_bytes :: "nat list \<Rightarrow> nat list option" where
  "b64_bytes [] = Some []"
| "b64_bytes [a] = None"
| "b64_bytes [a, b] = Some [a * 4 + b div 16]"
| "b64_bytes [a, b, c] = Some [a * 4 + b div 16, b mod 16 * 16 + c div 4]"
| "b64_bytes (a # b # c # d # rest) =
     map_option (\<lambda>bs. (a * 4 + b div 16) # (b mod 16 * 16 + c div 4) # (c mod 4 * 64 + d) # bs) (b64_bytes rest)"

fun indices :: "string \<Rightarrow> nat list option" where
  "indices [] = Some []"
| "indices (c # cs) =
     (case std_index c of None \<Rightarrow> None | Some i \<Rightarrow> map_option (Cons i) (indices cs))"

text \<open>Line breaks are skipped.\<close>

definition RawStdDecode :: "string \<Rightarrow> string option" where
  "RawStdDecode s =
     (case indices (filter (\<lambda>c. c \<noteq> CHR 0x0A \<and> c \<noteq> CHR 0x0D) s) of
        None \<Rightarrow> None
      | Some is \<Rightarrow> map_option (map char_of) (b64_bytes is))"

lemma length_std_alphabet [simp]: "length std_alphabet = 64"
  by (simp add: std_alphabet_def)

lemma std_alphabet_distinct: "distinct std_alphabet"
  by (simp add: std_alphabet_def)

lemma std_index_nth [simp]: "i < 64 \<Longrightarrow> std_index (std_alphabet ! i) = Some i"
proof -
  assume i: "i < 64"
  have "(std_alphabet ! i, i) \<in> set (zip std_alphabet [0..<64])"
    using i by (auto simp: set_zip intro!: exI [of _ i])
  then show ?thesis
    unfolding std_index_def by (simp add: map_of_is_SomeI std_alphabet_distinct)
qed

lemma indices_map: "\<forall>i \<in> set is. i < 64 \<Longrightarrow> indices (map (\<lambda>i. std_alphabet ! i) is) = Some is"
  by (induction "is") simp_all

lemma b64_byte_first: "(y::nat) < 16 \<Longrightarrow> a div 4 * 4 + (a mod 4 * 16 + y) div 16 = a"
  by simp

lemma b64_byte_second: "(b::nat) < 256 \<Longrightarrow> y < 4 \<Longrightarrow> (x * 16 + b div 16) mod 16 * 16 + (b mod 16 * 4 + y) div 4 = b"
proof -
  assume "b < 256" "y < 4"
  then have "(x * 16 + b div 16) mod 16 = b div 16" "(b mod 16 * 4 + y) div 4 = b mod 16"
    by (simp_all add: less_mult_imp_div_less)
  then show ?thesis by simp
qed

lemma b64_byte_third: "(c::nat) < 256 \<Longrightarrow> (x * 4 + c div 64) mod 4 * 64 + c mod 64 = c"
proof -
  assume "c < 256"
  then have "(x * 4 + c div 64) mod 4 = c div 64"
    by (simp add: less_mult_imp_div_less)
  then show ?thesis by simp
qed

lemma b64_bytes_groups: "\<forall>x \<in> set xs. x < 256 \<Longrightarrow> b64_bytes (b64_groups xs) = Some xs"
proof (induction xs rule: b64_groups.induct)
  case (2 a)
  then show ?case using b64_byte_first [of 0 a] by simp
next
  case (3 a b)
  then have b: "b < 256" by simp
  show ?case
    using b64_byte_first [of "b div 16" a] b64_byte_second [OF b, of 0 "a mod 4"] b
    by (simp add: less_mult_imp_div_less)
next
  case (4 a b c rest)
  then have b: "b < 256" and c: "c < 256" by simp_all
  have "b div 16 < 16" "c div 64 < 4" using b c by (simp_all add: less_mult_imp_div_less)
  then show ?case
    using 4 b64_byte_first [of "b div 16" a] b64_byte_second [OF b, of "c div 64" "a mod 4"]
      b64_byte_third [OF c, of "b mod 16"]
    by simp
qed simp

lemma std_no_break: "c \<in> set std_alphabet \<Longrightarrow> c \<noteq> CHR 0x0A \<and> c \<noteq> CHR 0x0D \<and> c \<noteq> CHR ''$''"
  by (auto simp: std_alphabet_def)

lemma set_RawStdEncode: "set (RawStdEncode bs) \<subseteq> set std_alphabet"
proof -
  have "\<forall>i \<in> set (b64_groups (map of_char bs)). i < 64"
    by (rule b64_groups_range) (auto simp: of_char_lt)
  then show ?thesis
    by (auto simp: RawStdEncode_def simp del: nth_mem intro!: nth_mem)
qed

lemma RawStd_roundtrip: "RawStdDecode (RawStdEncode bs) = Some bs"
proof -
  have rng: "\<forall>x \<in> set (map of_char bs). x < (256::nat)" by (auto simp: of_char_lt)
  have "filter (\<lambda>c. c \<noteq> CHR 0x0A \<and> c \<noteq> CHR 0x0D) (RawStdEncode bs) = RawStdEncode bs"
    using set_RawStdEncode [of bs] std_no_break by (auto simp: filter_id_conv)
  moreover have "indices (RawStdEncode bs) = Some (b64_groups (map of_char bs))"
    unfolding RawStdEncode_def by (rule indices_map) (rule b64_groups_range [OF rng])
  ultimately show ?thesis
    by (simp add: RawStdDecode_def b64_bytes_groups [OF rng] comp_def)
qed

section \<open>fmt.Sscanf\<close>

text \<open>
  The formats here are literals and \<^verbatim>\<open>%d\<close> verbs. A verb skips spaces but no line break, then takes
  digits (for a signed target after an optional sign), and the value must fit its target. What is
  left of the input is ignored.
\<close>

datatype directive = Lit char | ScanInt | ScanUint nat

definition skip_space :: "string \<Rightarrow> string" where
  "skip_space s = trim_with (filter (\<lambda>p. p \<noteq> [CHR 0x0A]) go_spaces) s"

definition is_digit :: "char \<Rightarrow> bool" where
  "is_digit c \<longleftrightarrow> char_digit c \<noteq> None"

definition scan_number :: "string \<Rightarrow> (nat \<times> string) option" where
  "scan_number s =
     (let ds = takeWhile is_digit s in
      if ds = [] then None else map_option (\<lambda>n. (n, dropWhile is_digit s)) (read_digits 0 ds))"

definition scan_int :: "string \<Rightarrow> (int \<times> string) option" where
  "scan_int s =
     (let t = skip_space s;
          (neg, u) = (case t of [] \<Rightarrow> (False, [])
            | c # cs \<Rightarrow> if c = CHR ''-'' then (True, cs) else if c = CHR ''+'' then (False, cs) else (False, t)) in
      case scan_number u of
        None \<Rightarrow> None
      | Some (n, rest) \<Rightarrow>
          (let v = (if neg then - int n else int n) in
           if - (2 ^ 63) \<le> v \<and> v < 2 ^ 63 then Some (v, rest) else None))"

definition scan_uint :: "nat \<Rightarrow> string \<Rightarrow> (int \<times> string) option" where
  "scan_uint bits s =
     (case scan_number (skip_space s) of
        None \<Rightarrow> None
      | Some (n, rest) \<Rightarrow> if n < 2 ^ bits then Some (int n, rest) else None)"

fun Sscanf :: "directive list \<Rightarrow> string \<Rightarrow> int list option" where
  "Sscanf [] s = Some []"
| "Sscanf (Lit c # ds) s = (case s of [] \<Rightarrow> None | x # xs \<Rightarrow> if x = c then Sscanf ds xs else None)"
| "Sscanf (ScanInt # ds) s =
     (case scan_int s of None \<Rightarrow> None | Some (v, rest) \<Rightarrow> map_option (Cons v) (Sscanf ds rest))"
| "Sscanf (ScanUint bits # ds) s =
     (case scan_uint bits s of None \<Rightarrow> None | Some (v, rest) \<Rightarrow> map_option (Cons v) (Sscanf ds rest))"

section \<open>Hashing and verifying\<close>

definition argonTime :: nat where "argonTime = 1"
definition argonMemory :: nat where "argonMemory = 64 * 1024"
definition argonThreads :: nat where "argonThreads = 4"
definition argonKeyLen :: nat where "argonKeyLen = 32"
definition argonSaltLen :: nat where "argonSaltLen = 16"

text \<open>The constant \<^verbatim>\<open>argon2.Version\<close>.\<close>

definition argonVersion :: nat where "argonVersion = 19"

type_synonym kdf = "string \<Rightarrow> string \<Rightarrow> nat \<Rightarrow> nat \<Rightarrow> nat \<Rightarrow> nat \<Rightarrow> string"

definition encode_hash :: "string \<Rightarrow> string \<Rightarrow> string" where
  "encode_hash salt key =
     ''$argon2id$v='' @ show_nat argonVersion @ ''$m='' @ show_nat argonMemory @ '',t='' @ show_nat argonTime @
     '',p='' @ show_nat argonThreads @ ''$'' @ RawStdEncode salt @ ''$'' @ RawStdEncode key"

definition HashPassword :: "kdf \<Rightarrow> string \<Rightarrow> ('db, 'e, string) io" where
  "HashPassword IDKey password =
     do { salt \<leftarrow> rand_Read argonSaltLen;
          check salt (Wrap ''generate salt'') (\<lambda>salt.
            ok (encode_hash salt (IDKey password salt argonTime argonMemory argonThreads argonKeyLen))) }"

text \<open>\<open>None\<close> is \<^verbatim>\<open>errMalformedHash\<close>.\<close>

definition VerifyPassword :: "kdf \<Rightarrow> string \<Rightarrow> string \<Rightarrow> bool option" where
  "VerifyPassword IDKey password encodedHash =
     (let parts = Split encodedHash CHR ''$'' in
      if length parts \<noteq> 6 \<or> parts ! 1 \<noteq> ''argon2id'' then None
      else
        (case Sscanf [Lit CHR ''v'', Lit CHR ''='', ScanInt] (parts ! 2) of
           None \<Rightarrow> None
         | Some _ \<Rightarrow>
             (case Sscanf [Lit CHR ''m'', Lit CHR ''='', ScanUint 32, Lit CHR '','', Lit CHR ''t'', Lit CHR ''='',
                           ScanUint 32, Lit CHR '','', Lit CHR ''p'', Lit CHR ''='', ScanUint 8] (parts ! 3) of
                Some [memory, time, threads] \<Rightarrow>
                  (case RawStdDecode (parts ! 4) of
                     None \<Rightarrow> None
                   | Some salt \<Rightarrow>
                       (case RawStdDecode (parts ! 5) of
                          None \<Rightarrow> None
                        | Some expected \<Rightarrow>
                            Some (IDKey password salt (nat time) (nat memory) (nat threads)
                                    (length expected mod 2 ^ 32) = expected)))
              | _ \<Rightarrow> None)))"

lemma show_constants:
  "show_nat argonVersion = ''19''" "show_nat argonMemory = ''65536''" "show_nat argonTime = ''1''"
  "show_nat argonThreads = ''4''"
  by (simp_all add: argonVersion_def argonMemory_def argonTime_def argonThreads_def show_nat.simps digit_char_def)
    (simp_all add: char_of_def bit_0)

lemma dollar_free: "CHR ''$'' \<notin> set (RawStdEncode bs)"
  using set_RawStdEncode [of bs] std_no_break by blast

lemma Split_hash:
  "Split (encode_hash salt key) CHR ''$'' =
     ['''', ''argon2id'', ''v=19'', ''m=65536,t=1,p=4'', RawStdEncode salt, RawStdEncode key]"
proof -
  have "encode_hash salt key = '''' @ CHR ''$'' # ''argon2id'' @ CHR ''$'' # ''v=19'' @ CHR ''$'' #
      ''m=65536,t=1,p=4'' @ CHR ''$'' # RawStdEncode salt @ CHR ''$'' # RawStdEncode key"
    by (simp add: encode_hash_def show_constants)
  then show ?thesis by (simp only: Split_append_sep Split_no_sep dollar_free) (simp add: Split_append_sep Split_no_sep dollar_free)
qed

lemma skip_space_digit: "is_digit c \<Longrightarrow> skip_space (c # s) = c # s"
proof -
  assume "is_digit c"
  then have "\<forall>p \<in> set go_spaces. \<not> HasPrefix (c # s) p"
    by (auto simp: go_spaces_def HasPrefix_def is_digit_def char_digit_def Let_def split: if_splits)
  then show ?thesis by (auto simp: skip_space_def intro!: trim_with_stop)
qed

lemma Sscanf_version: "Sscanf [Lit CHR ''v'', Lit CHR ''='', ScanInt] ''v=19'' = Some [19]"
  by (simp add: scan_int_def skip_space_digit scan_number_def is_digit_def char_digit_def Let_def)

lemma Sscanf_params:
  "Sscanf [Lit CHR ''m'', Lit CHR ''='', ScanUint 32, Lit CHR '','', Lit CHR ''t'', Lit CHR ''='',
      ScanUint 32, Lit CHR '','', Lit CHR ''p'', Lit CHR ''='', ScanUint 8] ''m=65536,t=1,p=4'' =
   Some [65536, 1, 4]"
  by (simp add: scan_uint_def skip_space_digit scan_number_def is_digit_def char_digit_def Let_def)

lemma VerifyPassword_encode:
  "VerifyPassword IDKey password (encode_hash salt key) =
     Some (IDKey password salt argonTime argonMemory argonThreads (length key mod 2 ^ 32) = key)"
  unfolding VerifyPassword_def Split_hash
  by (simp add: Sscanf_version Sscanf_params RawStd_roundtrip argonTime_def argonMemory_def argonThreads_def
      del: Sscanf.simps)

end
