(* ===== verification/AuthDB.thy ===== *)
theory AuthDB
  imports Relay Password
begin

text \<open>
  The auth service's database and its store (\<^verbatim>\<open>internal/user/queries.go\<close>, \<^verbatim>\<open>store.go\<close>,
  the migrations, and \<^verbatim>\<open>internal/outbox\<close>): users, email verifications and refresh tokens with
  their keys, the SQL statements, the store operations, and the invariant \<open>auth_wf\<close> of the
  schema that every statement keeps. \<^verbatim>\<open>gen_random_uuid()\<close> draws from \<open>uuid_source\<close>.
\<close>

datatype auth_sentinel =
    ErrEmailTaken | ErrInvalidEmailFormat | ErrWeakPassword | ErrInvalidCredentials | ErrEmailNotVerified
  | ErrTokenNotFound | ErrTokenExpired | ErrTokenUsed | ErrRefreshTokenInvalid

type_synonym auth_error = "auth_sentinel error"

section \<open>Tables\<close>

record User =
  us_ID :: string
  us_Email :: string
  us_PasswordHash :: string
  us_EmailVerified :: bool

record Verification =
  ve_UserID :: string
  ve_ExpiresAt :: int
  ve_UsedAt :: "int option"

record verification_row = Verification +
  ve_Token :: string

record refresh_row =
  rr_UserID :: string
  rr_TokenHash :: string
  rr_ExpiresAt :: int
  rr_RevokedAt :: "int option"

record RefreshToken =
  rt_UserID :: string
  rt_Email :: string
  rt_ExpiresAt :: int
  rt_RevokedAt :: "int option"

record auth_db =
  users :: "User list"
  email_verifications :: "verification_row list"
  refresh_tokens :: "refresh_row list"
  auth_outbox :: outbox_table
  uuid_source :: "nat \<Rightarrow> string"
  uuid_count :: nat

definition empty_auth_db :: "(nat \<Rightarrow> string) \<Rightarrow> auth_db" where
  "empty_auth_db uuids = \<lparr>users = [], email_verifications = [], refresh_tokens = [],
     auth_outbox = \<lparr>ob_rows = [], ob_seq = 1\<rparr>, uuid_source = uuids, uuid_count = 0\<rparr>"

type_synonym 'a auth_io = "(auth_db, auth_sentinel, 'a) io"

section \<open>Statements\<close>

definition insert_user :: "string \<Rightarrow> string \<Rightarrow> auth_db \<Rightarrow> auth_db" where
  "insert_user email passwordHash d =
     d\<lparr>users := users d @ [\<lparr>us_ID = uuid_source d (uuid_count d), us_Email = email,
          us_PasswordHash = passwordHash, us_EmailVerified = False\<rparr>],
       uuid_count := uuid_count d + 1\<rparr>"

definition insertUserQuery :: "string \<Rightarrow> string \<Rightarrow> (auth_db, string option) stmt" where
  "insertUserQuery email passwordHash now d =
     (if \<exists>u \<in> set (users d). us_ID u = uuid_source d (uuid_count d) then Inl (UniqueViolation, ''users_pkey'')
      else if \<exists>u \<in> set (users d). us_Email u = email then Inl (UniqueViolation, ''users_email_key'')
      else Inr (Some (uuid_source d (uuid_count d)), insert_user email passwordHash d))"

definition getUserByEmailQuery :: "string \<Rightarrow> (auth_db, User option) stmt" where
  "getUserByEmailQuery email now d = Inr (find (\<lambda>u. us_Email u = email) (users d), d)"

definition insertVerificationQuery :: "string \<Rightarrow> string \<Rightarrow> int \<Rightarrow> (auth_db, nat) stmt" where
  "insertVerificationQuery token userID expiresAt now d =
     (if \<exists>v \<in> set (email_verifications d). ve_Token v = token
        then Inl (UniqueViolation, ''email_verifications_pkey'')
      else if \<not> (\<exists>u \<in> set (users d). us_ID u = userID)
        then Inl (ForeignKeyViolation, ''email_verifications_user_id_fkey'')
      else Inr (1, d\<lparr>email_verifications := email_verifications d @
                  [\<lparr>ve_UserID = userID, ve_ExpiresAt = expiresAt, ve_UsedAt = None, ve_Token = token\<rparr>]\<rparr>))"

definition getVerificationForUpdateQuery :: "string \<Rightarrow> (auth_db, Verification option) stmt" where
  "getVerificationForUpdateQuery token now d =
     Inr (map_option Verification.truncate (find (\<lambda>v. ve_Token v = token) (email_verifications d)), d)"

definition use_verification :: "string \<Rightarrow> int \<Rightarrow> auth_db \<Rightarrow> auth_db" where
  "use_verification token now d =
     d\<lparr>email_verifications := update_where (\<lambda>v. ve_Token v = token) (\<lambda>v. v\<lparr>ve_UsedAt := Some now\<rparr>)
         (email_verifications d)\<rparr>"

definition markVerificationUsedQuery :: "string \<Rightarrow> (auth_db, nat) stmt" where
  "markVerificationUsedQuery token now d =
     Inr (count_where (\<lambda>v. ve_Token v = token) (email_verifications d), use_verification token now d)"

definition verify_user :: "string \<Rightarrow> auth_db \<Rightarrow> auth_db" where
  "verify_user userID d =
     d\<lparr>users := update_where (\<lambda>u. us_ID u = userID) (\<lambda>u. u\<lparr>us_EmailVerified := True\<rparr>) (users d)\<rparr>"

definition markUserVerifiedQuery :: "string \<Rightarrow> (auth_db, nat) stmt" where
  "markUserVerifiedQuery userID now d =
     Inr (count_where (\<lambda>u. us_ID u = userID) (users d), verify_user userID d)"

definition insert_refresh :: "string \<Rightarrow> string \<Rightarrow> int \<Rightarrow> auth_db \<Rightarrow> auth_db" where
  "insert_refresh userID tokenHash expiresAt d =
     d\<lparr>refresh_tokens := refresh_tokens d @
         [\<lparr>rr_UserID = userID, rr_TokenHash = tokenHash, rr_ExpiresAt = expiresAt, rr_RevokedAt = None\<rparr>]\<rparr>"

definition insertRefreshTokenQuery :: "string \<Rightarrow> string \<Rightarrow> int \<Rightarrow> (auth_db, nat) stmt" where
  "insertRefreshTokenQuery userID tokenHash expiresAt now d =
     (if \<exists>r \<in> set (refresh_tokens d). rr_TokenHash r = tokenHash
        then Inl (UniqueViolation, ''refresh_tokens_token_hash_key'')
      else if \<not> (\<exists>u \<in> set (users d). us_ID u = userID)
        then Inl (ForeignKeyViolation, ''refresh_tokens_user_id_fkey'')
      else Inr (1, insert_refresh userID tokenHash expiresAt d))"

text \<open>The join with \<^verbatim>\<open>users\<close>.\<close>

definition refresh_with_user :: "auth_db \<Rightarrow> string \<Rightarrow> RefreshToken option" where
  "refresh_with_user d tokenHash =
     (case find (\<lambda>r. rr_TokenHash r = tokenHash) (refresh_tokens d) of
        None \<Rightarrow> None
      | Some r \<Rightarrow> map_option (\<lambda>u. \<lparr>rt_UserID = rr_UserID r, rt_Email = us_Email u,
                                    rt_ExpiresAt = rr_ExpiresAt r, rt_RevokedAt = rr_RevokedAt r\<rparr>)
                    (find (\<lambda>u. us_ID u = rr_UserID r) (users d)))"

definition getRefreshTokenForUpdateQuery :: "string \<Rightarrow> (auth_db, RefreshToken option) stmt" where
  "getRefreshTokenForUpdateQuery tokenHash now d = Inr (refresh_with_user d tokenHash, d)"

definition revoke_refresh :: "string \<Rightarrow> int \<Rightarrow> auth_db \<Rightarrow> auth_db" where
  "revoke_refresh tokenHash now d =
     d\<lparr>refresh_tokens := update_where (\<lambda>r. rr_TokenHash r = tokenHash \<and> rr_RevokedAt r = None)
         (\<lambda>r. r\<lparr>rr_RevokedAt := Some now\<rparr>) (refresh_tokens d)\<rparr>"

definition revokeRefreshTokenQuery :: "string \<Rightarrow> (auth_db, nat) stmt" where
  "revokeRefreshTokenQuery tokenHash now d =
     Inr (count_where (\<lambda>r. rr_TokenHash r = tokenHash \<and> rr_RevokedAt r = None) (refresh_tokens d),
          revoke_refresh tokenHash now d)"

lemmas auth_queries [db_simps] =
  insertUserQuery_def getUserByEmailQuery_def insertVerificationQuery_def getVerificationForUpdateQuery_def
  markVerificationUsedQuery_def markUserVerifiedQuery_def insertRefreshTokenQuery_def
  getRefreshTokenForUpdateQuery_def revokeRefreshTokenQuery_def

section \<open>Store\<close>

definition CreateUser :: "dbtx \<Rightarrow> string \<Rightarrow> string \<Rightarrow> string auth_io" where
  "CreateUser q email passwordHash =
     do { r \<leftarrow> QueryRow q (insertUserQuery email passwordHash);
          ret (case r of
            Inl e \<Rightarrow>
              (case as_PgError e of
                 Some (code, cn) \<Rightarrow>
                   if code = UniqueViolation then Inl (Sentinel ErrEmailTaken) else Inl (Wrap ''insert user'' e)
               | None \<Rightarrow> Inl (Wrap ''insert user'' e))
          | Inr i \<Rightarrow> Inr i) }"

definition GetByEmail :: "dbtx \<Rightarrow> string \<Rightarrow> User auth_io" where
  "GetByEmail q email =
     do { r \<leftarrow> QueryRow q (getUserByEmailQuery email);
          ret (case r of
            Inl e \<Rightarrow> if errors_Is e ErrNoRows then Inl (Sentinel ErrInvalidCredentials)
                     else Inl (Wrap ''get user by email'' e)
          | Inr u \<Rightarrow> Inr u) }"

definition InsertVerification :: "dbtx \<Rightarrow> string \<Rightarrow> string \<Rightarrow> int \<Rightarrow> unit auth_io" where
  "InsertVerification q token userID expiresAt =
     do { r \<leftarrow> Exec q (insertVerificationQuery token userID expiresAt);
          check r (Wrap ''insert email verification'') (\<lambda>_. ok ()) }"

definition GetVerificationForUpdate :: "dbtx \<Rightarrow> string \<Rightarrow> Verification auth_io" where
  "GetVerificationForUpdate q token =
     do { r \<leftarrow> QueryRow q (getVerificationForUpdateQuery token);
          ret (case r of
            Inl e \<Rightarrow> if errors_Is e ErrNoRows then Inl (Sentinel ErrTokenNotFound)
                     else Inl (Wrap ''get email verification'' e)
          | Inr v \<Rightarrow> Inr v) }"

definition MarkVerificationUsed :: "dbtx \<Rightarrow> string \<Rightarrow> unit auth_io" where
  "MarkVerificationUsed q token =
     do { r \<leftarrow> Exec q (markVerificationUsedQuery token);
          check r (Wrap ''mark verification used'') (\<lambda>_. ok ()) }"

definition MarkUserVerified :: "dbtx \<Rightarrow> string \<Rightarrow> unit auth_io" where
  "MarkUserVerified q userID =
     do { r \<leftarrow> Exec q (markUserVerifiedQuery userID);
          check r (Wrap ''mark user verified'') (\<lambda>_. ok ()) }"

definition InsertRefreshToken :: "dbtx \<Rightarrow> string \<Rightarrow> string \<Rightarrow> int \<Rightarrow> unit auth_io" where
  "InsertRefreshToken q userID tokenHash expiresAt =
     do { r \<leftarrow> Exec q (insertRefreshTokenQuery userID tokenHash expiresAt);
          check r (Wrap ''insert refresh token'') (\<lambda>_. ok ()) }"

definition GetRefreshTokenForUpdate :: "dbtx \<Rightarrow> string \<Rightarrow> RefreshToken auth_io" where
  "GetRefreshTokenForUpdate q tokenHash =
     do { r \<leftarrow> QueryRow q (getRefreshTokenForUpdateQuery tokenHash);
          ret (case r of
            Inl e \<Rightarrow> if errors_Is e ErrNoRows then Inl (Sentinel ErrRefreshTokenInvalid)
                     else Inl (Wrap ''get refresh token'' e)
          | Inr rt \<Rightarrow> Inr rt) }"

definition RevokeRefreshToken :: "dbtx \<Rightarrow> string \<Rightarrow> unit auth_io" where
  "RevokeRefreshToken q tokenHash =
     do { r \<leftarrow> Exec q (revokeRefreshTokenQuery tokenHash);
          check r (Wrap ''revoke refresh token'') (\<lambda>_. ok ()) }"

lemmas auth_store_defs = CreateUser_def GetByEmail_def InsertVerification_def GetVerificationForUpdate_def
  MarkVerificationUsed_def MarkUserVerified_def InsertRefreshToken_def GetRefreshTokenForUpdate_def
  RevokeRefreshToken_def

section \<open>The outbox and its relay\<close>

definition auth_Insert :: "dbtx \<Rightarrow> string \<Rightarrow> bytes \<Rightarrow> unit auth_io" where
  "auth_Insert q subject payload = outbox_Insert auth_outbox_update ''insert outbox row'' q subject payload"

definition auth_FetchForUpdate :: "nat \<Rightarrow> OutboxRow list auth_io" where
  "auth_FetchForUpdate = outbox_FetchForUpdate auth_outbox ''fetch pending outbox rows''"

definition auth_MarkPublished :: "int list \<Rightarrow> unit auth_io" where
  "auth_MarkPublished = outbox_MarkPublished auth_outbox auth_outbox_update ''mark outbox rows published''"

definition auth_msgID :: "int \<Rightarrow> string" where
  "auth_msgID i = ''auth-'' @ FormatInt i"

definition auth_publishPending :: "unit auth_io" where
  "auth_publishPending = publish_pending auth_FetchForUpdate auth_MarkPublished auth_msgID"

lemma auth_msgID_inj: "inj auth_msgID"
  by (rule injI) (simp add: auth_msgID_def FormatInt_inj)

interpretation auth_relay: outbox_store auth_outbox auth_FetchForUpdate auth_MarkPublished
  "Wrap ''fetch pending outbox rows'' (Opaque ''connection failure'')"
  "Wrap ''mark outbox rows published'' (Opaque ''connection failure'')"
  "\<lambda>ids now. auth_outbox_update (mark_rows ids now)"
  "\<lambda>subject payload. auth_outbox_update (insert_row subject payload)"
  by standard (simp_all add: auth_FetchForUpdate_def auth_MarkPublished_def outbox_Fetch_stmt outbox_Mark_stmt)

section \<open>The invariant of the schema\<close>

definition auth_wf :: "auth_db \<Rightarrow> bool" where
  "auth_wf d \<longleftrightarrow>
     distinct (map us_ID (users d)) \<and> distinct (map us_Email (users d)) \<and>
     distinct (map ve_Token (email_verifications d)) \<and>
     (\<forall>v \<in> set (email_verifications d). \<exists>u \<in> set (users d). us_ID u = ve_UserID v) \<and>
     distinct (map rr_TokenHash (refresh_tokens d)) \<and>
     (\<forall>r \<in> set (refresh_tokens d). \<exists>u \<in> set (users d). us_ID u = rr_UserID r) \<and>
     outbox_wf (auth_outbox d)"

lemma auth_wf_empty [simp]: "auth_wf (empty_auth_db uuids)"
  by (simp add: auth_wf_def empty_auth_db_def outbox_wf_def)

lemma auth_wf_updates:
  assumes "auth_wf d"
  shows "auth_wf (use_verification token now d)" "auth_wf (verify_user userID d)"
    "auth_wf (revoke_refresh h now d)"
    "(\<And>t. outbox_wf t \<Longrightarrow> outbox_wf (f t)) \<Longrightarrow> auth_wf (auth_outbox_update f d)"
  using assms by (auto simp: auth_wf_def use_verification_def verify_user_def revoke_refresh_def)

end
