(* ===== verification/Auth.thy ===== *)
theory Auth
  imports AuthDB
begin

text \<open>
  The use cases of the auth service (\<^verbatim>\<open>internal/user/usecase\<close>) and its token signer
  (\<^verbatim>\<open>internal/token\<close>): register, verify, login, refresh, logout. The cryptography is a
  parameter, the record \<open>crypto\<close>: argon2id, SHA-256, the JWT signature, the key file formats;
  so are the Unicode half of \<^verbatim>\<open>strings.ToLower\<close> and \<^verbatim>\<open>mail.ParseAddress\<close>. Instants and
  durations are integers of nanoseconds.
\<close>

section \<open>Tokens\<close>

record claims =
  cl_sub :: string
  cl_email :: string
  cl_iat :: int
  cl_exp :: int

record crypto =
  cy_IDKey :: kdf
  cy_Sum256 :: "string \<Rightarrow> string"
  cy_SignedString :: "string \<Rightarrow> string \<Rightarrow> claims \<Rightarrow> string option"
  cy_ToLower :: "string \<Rightarrow> string"
  cy_ParseAddress :: "string \<Rightarrow> string option"

record TokenPair =
  tp_AccessToken :: string
  tp_RefreshToken :: string

definition newRawToken :: "('db, 'e, string) io" where
  "newRawToken =
     do { b \<leftarrow> rand_Read 32;
          check b (Wrap ''generate token'') (\<lambda>b. ok (hex_EncodeToString b)) }"

definition hashToken :: "crypto \<Rightarrow> string \<Rightarrow> string" where
  "hashToken cy raw = hex_EncodeToString (cy_Sum256 cy raw)"

definition Algorithm :: string where "Algorithm = ''ES256''"

record Signer =
  si_key :: string
  si_kid :: string
  si_publicPEM :: string
  si_ttl :: int

text \<open>\<^verbatim>\<open>LoadSigner\<close>: the file system and the key formats are its parameters.\<close>

record key_formats =
  kf_ReadFile :: "string \<Rightarrow> string + string"
  kf_ParseECPrivateKeyFromPEM :: "string \<Rightarrow> string + string"
  kf_MarshalPKIXPublicKey :: "string \<Rightarrow> string + string"
  kf_EncodeToMemory :: "string \<Rightarrow> string option"

definition LoadSigner :: "key_formats \<Rightarrow> crypto \<Rightarrow> string \<Rightarrow> int \<Rightarrow> auth_error + Signer" where
  "LoadSigner kf cy privateKeyPath ttl =
     (case kf_ReadFile kf privateKeyPath of
        Inl e \<Rightarrow> Inl (Wrap ''read jwt private key'' (Opaque e))
      | Inr raw \<Rightarrow>
          (case kf_ParseECPrivateKeyFromPEM kf raw of
             Inl e \<Rightarrow> Inl (Wrap ''parse jwt private key'' (Opaque e))
           | Inr key \<Rightarrow>
               (case kf_MarshalPKIXPublicKey kf key of
                  Inl e \<Rightarrow> Inl (Wrap ''marshal jwt public key'' (Opaque e))
                | Inr spki \<Rightarrow>
                    (case kf_EncodeToMemory kf spki of
                       None \<Rightarrow> Inl (Opaque ''encode jwt public key PEM'')
                     | Some publicPEM \<Rightarrow>
                         Inr \<lparr>si_key = key, si_kid = hex_EncodeToString (take 8 (cy_Sum256 cy spki)),
                              si_publicPEM = publicPEM, si_ttl = ttl\<rparr>))))"

definition Unix :: "int \<Rightarrow> int" where
  "Unix t = t div 1000000000"

definition Issue :: "crypto \<Rightarrow> Signer \<Rightarrow> string \<Rightarrow> string \<Rightarrow> ('db, 'e, string) io" where
  "Issue cy s userID email =
     do { now \<leftarrow> time_Now;
          ret (case cy_SignedString cy (si_key s) (si_kid s)
                      \<lparr>cl_sub = userID, cl_email = email, cl_iat = Unix now, cl_exp = Unix (now + si_ttl s)\<rparr> of
                 None \<Rightarrow> Inl (Wrap ''sign access token'' (Opaque ''sign''))
               | Some signed \<Rightarrow> Inr signed) }"

record signing_key =
  sk_Kid :: string
  sk_PublicKeyPem :: string
  sk_Algorithm :: string

definition GetSigningKey :: "Signer \<Rightarrow> signing_key" where
  "GetSigningKey keys = \<lparr>sk_Kid = si_kid keys, sk_PublicKeyPem = si_publicPEM keys, sk_Algorithm = Algorithm\<rparr>"

section \<open>Register\<close>

definition minPasswordLen :: nat where "minPasswordLen = 8"

definition ToLower :: "crypto \<Rightarrow> string \<Rightarrow> string" where
  "ToLower cy s = (if \<forall>c \<in> set s. (of_char c :: nat) < 128 then map lower_char s else cy_ToLower cy s)"

definition normalizeEmail :: "crypto \<Rightarrow> string \<Rightarrow> auth_error + string" where
  "normalizeEmail cy email =
     (let email = ToLower cy (TrimSpace email) in
      case cy_ParseAddress cy email of
        None \<Rightarrow> Inl (Sentinel ErrInvalidEmailFormat)
      | Some addr \<Rightarrow> if addr \<noteq> email then Inl (Sentinel ErrInvalidEmailFormat) else Inr email)"

definition register_tx :: "int \<Rightarrow> string \<Rightarrow> string \<Rightarrow> string \<Rightarrow> bytes \<Rightarrow> unit auth_io" where
  "register_tx verifyTTL email passwordHash verifyToken payload =
     do { tx \<leftarrow> BeginTx;
          check tx (Wrap ''begin register tx'') (\<lambda>_. defer_Rollback (do {
            u \<leftarrow> CreateUser Tx email passwordHash;
            check u id (\<lambda>userID. do {
              now \<leftarrow> time_Now;
              v \<leftarrow> InsertVerification Tx verifyToken userID (now + verifyTTL);
              check v id (\<lambda>_. do {
                r \<leftarrow> auth_Insert Tx SubjectVerifyEmail payload;
                check r id (\<lambda>_. Commit) }) }) })) }"

definition Register_Execute :: "crypto \<Rightarrow> int \<Rightarrow> string \<Rightarrow> string \<Rightarrow> unit auth_io" where
  "Register_Execute cy verifyTTL email password =
     (case normalizeEmail cy email of
        Inl e \<Rightarrow> err e
      | Inr email \<Rightarrow>
          if length password < minPasswordLen then err (Sentinel ErrWeakPassword)
          else do {
            h \<leftarrow> HashPassword (cy_IDKey cy) password;
            check h id (\<lambda>passwordHash. do {
              t \<leftarrow> newRawToken;
              check t id (\<lambda>verifyToken.
                register_tx verifyTTL email passwordHash verifyToken
                  (Marshal_VerificationRequested \<lparr>vr_Email = email, vr_VerifyToken = verifyToken\<rparr>)) }) })"

section \<open>Verify\<close>

definition VerifyEmail_Execute :: "string \<Rightarrow> unit auth_io" where
  "VerifyEmail_Execute token =
     do { tx \<leftarrow> BeginTx;
          check tx (Wrap ''begin verify tx'') (\<lambda>_. defer_Rollback (do {
            v \<leftarrow> GetVerificationForUpdate Tx token;
            check v id (\<lambda>verification.
              if ve_UsedAt verification \<noteq> None then err (Sentinel ErrTokenUsed)
              else do {
                now \<leftarrow> time_Now;
                if ve_ExpiresAt verification < now then err (Sentinel ErrTokenExpired)
                else do {
                  r \<leftarrow> MarkVerificationUsed Tx token;
                  check r id (\<lambda>_. do {
                    r \<leftarrow> MarkUserVerified Tx (ve_UserID verification);
                    check r id (\<lambda>_. Commit) }) } }) })) }"

section \<open>Login, refresh, logout\<close>

definition Login_Execute :: "crypto \<Rightarrow> Signer \<Rightarrow> int \<Rightarrow> string \<Rightarrow> string \<Rightarrow> TokenPair auth_io" where
  "Login_Execute cy issuer refreshTTL email password =
     (case normalizeEmail cy email of
        Inl e \<Rightarrow> err (Sentinel ErrInvalidCredentials)
      | Inr email \<Rightarrow> do {
          r \<leftarrow> GetByEmail Pool email;
          check r id (\<lambda>u.
            if VerifyPassword (cy_IDKey cy) password (us_PasswordHash u) \<noteq> Some True
            then err (Sentinel ErrInvalidCredentials)
            else if \<not> us_EmailVerified u then err (Sentinel ErrEmailNotVerified)
            else do {
              a \<leftarrow> Issue cy issuer (us_ID u) (us_Email u);
              check a id (\<lambda>accessToken. do {
                t \<leftarrow> newRawToken;
                check t id (\<lambda>refreshToken. do {
                  now \<leftarrow> time_Now;
                  i \<leftarrow> InsertRefreshToken Pool (us_ID u) (hashToken cy refreshToken) (now + refreshTTL);
                  check i id (\<lambda>_.
                    ok \<lparr>tp_AccessToken = accessToken, tp_RefreshToken = refreshToken\<rparr>) }) }) }) })"

definition Refresh_Execute :: "crypto \<Rightarrow> Signer \<Rightarrow> int \<Rightarrow> string \<Rightarrow> TokenPair auth_io" where
  "Refresh_Execute cy issuer refreshTTL rawToken =
     (let oldHash = hashToken cy rawToken in
      do { tx \<leftarrow> BeginTx;
           check tx (Wrap ''begin refresh tx'') (\<lambda>_. defer_Rollback (do {
             s \<leftarrow> GetRefreshTokenForUpdate Tx oldHash;
             check s id (\<lambda>stored. do {
               dead \<leftarrow> (if rt_RevokedAt stored \<noteq> None then ret True
                        else do { now \<leftarrow> time_Now; ret (rt_ExpiresAt stored < now) });
               if dead then err (Sentinel ErrRefreshTokenInvalid)
               else do {
                 r \<leftarrow> RevokeRefreshToken Tx oldHash;
                 check r id (\<lambda>_. do {
                   t \<leftarrow> newRawToken;
                   check t id (\<lambda>newToken. do {
                     now \<leftarrow> time_Now;
                     i \<leftarrow> InsertRefreshToken Tx (rt_UserID stored) (hashToken cy newToken) (now + refreshTTL);
                     check i id (\<lambda>_. do {
                       a \<leftarrow> Issue cy issuer (rt_UserID stored) (rt_Email stored);
                       check a id (\<lambda>accessToken. do {
                         c \<leftarrow> Commit;
                         check c (Wrap ''commit refresh tx'') (\<lambda>_.
                           ok \<lparr>tp_AccessToken = accessToken, tp_RefreshToken = newToken\<rparr>) }) }) }) }) } }) })) })"

definition Logout_Execute :: "crypto \<Rightarrow> string \<Rightarrow> unit auth_io" where
  "Logout_Execute cy rawToken = RevokeRefreshToken Pool (hashToken cy rawToken)"

lemmas auth_uses = Register_Execute_def register_tx_def VerifyEmail_Execute_def Login_Execute_def
  Refresh_Execute_def Logout_Execute_def HashPassword_def newRawToken_def Issue_def auth_Insert_def outbox_Insert_def

end
