(* ===== verification/AuthFacts.thy ===== *)
theory AuthFacts
  imports Auth
begin

text \<open>
  What the use cases of the auth service do to its database under every pattern of failures, and
  the runs of the service: a refresh token that was exchanged or logged out is never accepted
  again, and a verified address has received the token that verified it.
\<close>

section \<open>Inside a transaction\<close>

text \<open>\<open>in_tx w d v\<close>: \<open>v\<close> is reached from \<open>w\<close>, inside a transaction whose copy is \<open>d\<close>.\<close>

definition in_tx :: "'db world \<Rightarrow> 'db \<Rightarrow> 'db world \<Rightarrow> bool" where
  "in_tx w d v \<longleftrightarrow> txn v = Some (d, False) \<and> committed v = committed w \<and> pg_clock v = pg_clock w \<and>
     go_clock w \<le> go_clock v"

lemma next_drift_nonneg [simp]: "0 \<le> next_drift ds"
  by (simp add: next_drift_def split: list.splits)

text \<open>Each step of a handler continues in the transaction or fails with the committed database as it was.\<close>

lemma wp_tx_Begin:
  assumes "txn w = None"
    and "\<And>e v. committed v = committed w \<Longrightarrow> txn v = None \<Longrightarrow> Q (Inl e) v"
    and "\<And>v. in_tx w (committed w) v \<Longrightarrow> Q (Inr ()) v"
  shows "wp BeginTx Q w"
  using assms by (simp add: wp_BeginTx Let_def in_tx_def split: fault.splits)

lemma wp_tx_call:
  assumes "in_tx w d v"
    and "\<And>e v'. committed v' = committed w \<Longrightarrow> Q (Inl e) v'"
    and "\<And>r d' v'. s (pg_clock w) d = Inr (r, d') \<Longrightarrow> in_tx w d' v' \<Longrightarrow> Q (Inr r) v'"
  shows "wp (call Tx s) Q v"
  using assms by (simp add: wp_call_Tx Let_def in_tx_def split: fault.splits sum.splits prod.splits)

lemma wp_tx_QueryRow:
  assumes "in_tx w d v"
    and "\<And>e v'. committed v' = committed w \<Longrightarrow> Q (Inl e) v'"
    and "\<And>x d' v'. s (pg_clock w) d = Inr (Some x, d') \<Longrightarrow> in_tx w d' v' \<Longrightarrow> Q (Inr x) v'"
  shows "wp (QueryRow Tx s) Q v"
  unfolding wp_QueryRow
  by (rule wp_tx_call [OF assms(1)]) (use assms in \<open>auto simp: in_tx_def split: option.splits\<close>)

lemma wp_tx_Now:
  assumes "in_tx w d v" and "\<And>t v'. in_tx w d v' \<Longrightarrow> go_clock w \<le> t \<Longrightarrow> Q t v'"
  shows "wp time_Now Q v"
proof -
  have "go_clock w \<le> go_clock v + next_drift (drift v)"
    using assms(1) next_drift_nonneg [of "drift v"] unfolding in_tx_def by linarith
  then show ?thesis using assms by (simp add: wp_time_Now Let_def in_tx_def)
qed

lemma wp_tx_Commit:
  assumes "in_tx w d v"
    and "\<And>e v'. committed v' = committed w \<Longrightarrow> Q (Inl e) v'"
    and "\<And>r v'. committed v' = d \<Longrightarrow> Q r v'"
  shows "wp Commit Q v"
  using assms by (simp add: wp_Commit Let_def in_tx_def split: fault.splits)

section \<open>Register\<close>

definition registrable :: "string \<Rightarrow> string \<Rightarrow> auth_db \<Rightarrow> bool" where
  "registrable email token d \<longleftrightarrow>
     (\<forall>u \<in> set (users d). us_ID u \<noteq> uuid_source d (uuid_count d) \<and> us_Email u \<noteq> email) \<and>
     (\<forall>v \<in> set (email_verifications d). ve_Token v \<noteq> token)"

text \<open>The new user, its verification and the event that mails the token.\<close>

definition registered :: "string \<Rightarrow> string \<Rightarrow> string \<Rightarrow> int \<Rightarrow> bytes \<Rightarrow> auth_db \<Rightarrow> auth_db" where
  "registered email passwordHash token expiresAt payload d =
     auth_outbox_update (insert_row SubjectVerifyEmail payload)
       (insert_user email passwordHash d\<lparr>
          email_verifications := email_verifications d @
            [\<lparr>ve_UserID = uuid_source d (uuid_count d), ve_ExpiresAt = expiresAt, ve_UsedAt = None,
              ve_Token = token\<rparr>]\<rparr>)"

lemma wp_register_tx:
  assumes "txn w = None"
  shows "wp (register_tx ttl email hash token payload) (\<lambda>r w'. txn w' = None \<and>
    (r \<noteq> Inr () \<and> committed w' = committed w
     \<or> registrable email token (committed w) \<and>
       committed w' = registered email hash token (go_clock w + next_drift (drift w) + ttl) payload (committed w))) w"
  using assms
  by (auto simp: register_tx_def CreateUser_def InsertVerification_def auth_Insert_def outbox_Insert_def wp_simps
      insertUserQuery_def insertVerificationQuery_def insertOutboxQuery_def Let_def registrable_def
      registered_def insert_user_def split: fault.splits)

text \<open>Hashing and drawing tokens do not touch the database.\<close>

lemma wp_HashPassword:
  "wp (HashPassword kdf password) Q w =
     (case entropy w of
        [] \<Rightarrow> Q (Inl (Wrap ''generate salt'' (Opaque ''entropy''))) w
      | b # bs \<Rightarrow> (let salt = take argonSaltLen (b @ replicate argonSaltLen CHR 0x00) in
          Q (Inr (encode_hash salt (kdf password salt argonTime argonMemory argonThreads argonKeyLen)))
            (w\<lparr>entropy := bs\<rparr>)))"
  by (simp add: HashPassword_def wp_bind wp_rand_Read wp_check wp_return Let_def split: list.splits)

definition raw_token :: "string \<Rightarrow> string" where
  "raw_token b = hex_EncodeToString (take 32 (b @ replicate 32 CHR 0x00))"

lemma wp_newRawToken:
  "wp newRawToken Q w =
     (case entropy w of
        [] \<Rightarrow> Q (Inl (Wrap ''generate token'' (Opaque ''entropy''))) w
      | b # bs \<Rightarrow> Q (Inr (raw_token b)) (w\<lparr>entropy := bs\<rparr>))"
  by (simp add: newRawToken_def wp_bind wp_rand_Read wp_check wp_return raw_token_def split: list.splits)

definition verification_event :: "string \<Rightarrow> string \<Rightarrow> bytes" where
  "verification_event email token = Marshal_VerificationRequested \<lparr>vr_Email = email, vr_VerifyToken = token\<rparr>"

definition signed_up :: "string \<Rightarrow> string \<Rightarrow> string \<Rightarrow> int \<Rightarrow> auth_db \<Rightarrow> auth_db \<Rightarrow> bool" where
  "signed_up email passwordHash token expiresAt d d' \<longleftrightarrow> registrable email token d \<and>
     d' = registered email passwordHash token expiresAt (verification_event email token) d"

lemma wp_Register:
  assumes "txn w = None"
  shows "wp (Register_Execute cy ttl email password) (\<lambda>r w'. txn w' = None \<and>
    (r \<noteq> Inr () \<and> committed w' = committed w
     \<or> (\<exists>e salt token expiresAt. normalizeEmail cy email = Inr e \<and> minPasswordLen \<le> length password \<and>
          signed_up e (encode_hash salt (cy_IDKey cy password salt argonTime argonMemory argonThreads argonKeyLen))
            token expiresAt (committed w) (committed w')))) w"
proof (cases "normalizeEmail cy email")
  case (Inl e)
  then show ?thesis using assms by (simp add: Register_Execute_def wp_return)
next
  case (Inr e)
  have tx: "wp (register_tx ttl e h t (Marshal_VerificationRequested \<lparr>vr_Email = e, vr_VerifyToken = t\<rparr>))
      (\<lambda>r w'. txn w' = None \<and> (r \<noteq> Inr () \<and> committed w' = committed w
        \<or> (\<exists>expiresAt. signed_up e h t expiresAt (committed w) (committed w')))) v"
    if "txn v = None" "committed v = committed w" for h t v
    unfolding signed_up_def verification_event_def
    by (rule wp_mono [OF wp_register_tx [OF that(1)]]) (auto simp: that(2))
  show ?thesis
    using assms
    by (auto simp: Register_Execute_def Inr wp_if wp_return wp_bind wp_HashPassword wp_check wp_newRawToken Let_def
        not_less split: list.splits intro!: wp_mono [OF tx])
qed

section \<open>Verify\<close>

definition verification :: "auth_db \<Rightarrow> string \<Rightarrow> verification_row option" where
  "verification d token = find (\<lambda>v. ve_Token v = token) (email_verifications d)"

definition verified :: "verification_row \<Rightarrow> int \<Rightarrow> auth_db \<Rightarrow> auth_db" where
  "verified v now d = verify_user (ve_UserID v) (use_verification (ve_Token v) now d)"

lemma truncate_simps [simp]:
  "ve_UserID (Verification.truncate v) = ve_UserID v" "ve_UsedAt (Verification.truncate v) = ve_UsedAt v"
  "ve_ExpiresAt (Verification.truncate v) = ve_ExpiresAt v"
  by (simp_all add: Verification.truncate_def)

lemma wp_VerifyEmail:
  assumes "txn w = None"
  shows "wp (VerifyEmail_Execute token) (\<lambda>r w'. txn w' = None \<and>
    (r \<noteq> Inr () \<and> committed w' = committed w
     \<or> (\<exists>v. verification (committed w) token = Some v \<and> ve_UsedAt v = None \<and>
          go_clock w \<le> go_clock w' \<and> go_clock w' \<le> ve_ExpiresAt v \<and>
          committed w' = verified v (pg_clock w) (committed w)))) w"
  using assms
  by (auto simp: VerifyEmail_Execute_def GetVerificationForUpdate_def MarkVerificationUsed_def MarkUserVerified_def
      wp_simps getVerificationForUpdateQuery_def markVerificationUsedQuery_def markUserVerifiedQuery_def Let_def
      verification_def verified_def next_drift_def dest: find_SomeD split: fault.splits option.splits list.splits)


section \<open>Login\<close>

text \<open>An access token of a user: its claims name the user, and it expires after the signer's TTL.\<close>

definition access_token :: "crypto \<Rightarrow> Signer \<Rightarrow> string \<Rightarrow> string \<Rightarrow> int \<Rightarrow> string \<Rightarrow> bool" where
  "access_token cy s userID email now tok \<longleftrightarrow>
     cy_SignedString cy (si_key s) (si_kid s)
       \<lparr>cl_sub = userID, cl_email = email, cl_iat = Unix now, cl_exp = Unix (now + si_ttl s)\<rparr> = Some tok"

lemma wp_Issue:
  "wp (Issue cy s userID email) Q w =
     (let t = go_clock w + next_drift (drift w); w' = w\<lparr>go_clock := t, drift := tl (drift w)\<rparr> in
      case cy_SignedString cy (si_key s) (si_kid s)
             \<lparr>cl_sub = userID, cl_email = email, cl_iat = Unix t, cl_exp = Unix (t + si_ttl s)\<rparr> of
        None \<Rightarrow> Q (Inl (Wrap ''sign access token'' (Opaque ''sign''))) w'
      | Some tok \<Rightarrow> Q (Inr tok) w')"
  by (simp add: Issue_def wp_bind wp_time_Now wp_return Let_def split: option.splits)

definition issued_since :: "int \<Rightarrow> crypto \<Rightarrow> Signer \<Rightarrow> string \<Rightarrow> string \<Rightarrow> string \<Rightarrow> bool" where
  "issued_since t cy s userID email tok \<longleftrightarrow> (\<exists>now \<ge> t. access_token cy s userID email now tok)"

lemma issuedI:
  "cy_SignedString cy (si_key s) (si_kid s)
     \<lparr>cl_sub = userID, cl_email = email, cl_iat = Unix (t + next_drift ds),
      cl_exp = Unix (t + next_drift ds + si_ttl s)\<rparr> = Some tok \<Longrightarrow>
   issued_since t cy s userID email tok"
  unfolding issued_since_def access_token_def by (rule exI [of _ "t + next_drift ds"]) simp

definition logs_in :: "crypto \<Rightarrow> string \<Rightarrow> string \<Rightarrow> User \<Rightarrow> auth_db \<Rightarrow> bool" where
  "logs_in cy email password u d \<longleftrightarrow> normalizeEmail cy email = Inr (us_Email u) \<and> u \<in> set (users d) \<and>
     VerifyPassword (cy_IDKey cy) password (us_PasswordHash u) = Some True \<and> us_EmailVerified u"

lemma wp_Login:
  assumes "txn w = None"
  shows "wp (Login_Execute cy s ttl email password) (\<lambda>r w'. txn w' = None \<and>
    (r \<in> range Inl \<and> committed w' = committed w
     \<or> (\<exists>u tok expiresAt. logs_in cy email password u (committed w) \<and>
          committed w' = insert_refresh (us_ID u) (hashToken cy tok) expiresAt (committed w) \<and>
          (\<forall>p. r = Inr p \<longrightarrow> tp_RefreshToken p = tok \<and>
             issued_since (go_clock w) cy s (us_ID u) (us_Email u) (tp_AccessToken p))))) w"
proof (cases "normalizeEmail cy email")
  case (Inl e)
  then show ?thesis using assms by (simp add: Login_Execute_def wp_return)
next
  case (Inr e)
  show ?thesis
    using assms
    apply (simp add: Login_Execute_def Inr GetByEmail_def InsertRefreshToken_def wp_simps wp_Issue wp_newRawToken
        getUserByEmailQuery_def insertRefreshTokenQuery_def Let_def logs_in_def
        split: fault.splits option.splits list.splits)
    apply (auto dest!: find_SomeD dest: issuedI)
    done
qed

section \<open>Refresh and logout\<close>

definition live :: "int \<Rightarrow> refresh_row \<Rightarrow> bool" where
  "live now r \<longleftrightarrow> rr_RevokedAt r = None \<and> now \<le> rr_ExpiresAt r"

text \<open>What the exchange of the token \<open>old\<close> for \<open>tok\<close> leaves in the database.\<close>

definition exchanged ::
  "crypto \<Rightarrow> string \<Rightarrow> refresh_row \<Rightarrow> User \<Rightarrow> string \<Rightarrow> int \<Rightarrow> int \<Rightarrow> auth_db \<Rightarrow> auth_db \<Rightarrow> bool" where
  "exchanged cy raw old u tok expiresAt now d d' \<longleftrightarrow>
     old \<in> set (refresh_tokens d) \<and> rr_TokenHash old = hashToken cy raw \<and> u \<in> set (users d) \<and>
     us_ID u = rr_UserID old \<and>
     d' = insert_refresh (us_ID u) (hashToken cy tok) expiresAt (revoke_refresh (hashToken cy raw) now d)"

lemma wp_tx_GetRefresh:
  assumes "in_tx w d v"
    and "\<And>e v'. committed v' = committed w \<Longrightarrow> Q (Inl e) v'"
    and "\<And>rt v'. refresh_with_user d h = Some rt \<Longrightarrow> in_tx w d v' \<Longrightarrow> Q (Inr rt) v'"
  shows "wp (GetRefreshTokenForUpdate Tx h) Q v"
  unfolding GetRefreshTokenForUpdate_def wp_bind
  by (rule wp_tx_QueryRow [OF assms(1)])
    (use assms(2,3) in \<open>auto simp: wp_return getRefreshTokenForUpdateQuery_def\<close>)

lemma wp_tx_Revoke:
  assumes "in_tx w d v"
    and "\<And>e v'. committed v' = committed w \<Longrightarrow> Q (Inl e) v'"
    and "\<And>v'. in_tx w (revoke_refresh h (pg_clock w) d) v' \<Longrightarrow> Q (Inr ()) v'"
  shows "wp (RevokeRefreshToken Tx h) Q v"
  unfolding RevokeRefreshToken_def wp_bind wp_Exec
  by (rule wp_tx_call [OF assms(1)]) (use assms(2,3) in \<open>auto simp: wp_check wp_return revokeRefreshTokenQuery_def\<close>)

lemma wp_tx_InsertRefresh:
  assumes "in_tx w d v"
    and "\<And>e v'. committed v' = committed w \<Longrightarrow> Q (Inl e) v'"
    and "\<And>v'. in_tx w (insert_refresh userID h expiresAt d) v' \<Longrightarrow> Q (Inr ()) v'"
  shows "wp (InsertRefreshToken Tx userID h expiresAt) Q v"
  unfolding InsertRefreshToken_def wp_bind wp_Exec
  by (rule wp_tx_call [OF assms(1)])
    (use assms(2,3) in \<open>auto simp: wp_check wp_return insertRefreshTokenQuery_def split: if_splits\<close>)

lemma wp_tx_rand:
  assumes "in_tx w d v" and "\<And>e v'. committed v' = committed w \<Longrightarrow> Q (Inl e) v'"
    and "\<And>tok v'. in_tx w d v' \<Longrightarrow> Q (Inr tok) v'"
  shows "wp newRawToken Q v"
  using assms by (auto simp: wp_newRawToken in_tx_def split: list.splits)

lemma wp_tx_Issue:
  assumes "in_tx w d v" and "\<And>e v'. committed v' = committed w \<Longrightarrow> Q (Inl e) v'"
    and "\<And>tok now v'. in_tx w d v' \<Longrightarrow> access_token cy s userID email now tok \<Longrightarrow> Q (Inr tok) v'"
  shows "wp (Issue cy s userID email) Q v"
proof -
  have "go_clock w \<le> go_clock v + next_drift (drift v)"
    using assms(1) next_drift_nonneg [of "drift v"] unfolding in_tx_def by linarith
  then show ?thesis
    using assms by (simp add: wp_Issue Let_def in_tx_def access_token_def split: option.splits)
qed

lemma refresh_with_userD:
  "refresh_with_user d h = Some rt \<Longrightarrow>
     \<exists>old u. old \<in> set (refresh_tokens d) \<and> rr_TokenHash old = h \<and> u \<in> set (users d) \<and> us_ID u = rr_UserID old \<and>
       rt = \<lparr>rt_UserID = us_ID u, rt_Email = us_Email u, rt_ExpiresAt = rr_ExpiresAt old, rt_RevokedAt = rr_RevokedAt old\<rparr>"
  unfolding refresh_with_user_def by (clarsimp dest!: find_SomeD split: option.splits) force

definition refreshed ::
  "crypto \<Rightarrow> Signer \<Rightarrow> string \<Rightarrow> auth_db world \<Rightarrow> auth_error + TokenPair \<Rightarrow> auth_db \<Rightarrow> bool" where
  "refreshed cy s raw w r d' \<longleftrightarrow>
     (\<exists>old u tok now expiresAt. live (go_clock w) old \<and>
        exchanged cy raw old u tok expiresAt (pg_clock w) (committed w) d' \<and>
        (\<forall>p. r = Inr p \<longrightarrow> tp_RefreshToken p = tok \<and> access_token cy s (us_ID u) (us_Email u) now (tp_AccessToken p)))"

lemma refreshedI:
  assumes "old \<in> set (refresh_tokens (committed w))" "rr_TokenHash old = hashToken cy raw" "live (go_clock w) old"
    and "u \<in> set (users (committed w))" "us_ID u = rr_UserID old"
    and "access_token cy s (rr_UserID old) (us_Email u) now acc"
    and "d' = insert_refresh (rr_UserID old) (hashToken cy tok) expiresAt
           (revoke_refresh (hashToken cy raw) (pg_clock w) (committed w))"
    and "\<And>p. r = Inr p \<Longrightarrow> p = \<lparr>tp_AccessToken = acc, tp_RefreshToken = tok\<rparr>"
  shows "refreshed cy s raw w r d'"
  unfolding refreshed_def exchanged_def
  by (rule exI [of _ old], rule exI [of _ u], rule exI [of _ tok], rule exI [of _ now], rule exI [of _ expiresAt])
    (use assms in auto)

lemma wp_Refresh:
  assumes "txn w = None"
  shows "wp (Refresh_Execute cy s ttl raw) (\<lambda>r w'. txn w' = None \<and>
    (r \<in> range Inl \<and> committed w' = committed w \<or> refreshed cy s raw w r (committed w'))) w"
proof -
  let ?Q = "\<lambda>r w'. txn w' = None \<and>
    (r \<in> range Inl \<and> committed w' = committed w \<or> refreshed cy s raw w r (committed w'))"
  let ?h = "hashToken cy raw"
  have exchange: "wp (do {
      r \<leftarrow> RevokeRefreshToken Tx ?h;
      check r id (\<lambda>_. do {
        t \<leftarrow> newRawToken;
        check t id (\<lambda>newToken. do {
          now \<leftarrow> time_Now;
          i \<leftarrow> InsertRefreshToken Tx (rr_UserID old) (hashToken cy newToken) (now + ttl);
          check i id (\<lambda>_. do {
            a \<leftarrow> Issue cy s (rr_UserID old) (us_Email u);
            check a id (\<lambda>accessToken. do {
              c \<leftarrow> Commit;
              check c (Wrap ''commit refresh tx'') (\<lambda>_.
                ok \<lparr>tp_AccessToken = accessToken, tp_RefreshToken = newToken\<rparr>) }) }) }) }) })
      (\<lambda>r v'. ?Q r (v'\<lparr>txn := None\<rparr>)) v"
    if v: "in_tx w (committed w) v" and old: "old \<in> set (refresh_tokens (committed w))" "rr_TokenHash old = ?h"
      "live (go_clock w) old" and u: "u \<in> set (users (committed w))" "us_ID u = rr_UserID old" for v old u
    unfolding wp_bind
    apply (rule wp_tx_Revoke [OF v])
     apply (simp add: wp_check)
    apply (simp only: wp_check sum.case wp_bind)
    apply (rule wp_tx_rand, assumption)
     apply (simp add: wp_check)
    apply (simp only: wp_check sum.case wp_bind)
    apply (rule wp_tx_Now, assumption)
    apply (simp only: wp_bind)
    apply (rule wp_tx_InsertRefresh, assumption)
     apply (simp add: wp_check)
    apply (simp only: wp_check sum.case wp_bind)
    apply (rule wp_tx_Issue, assumption)
     apply (simp add: wp_check)
    apply (simp only: wp_check sum.case wp_bind)
    apply (rule wp_tx_Commit, assumption)
     apply (simp add: wp_check)
    apply (simp only: wp_check wp_return)
    apply (rule sum.split [THEN iffD2])
    apply (intro conjI allI impI; simp)
     apply (rule disjI2, rule refreshedI [OF old u], assumption, rule refl, simp)+
    done
  show ?thesis
    unfolding Refresh_Execute_def Let_def wp_bind
    apply (rule wp_tx_Begin [OF assms])
     apply (simp add: wp_check)
    apply (simp only: wp_check sum.case wp_defer_Rollback wp_bind)
    apply (rule wp_tx_GetRefresh, assumption)
     apply (simp add: wp_check)
    apply (clarsimp simp: wp_check wp_bind wp_if wp_return dest!: refresh_with_userD)
    apply (intro conjI impI)
     apply (simp add: in_tx_def)
    apply (rule wp_tx_Now, assumption)
    apply (simp only: wp_return wp_if RefreshToken.select_convs)
    apply (rule if_split [THEN iffD2])
    apply (intro conjI impI)
     apply (simp add: wp_return in_tx_def)
    apply (rule wp_mono [OF exchange], assumption+)
      apply (simp add: live_def)
     apply assumption+
    apply simp
    done
qed

lemma wp_Logout:
  assumes "txn w = None"
  shows "wp (Logout_Execute cy raw) (\<lambda>r w'. txn w' = None \<and>
    (r \<noteq> Inr () \<and> committed w' = committed w
     \<or> committed w' = revoke_refresh (hashToken cy raw) (pg_clock w) (committed w))) w"
  using assms
  by (auto simp: Logout_Execute_def RevokeRefreshToken_def wp_simps revokeRefreshTokenQuery_def Let_def
      split: fault.splits)

end
