(* ===== verification/AuthRuns.thy ===== *)
theory AuthRuns
  imports AuthFacts
begin

text \<open>
  Runs of the auth service: any sequence of its use cases and relay ticks, each from any
  environment (faults, clocks, locks, randomness). A use case that is one transaction is one step;
  the insert that ends a login may also come later, between other steps. Every step keeps the
  keys of the schema, a spent refresh token stays spent, and a verified user used a token that was
  enqueued for the user's own address.
\<close>

inductive auth_step :: "crypto \<Rightarrow> Signer \<Rightarrow> auth_db \<Rightarrow> auth_db \<Rightarrow> bool" for cy s where
  auth_register: "txn w = None \<Longrightarrow> auth_step cy s (committed w) (run_db (Register_Execute cy ttl email password) w)"
| auth_verify: "txn w = None \<Longrightarrow> auth_step cy s (committed w) (run_db (VerifyEmail_Execute token) w)"
| auth_login: "txn w = None \<Longrightarrow> auth_step cy s (committed w) (run_db (Login_Execute cy s ttl email password) w)"
| auth_login_end: "txn w = None \<Longrightarrow>
    auth_step cy s (committed w) (run_db (InsertRefreshToken Pool userID (hashToken cy tok) expiresAt) w)"
| auth_refresh: "txn w = None \<Longrightarrow> auth_step cy s (committed w) (run_db (Refresh_Execute cy s ttl raw) w)"
| auth_logout: "txn w = None \<Longrightarrow> auth_step cy s (committed w) (run_db (Logout_Execute cy raw) w)"
| auth_tick: "txn w = None \<Longrightarrow> auth_step cy s (committed w) (run_db auth_publishPending w)"

inductive auth_runs :: "crypto \<Rightarrow> Signer \<Rightarrow> auth_db \<Rightarrow> auth_db \<Rightarrow> bool" for cy s where
  auth_stays: "auth_runs cy s d d"
| auth_goes: "auth_runs cy s d d1 \<Longrightarrow> auth_step cy s d1 d' \<Longrightarrow> auth_runs cy s d d'"

section \<open>The keys of the schema\<close>

lemma auth_reads_keep [keeps_rules]:
  "stmt_keeps I (getUserByEmailQuery email)" "stmt_keeps I (getVerificationForUpdateQuery token)"
  "stmt_keeps I (getRefreshTokenForUpdateQuery h)" "stmt_keeps I (fetchOutboxForUpdateQuery auth_outbox n lk)"
  by (rule stmt_keepsI, simp add: auth_queries fetchOutboxForUpdateQuery_def)+

lemma auth_wf_inserts [keeps_rules]:
  "stmt_keeps auth_wf (insertUserQuery email hash)"
  "stmt_keeps auth_wf (insertVerificationQuery token userID e)"
  "stmt_keeps auth_wf (insertRefreshTokenQuery userID h e)"
  by (rule stmt_keepsI, auto simp: auth_queries insert_user_def insert_refresh_def auth_wf_def split: if_splits)+

lemma auth_wf_marks [keeps_rules]:
  "stmt_keeps auth_wf (markVerificationUsedQuery token)" "stmt_keeps auth_wf (markUserVerifiedQuery userID)"
  "stmt_keeps auth_wf (revokeRefreshTokenQuery h)"
  "stmt_keeps auth_wf (insertOutboxQuery auth_outbox_update subject payload)"
  "stmt_keeps auth_wf (markOutboxPublishedQuery auth_outbox auth_outbox_update ids)"
  by (rule stmt_keepsI, auto simp: auth_queries insertOutboxQuery_def markOutboxPublishedQuery_def auth_wf_updates
      outbox_wf_insert outbox_wf_mark)+

text \<open>The keeps rules of the use cases follow from those of the statements they run.\<close>

lemma auth_tokens_keep [keeps_rules]: "keeps I newRawToken" "keeps I (HashPassword kdf pw)" "keeps I (Issue cy s u e)"
  unfolding newRawToken_def HashPassword_def Issue_def by (intro keeps_rules)+

lemma auth_reads [keeps_rules]:
  "keeps I (GetByEmail q email)" "keeps I (GetVerificationForUpdate q token)" "keeps I (GetRefreshTokenForUpdate q h)"
  unfolding auth_store_defs by (intro keeps_rules)+

lemma auth_tick_keeps:
  assumes "\<And>ids. stmt_keeps I (markOutboxPublishedQuery auth_outbox auth_outbox_update ids)"
  shows "keeps I auth_publishPending"
proof -
  have "keeps I (publish_rows m rows)" for m rows
    by (induction rows) (auto intro!: keeps_rules)
  then show ?thesis
    unfolding auth_publishPending_def publish_pending_def auth_FetchForUpdate_def auth_MarkPublished_def
      outbox_FetchForUpdate_def outbox_MarkPublished_def
    by (intro keeps_rules assms)
qed

lemma sessions_keep:
  assumes "\<And>userID h e. stmt_keeps I (insertRefreshTokenQuery userID h e)" "\<And>h. stmt_keeps I (revokeRefreshTokenQuery h)"
  shows "keeps I (Login_Execute cy s ttl email password)" "keeps I (Refresh_Execute cy s ttl raw)"
    "keeps I (Logout_Execute cy raw)" "keeps I (InsertRefreshToken q userID h e)"
  unfolding Login_Execute_def Refresh_Execute_def Logout_Execute_def InsertRefreshToken_def RevokeRefreshToken_def
  by (intro keeps_rules assms)+

lemma accounts_keep:
  assumes "\<And>email hash. stmt_keeps I (insertUserQuery email hash)"
    "\<And>token userID e. stmt_keeps I (insertVerificationQuery token userID e)"
    "\<And>subject payload. stmt_keeps I (insertOutboxQuery auth_outbox_update subject payload)"
    "\<And>token. stmt_keeps I (markVerificationUsedQuery token)" "\<And>userID. stmt_keeps I (markUserVerifiedQuery userID)"
  shows "keeps I (Register_Execute cy ttl email password)" "keeps I (VerifyEmail_Execute token)"
  unfolding Register_Execute_def register_tx_def VerifyEmail_Execute_def CreateUser_def InsertVerification_def
    MarkVerificationUsed_def MarkUserVerified_def auth_Insert_def outbox_Insert_def
  by (intro keeps_rules assms)+

lemma auth_step_keeps:
  assumes "auth_step cy s d d'" "I d"
    and "\<And>email hash. stmt_keeps I (insertUserQuery email hash)"
    "\<And>token userID e. stmt_keeps I (insertVerificationQuery token userID e)"
    "\<And>subject payload. stmt_keeps I (insertOutboxQuery auth_outbox_update subject payload)"
    "\<And>token. stmt_keeps I (markVerificationUsedQuery token)" "\<And>userID. stmt_keeps I (markUserVerifiedQuery userID)"
    "\<And>userID h e. stmt_keeps I (insertRefreshTokenQuery userID h e)" "\<And>h. stmt_keeps I (revokeRefreshTokenQuery h)"
    "\<And>ids. stmt_keeps I (markOutboxPublishedQuery auth_outbox auth_outbox_update ids)"
  shows "I d'"
  using assms(1,2)
proof (cases rule: auth_step.cases)
  case (auth_register w ttl email password)
  then show ?thesis
    using keeps_run_db [OF accounts_keep(1) [OF assms(3-7)], of w] assms(2) by (simp add: idle_def)
next
  case (auth_verify w token)
  then show ?thesis
    using keeps_run_db [OF accounts_keep(2) [OF assms(3-7)], of w] assms(2) by (simp add: idle_def)
next
  case (auth_login w ttl email password)
  then show ?thesis
    using keeps_run_db [OF sessions_keep(1) [OF assms(8,9)], of w] assms(2) by (simp add: idle_def)
next
  case (auth_login_end w userID tok expiresAt)
  then show ?thesis
    using keeps_run_db [OF sessions_keep(4) [OF assms(8,9)], of w] assms(2) by (simp add: idle_def)
next
  case (auth_refresh w ttl raw)
  then show ?thesis
    using keeps_run_db [OF sessions_keep(2) [OF assms(8,9)], of w] assms(2) by (simp add: idle_def)
next
  case (auth_logout w raw)
  then show ?thesis
    using keeps_run_db [OF sessions_keep(3) [OF assms(8,9)], of w] assms(2) by (simp add: idle_def)
next
  case (auth_tick w)
  then show ?thesis
    using keeps_run_db [OF auth_tick_keeps [OF assms(10)], of w] assms(2) by (simp add: idle_def)
qed

lemma auth_step_wf: "auth_step cy s d d' \<Longrightarrow> auth_wf d \<Longrightarrow> auth_wf d'"
  by (erule auth_step_keeps) (rule auth_wf_inserts auth_wf_marks | assumption)+

section \<open>Spent refresh tokens\<close>

definition spent :: "string \<Rightarrow> auth_db \<Rightarrow> bool" where
  "spent h d \<longleftrightarrow> (\<exists>r \<in> set (refresh_tokens d). rr_TokenHash r = h \<and> rr_RevokedAt r \<noteq> None)"

lemma spent_stmts [keeps_rules]:
  "stmt_keeps (spent k) (insertUserQuery email hash)" "stmt_keeps (spent k) (insertVerificationQuery token userID e)"
  "stmt_keeps (spent k) (markVerificationUsedQuery token)" "stmt_keeps (spent k) (markUserVerifiedQuery userID)"
  "stmt_keeps (spent k) (insertRefreshTokenQuery userID h e)" "stmt_keeps (spent k) (revokeRefreshTokenQuery h)"
  "stmt_keeps (spent k) (insertOutboxQuery auth_outbox_update subject payload)"
  "stmt_keeps (spent k) (markOutboxPublishedQuery auth_outbox auth_outbox_update ids)"
  by (rule stmt_keepsI, force simp: auth_queries insertOutboxQuery_def markOutboxPublishedQuery_def spent_def
      insert_user_def insert_refresh_def use_verification_def verify_user_def revoke_refresh_def split: if_splits)+

lemma auth_step_spent: "auth_step cy s d d' \<Longrightarrow> spent h d \<Longrightarrow> spent h d'"
  by (erule auth_step_keeps) (rule spent_stmts | assumption)+

lemma auth_runs_keep:
  assumes "auth_runs cy s d d'"
  shows "auth_wf d \<Longrightarrow> auth_wf d'" "spent h d \<Longrightarrow> spent h d'"
  using assms by (induction rule: auth_runs.induct) (auto dest: auth_step_wf auth_step_spent)

lemma revoked_spent:
  "r \<in> set (refresh_tokens d) \<Longrightarrow> rr_TokenHash r = h \<Longrightarrow> spent h (revoke_refresh h now d)"
  unfolding spent_def revoke_refresh_def by (auto split: if_splits)

lemma refreshed_spent:
  "refreshed cy s raw w r d' \<Longrightarrow> spent (hashToken cy raw) d'"
proof -
  have "spent h d \<Longrightarrow> spent h (insert_refresh u k e d)" for h d u k e
    by (auto simp: spent_def insert_refresh_def)
  moreover assume "refreshed cy s raw w r d'"
  ultimately show ?thesis
    unfolding refreshed_def exchanged_def by (metis revoked_spent)
qed

lemma spent_refused:
  assumes "txn w = None" "auth_wf (committed w)" "spent (hashToken cy raw) (committed w)"
  shows "wp (Refresh_Execute cy s ttl raw) (\<lambda>r w'. r \<in> range Inl \<and> committed w' = committed w) w"
proof (rule wp_mono [OF wp_Refresh [OF assms(1)]])
  fix r w'
  assume post: "txn w' = None \<and> (r \<in> range Inl \<and> committed w' = committed w \<or> refreshed cy s raw w r (committed w'))"
  have "\<not> refreshed cy s raw w r (committed w')"
  proof
    assume "refreshed cy s raw w r (committed w')"
    then obtain old where old: "old \<in> set (refresh_tokens (committed w))" "rr_TokenHash old = hashToken cy raw"
      "rr_RevokedAt old = None"
      unfolding refreshed_def exchanged_def live_def by blast
    obtain x where x: "x \<in> set (refresh_tokens (committed w))" "rr_TokenHash x = hashToken cy raw"
      "rr_RevokedAt x \<noteq> None"
      using assms(3) unfolding spent_def by blast
    have "distinct (map rr_TokenHash (refresh_tokens (committed w)))"
      using assms(2) by (simp add: auth_wf_def)
    then have "old = x" using old(1,2) x(1,2) by (metis distinct_map_eqD)
    then show False using old(3) x(3) by simp
  qed
  then show "r \<in> range Inl \<and> committed w' = committed w" using post by blast
qed


section \<open>Verified addresses\<close>

definition token_enqueued :: "auth_db \<Rightarrow> string \<Rightarrow> string \<Rightarrow> bool" where
  "token_enqueued d email token \<longleftrightarrow>
     (\<exists>row \<in> set (ob_rows (auth_outbox d)). ob_Subject row = SubjectVerifyEmail \<and>
        ob_Payload row = verification_event email token)"

text \<open>Every verification belongs to a user whose address was sent its token, and a verified user has
  used a verification.\<close>

definition owned :: "auth_db \<Rightarrow> bool" where
  "owned d \<longleftrightarrow>
     (\<forall>v \<in> set (email_verifications d). \<exists>u \<in> set (users d). us_ID u = ve_UserID v \<and>
        token_enqueued d (us_Email u) (ve_Token v)) \<and>
     (\<forall>u \<in> set (users d). us_EmailVerified u \<longrightarrow>
        (\<exists>v \<in> set (email_verifications d). ve_UserID v = us_ID u \<and> ve_UsedAt v \<noteq> None))"

lemma token_enqueued_mark [simp]:
  "token_enqueued (auth_outbox_update (mark_rows ids now) d) email token = token_enqueued d email token"
proof -
  have "ob_Subject (if b then r\<lparr>ob_PublishedAt := p\<rparr> else r) = ob_Subject r"
    "ob_Payload (if b then r\<lparr>ob_PublishedAt := p\<rparr> else r) = ob_Payload r" for b p and r :: outbox_rec
    by simp_all
  then show ?thesis by (simp add: token_enqueued_def mark_rows_def)
qed

lemma token_enqueued_frame [simp]:
  "token_enqueued (d\<lparr>refresh_tokens := x\<rparr>) email token = token_enqueued d email token"
  by (simp add: token_enqueued_def)

lemma owned_sessions:
  "stmt_keeps owned (insertRefreshTokenQuery userID h e)" "stmt_keeps owned (revokeRefreshTokenQuery h)"
  "stmt_keeps owned (markOutboxPublishedQuery auth_outbox auth_outbox_update ids)"
  by (rule stmt_keepsI, auto simp: auth_queries markOutboxPublishedQuery_def owned_def insert_refresh_def
      revoke_refresh_def split: if_splits)+

lemma owned_signed_up:
  assumes "signed_up email hash token e d d'" "owned d"
  shows "owned d'"
proof -
  have grow: "token_enqueued d' x t" if "token_enqueued d x t" for x t
    using that assms(1)
    by (auto simp: signed_up_def registered_def insert_user_def token_enqueued_def insert_row_def)
  have new: "token_enqueued d' email token"
    using assms(1)
    by (simp add: signed_up_def registered_def insert_user_def token_enqueued_def insert_row_def)
  have users: "users d' = users d @ [\<lparr>us_ID = uuid_source d (uuid_count d), us_Email = email,
      us_PasswordHash = hash, us_EmailVerified = False\<rparr>]"
    and verifications: "email_verifications d' = email_verifications d @ [\<lparr>ve_UserID = uuid_source d (uuid_count d),
      ve_ExpiresAt = e, ve_UsedAt = None, ve_Token = token\<rparr>]"
    using assms(1) by (simp_all add: signed_up_def registered_def insert_user_def)
  show ?thesis
    using assms(2) grow new unfolding owned_def users verifications by (simp add: ball_Un) blast
qed

lemma owned_verified:
  assumes "verification d token = Some v" "owned d"
  shows "owned (verified v now d)"
proof -
  have v: "v \<in> set (email_verifications d)" "ve_Token v = token"
    using assms(1) by (auto simp: verification_def dest: find_SomeD)
  have same: "token_enqueued (verified v now d) x t = token_enqueued d x t" for x t
    by (simp add: token_enqueued_def verified_def verify_user_def use_verification_def)
  show ?thesis
    using assms(2) v unfolding owned_def same
    by (simp add: verified_def verify_user_def use_verification_def if_distrib cong: if_cong) blast
qed

lemma auth_step_owned:
  assumes "auth_step cy s d d'" "owned d"
  shows "owned d'"
  using assms
proof (cases rule: auth_step.cases)
  case (auth_register w ttl email password)
  then show ?thesis
    using wp_Register [of w cy ttl email password] assms(2) owned_signed_up
    by (auto simp: wp_run run_db_world)
next
  case (auth_verify w token)
  then show ?thesis
    using wp_VerifyEmail [of w token] assms(2) owned_verified
    by (auto simp: wp_run run_db_world)
next
  case (auth_login w ttl email password)
  then show ?thesis
    using keeps_run_db [OF sessions_keep(1) [OF owned_sessions(1,2)], of w] assms(2) by (simp add: idle_def)
next
  case (auth_login_end w userID tok expiresAt)
  then show ?thesis
    using keeps_run_db [OF sessions_keep(4) [OF owned_sessions(1,2)], of w] assms(2) by (simp add: idle_def)
next
  case (auth_refresh w ttl raw)
  then show ?thesis
    using keeps_run_db [OF sessions_keep(2) [OF owned_sessions(1,2)], of w] assms(2) by (simp add: idle_def)
next
  case (auth_logout w raw)
  then show ?thesis
    using keeps_run_db [OF sessions_keep(3) [OF owned_sessions(1,2)], of w] assms(2) by (simp add: idle_def)
next
  case (auth_tick w)
  then show ?thesis
    using keeps_run_db [OF auth_tick_keeps [OF owned_sessions(3)], of w] assms(2) by (simp add: idle_def)
qed

lemma auth_runs_owned: "auth_runs cy s d d' \<Longrightarrow> owned d \<Longrightarrow> owned d'"
  by (induction rule: auth_runs.induct) (auto dest: auth_step_owned)

lemma owned_empty [simp]: "owned (empty_auth_db uuids)"
  by (simp add: owned_def empty_auth_db_def)

lemma verified_owner:
  assumes "owned d" "auth_wf d" "u \<in> set (users d)" "us_EmailVerified u"
  shows "\<exists>v \<in> set (email_verifications d). ve_UserID v = us_ID u \<and> ve_UsedAt v \<noteq> None \<and>
    token_enqueued d (us_Email u) (ve_Token v)"
proof -
  obtain v where v: "v \<in> set (email_verifications d)" "ve_UserID v = us_ID u" "ve_UsedAt v \<noteq> None"
    using assms unfolding owned_def by blast
  obtain u' where u': "u' \<in> set (users d)" "us_ID u' = ve_UserID v" "token_enqueued d (us_Email u') (ve_Token v)"
    using assms(1) v(1) unfolding owned_def by blast
  have "distinct (map us_ID (users d))" using assms(2) by (simp add: auth_wf_def)
  then have "u' = u" using u'(1,2) v(2) assms(3) by (metis distinct_map_eqD)
  then show ?thesis using v u'(3) by blast
qed

section \<open>Signing up when nothing fails\<close>

lemma calm_register_tx:
  assumes "calm w" "registrable email token (committed w)"
  shows "wp (register_tx ttl email hash token payload) (\<lambda>r w'. r = Inr () \<and> calm w' \<and>
    committed w' = registered email hash token (go_clock w + next_drift (drift w) + ttl) payload (committed w)) w"
  using assms
  by (auto simp: register_tx_def CreateUser_def InsertVerification_def auth_Insert_def outbox_Insert_def wp_simps
      insertUserQuery_def insertVerificationQuery_def insertOutboxQuery_def Let_def registrable_def
      registered_def insert_user_def calm_def)

text \<open>The hash of a password with a salt, and a key derivation of the promised length.\<close>

definition hashed :: "kdf \<Rightarrow> string \<Rightarrow> string \<Rightarrow> string" where
  "hashed kdf password b =
     (let salt = take argonSaltLen (b @ replicate argonSaltLen CHR 0x00) in
      encode_hash salt (kdf password salt argonTime argonMemory argonThreads argonKeyLen))"

lemma hashed_verifies:
  assumes "\<And>p salt t m th n. length (kdf p salt t m th n) = n"
  shows "VerifyPassword kdf password (hashed kdf password b) = Some True"
  by (simp add: hashed_def Let_def VerifyPassword_encode assms argonKeyLen_def)

lemma calm_Register:
  assumes "calm w" "normalizeEmail cy email = Inr e" "minPasswordLen \<le> length password"
    and "entropy w = b1 # b2 # bs" "registrable e (raw_token b2) (committed w)"
  shows "wp (Register_Execute cy ttl email password) (\<lambda>r w'. r = Inr () \<and> calm w' \<and>
    committed w' = registered e (hashed (cy_IDKey cy) password b1) (raw_token b2)
      (go_clock w + next_drift (drift w) + ttl) (verification_event e (raw_token b2)) (committed w)) w"
proof -
  have "calm (w\<lparr>entropy := bs\<rparr>)" using assms(1) by (simp add: calm_def)
  from calm_register_tx [OF this, of e "raw_token b2" ttl "hashed (cy_IDKey cy) password b1"
      "verification_event e (raw_token b2)"] assms(2-5)
  show ?thesis
    by (simp add: Register_Execute_def wp_bind wp_HashPassword wp_check wp_newRawToken Let_def hashed_def
        verification_event_def not_less)
qed

lemma calm_Verify:
  assumes "calm w" "verification (committed w) token = Some v" "ve_UsedAt v = None"
    and "go_clock w + next_drift (drift w) \<le> ve_ExpiresAt v"
  shows "wp (VerifyEmail_Execute token) (\<lambda>r w'. r = Inr () \<and> calm w' \<and>
    committed w' = verified v (pg_clock w) (committed w)) w"
  using assms
  by (auto simp: VerifyEmail_Execute_def GetVerificationForUpdate_def MarkVerificationUsed_def MarkUserVerified_def
      wp_simps getVerificationForUpdateQuery_def markVerificationUsedQuery_def markUserVerifiedQuery_def Let_def
      verification_def verified_def calm_def dest: find_SomeD)

lemma calm_Login:
  assumes "calm w" "auth_wf (committed w)" "logs_in cy email password u (committed w)" "entropy w = b # bs"
    and "\<forall>r \<in> set (refresh_tokens (committed w)). rr_TokenHash r \<noteq> hashToken cy (raw_token b)"
    and "\<And>cl. cy_SignedString cy (si_key s) (si_kid s) cl \<noteq> None"
  shows "wp (Login_Execute cy s ttl email password) (\<lambda>r w'. \<exists>p. r = Inr p \<and> tp_RefreshToken p = raw_token b \<and>
    committed w' = insert_refresh (us_ID u) (hashToken cy (raw_token b))
      (go_clock w + next_drift (drift w) + next_drift (tl (drift w)) + ttl) (committed w)) w"
proof -
  have u: "normalizeEmail cy email = Inr (us_Email u)" "u \<in> set (users (committed w))"
    "VerifyPassword (cy_IDKey cy) password (us_PasswordHash u) = Some True" "us_EmailVerified u"
    using assms(3) by (simp_all add: logs_in_def)
  have "find (\<lambda>x. us_Email x = us_Email u) (users (committed w)) = Some u"
    using assms(2) u(2) by (intro find_key_unique) (simp add: auth_wf_def)
  then show ?thesis
    using assms(1,4,5) u assms(6)
    by (auto simp: Login_Execute_def GetByEmail_def InsertRefreshToken_def wp_simps wp_Issue wp_newRawToken
        getUserByEmailQuery_def insertRefreshTokenQuery_def Let_def calm_def split: option.splits)
qed

end
