(* ===== verification/Http.thy ===== *)
theory Http
  imports Subscribe Auth
begin

text \<open>
  The HTTP and gRPC edges of the subscription and auth services: the handlers
  (\<^verbatim>\<open>internal/transport/http/handler\<close>), the JSON responses (\<^verbatim>\<open>respond\<close>), the bearer
  token middleware (\<^verbatim>\<open>middleware/authjwt.go\<close>) and the client that caches the signing key
  (\<^verbatim>\<open>internal/authclient\<close>). A handler is a function of what it reads of its request: the
  address the middleware put into the context, the URL parameter \<open>token\<close>, the content type, the
  body (the first JSON value in it) and the parsed form. Routing is the library's. The JWT parser,
  the PEM decoder and the text of a decoder error are parameters.
\<close>

section \<open>Responses\<close>

record http_resp =
  hr_Status :: int
  hr_Body :: "json option"

definition respond_JSON :: "int \<Rightarrow> json \<Rightarrow> http_resp" where
  "respond_JSON statusCode body = \<lparr>hr_Status = statusCode, hr_Body = Some body\<rparr>"

definition respond_Error :: "int \<Rightarrow> string \<Rightarrow> http_resp" where
  "respond_Error statusCode msg = respond_JSON statusCode (JObj [(''error'', JStr msg)])"

definition message :: "string \<Rightarrow> json" where
  "message text = JObj [(''message'', JStr text)]"

section \<open>Subscription service\<close>

record sub_request =
  sq_Email :: string
  sq_ContentType :: string
  sq_Body :: bytes
  sq_Form :: "string + (string \<Rightarrow> string)"

record subscriptionRequest =
  sr_Repo :: string

definition decodeSubscriptionRequest :: "(bytes \<Rightarrow> string) \<Rightarrow> sub_request \<Rightarrow> string + subscriptionRequest" where
  "decodeSubscriptionRequest decode_error r =
     (if HasPrefix (sq_ContentType r) ''application/json''
      then (case json_Unmarshal [str_field ''repo'' (\<lambda>v. sr_Repo_update (\<lambda>_. v))] \<lparr>sr_Repo = ''''\<rparr> (sq_Body r) of
              None \<Rightarrow> Inl (decode_error (sq_Body r))
            | Some req \<Rightarrow> Inr req)
      else (case sq_Form r of Inl e \<Rightarrow> Inl e | Inr form \<Rightarrow> Inr \<lparr>sr_Repo = form ''repo''\<rparr>))"

definition requireToken :: "string \<Rightarrow> nat \<Rightarrow> string option" where
  "requireToken token minLen = (if length token < minLen then Some ''invalid token'' else None)"

definition sub_handleError :: "go_error \<Rightarrow> http_resp" where
  "sub_handleError e =
     (if errors_Is e (Sentinel domain_ErrInvalidEmailFormat) then respond_Error 400 ''Invalid email format''
      else if errors_Is e (Sentinel sub_ErrInvalidRepoFormat) then respond_Error 400 ''Invalid repo format''
      else if errors_Is e (Sentinel sub_ErrTokenNotFound) then respond_Error 404 ''Token not found''
      else if errors_Is e (Sentinel sub_ErrRepoNotFound) then respond_Error 404 ''Repository not found on GitHub''
      else if errors_Is e (Sentinel sub_ErrSubscriptionAlreadyExists)
        then respond_Error 409 ''Email already subscribed to this repository''
      else if errors_Is e (Sentinel sub_ErrTooMuchRequests) then respond_Error 429 ''Github API request limit is hit''
      else if errors_Is e (Sentinel sub_ErrGitHubUnauthorized)
        then respond_Error 502 ''GitHub API token is invalid or expired''
      else respond_Error 500 ''internal server error'')"

definition Handler_Subscribe ::
  "(bytes \<Rightarrow> string) \<Rightarrow> (string \<Rightarrow> string \<Rightarrow> ('db, sentinel, unit) io) \<Rightarrow> sub_request \<Rightarrow> ('db, http_resp) run" where
  "Handler_Subscribe decode_error subscriber r =
     (if sq_Email r = '''' then ret (respond_Error 401 ''Not authorized'')
      else
        (case decodeSubscriptionRequest decode_error r of
           Inl e \<Rightarrow> ret (respond_Error 400 e)
         | Inr req \<Rightarrow>
             if sr_Repo req = '''' then ret (respond_Error 400 ''repo is required'')
             else do {
               x \<leftarrow> subscriber (sq_Email r) (sr_Repo req);
               ret (case x of
                 Inl e \<Rightarrow> sub_handleError e
               | Inr _ \<Rightarrow> respond_JSON 200 (message ''Subscription successful. Confirmation email sent'')) }))"

definition Handler_Confirm :: "(string \<Rightarrow> ('db, sentinel, unit) io) \<Rightarrow> string \<Rightarrow> ('db, http_resp) run" where
  "Handler_Confirm confirmer token =
     (case requireToken token 1 of
        Some e \<Rightarrow> ret (respond_Error 400 e)
      | None \<Rightarrow> do {
          x \<leftarrow> confirmer token;
          ret (case x of
            Inl e \<Rightarrow> sub_handleError e
          | Inr _ \<Rightarrow> respond_JSON 200 (message ''Subscription confirmed successfully'')) })"

definition Handler_Unsubscribe :: "(string \<Rightarrow> ('db, sentinel, unit) io) \<Rightarrow> string \<Rightarrow> ('db, http_resp) run" where
  "Handler_Unsubscribe unsubscriber token =
     (case requireToken token 8 of
        Some e \<Rightarrow> ret (respond_Error 400 e)
      | None \<Rightarrow> do {
          x \<leftarrow> unsubscriber token;
          ret (case x of
            Inl e \<Rightarrow> sub_handleError e
          | Inr _ \<Rightarrow> respond_JSON 200 (message ''Unsubscribed successfully'')) })"

definition toResponseSlice :: "SubscriptionDetails list \<Rightarrow> json" where
  "toResponseSlice details =
     JArr (map (\<lambda>d. JObj [(''email'', JStr (sd_Email d)), (''repo'', JStr (sd_Repo d)),
                          (''confirmed'', JBool (sd_Confirmed d)),
                          (''last_seen_tag'', JStr (if sd_LastSeenTag d = '''' then ''not available yet''
                                                    else sd_LastSeenTag d))]) details)"

definition Handler_ListSubscriptions ::
  "(string \<Rightarrow> ('db, sentinel, SubscriptionDetails list) io) \<Rightarrow> string \<Rightarrow> ('db, http_resp) run" where
  "Handler_ListSubscriptions lister email =
     (if email = '''' then ret (respond_Error 401 ''Not authorized'')
      else do {
        x \<leftarrow> lister email;
        ret (case x of Inl e \<Rightarrow> sub_handleError e | Inr details \<Rightarrow> respond_JSON 200 (toResponseSlice details)) })"

section \<open>The signing key and the bearer token\<close>

record key_codec =
  kc_Decode :: "string \<Rightarrow> string option"
  kc_ParsePKIX :: "string \<Rightarrow> string + string"

definition parsePublicKeyPEM :: "key_codec \<Rightarrow> string \<Rightarrow> go_error + string" where
  "parsePublicKeyPEM kc raw =
     (case kc_Decode kc raw of
        None \<Rightarrow> Inl (Opaque ''parse auth signing key: invalid PEM'')
      | Some block \<Rightarrow>
          (case kc_ParsePKIX kc block of
             Inl e \<Rightarrow> Inl (Wrap ''parse auth signing key'' (Opaque e))
           | Inr key \<Rightarrow> Inr key))"

text \<open>The client's cached key, and the answer of \<^verbatim>\<open>GetSigningKey\<close> (an error text or a key).\<close>

record Client =
  ct_key :: "string option"

definition Client_Key :: "Client \<Rightarrow> go_error + string" where
  "Client_Key c = (case ct_key c of None \<Rightarrow> Inl (Sentinel auth_ErrKeyUnavailable) | Some k \<Rightarrow> Inr k)"

definition Client_Load :: "key_codec \<Rightarrow> string + signing_key \<Rightarrow> Client \<Rightarrow> go_error option \<times> Client" where
  "Client_Load kc resp c =
     (case resp of
        Inl e \<Rightarrow> (Some (Wrap ''get signing key via grpc'' (Opaque e)), c)
      | Inr sk \<Rightarrow>
          (case parsePublicKeyPEM kc (sk_PublicKeyPem sk) of
             Inl e \<Rightarrow> (Some e, c)
           | Inr key \<Rightarrow> (None, c\<lparr>ct_key := Some key\<rparr>)))"

text \<open>
  \<open>parse key now raw\<close> stands for \<^verbatim>\<open>jwt.ParseWithClaims\<close> restricted to ES256 with a required
  expiry: the claims of a token that is valid at \<open>now\<close>. The result is the address for the context.
\<close>

definition AuthJWT ::
  "(string \<Rightarrow> int \<Rightarrow> string \<Rightarrow> (string \<Rightarrow> json option) option) \<Rightarrow> go_error + string \<Rightarrow> int \<Rightarrow> string \<Rightarrow>
     http_resp + string" where
  "AuthJWT parse key now authorization =
     (let (raw, found) = CutPrefix authorization ''Bearer '' in
      if \<not> found \<or> raw = '''' then Inl \<lparr>hr_Status = 401, hr_Body = None\<rparr>
      else
        (case key of
           Inl _ \<Rightarrow> Inl \<lparr>hr_Status = 401, hr_Body = None\<rparr>
         | Inr k \<Rightarrow>
             (case parse k now raw of
                None \<Rightarrow> Inl \<lparr>hr_Status = 401, hr_Body = None\<rparr>
              | Some claim \<Rightarrow>
                  (case claim ''email'' of
                     Some (JStr email) \<Rightarrow>
                       if email = '''' then Inl \<lparr>hr_Status = 401, hr_Body = None\<rparr> else Inr email
                   | _ \<Rightarrow> Inl \<lparr>hr_Status = 401, hr_Body = None\<rparr>))))"

section \<open>Auth service\<close>

record credentialsRequest =
  cq_Email :: string
  cq_Password :: string

definition decode_credentials :: "bytes \<Rightarrow> credentialsRequest option" where
  "decode_credentials = json_Unmarshal
     [str_field ''email'' (\<lambda>v. cq_Email_update (\<lambda>_. v)), str_field ''password'' (\<lambda>v. cq_Password_update (\<lambda>_. v))]
     \<lparr>cq_Email = '''', cq_Password = ''''\<rparr>"

record refreshRequest =
  fq_RefreshToken :: string

definition decodeRefreshRequest :: "bytes \<Rightarrow> string + refreshRequest" where
  "decodeRefreshRequest body =
     (case json_Unmarshal [str_field ''refresh_token'' (\<lambda>v. fq_RefreshToken_update (\<lambda>_. v))]
             \<lparr>fq_RefreshToken = ''''\<rparr> body of
        None \<Rightarrow> Inl ''invalid request body''
      | Some req \<Rightarrow> if fq_RefreshToken req = '''' then Inl ''refresh_token is required'' else Inr req)"

definition auth_handleError :: "auth_error \<Rightarrow> http_resp" where
  "auth_handleError e =
     (if errors_Is e (Sentinel ErrInvalidEmailFormat) then respond_Error 400 ''Invalid email format''
      else if errors_Is e (Sentinel ErrWeakPassword) then respond_Error 400 ''Password must be at least 8 characters''
      else if errors_Is e (Sentinel ErrEmailTaken) then respond_Error 409 ''Email is already registered''
      else if errors_Is e (Sentinel ErrInvalidCredentials) then respond_Error 401 ''Invalid email or password''
      else if errors_Is e (Sentinel ErrEmailNotVerified) then respond_Error 401 ''Email is not verified''
      else if errors_Is e (Sentinel ErrRefreshTokenInvalid) then respond_Error 401 ''Invalid refresh token''
      else if errors_Is e (Sentinel ErrTokenNotFound) then respond_Error 404 ''Token not found''
      else if errors_Is e (Sentinel ErrTokenExpired) \<or> errors_Is e (Sentinel ErrTokenUsed)
        then respond_Error 410 ''Token expired or already used''
      else respond_Error 500 ''internal server error'')"

definition tokenPairResponse :: "TokenPair \<Rightarrow> json" where
  "tokenPairResponse p =
     JObj [(''access_token'', JStr (tp_AccessToken p)), (''refresh_token'', JStr (tp_RefreshToken p))]"

definition Handler_Register ::
  "(string \<Rightarrow> string \<Rightarrow> ('db, auth_sentinel, unit) io) \<Rightarrow> bytes \<Rightarrow> ('db, http_resp) run" where
  "Handler_Register registerer body =
     (case decode_credentials body of
        None \<Rightarrow> ret (respond_Error 400 ''invalid request body'')
      | Some req \<Rightarrow> do {
          x \<leftarrow> registerer (cq_Email req) (cq_Password req);
          ret (case x of
            Inl e \<Rightarrow> auth_handleError e
          | Inr _ \<Rightarrow> respond_JSON 201 (message ''Registered. Check your email to verify your account'')) })"

definition Handler_VerifyEmail :: "(string \<Rightarrow> ('db, auth_sentinel, unit) io) \<Rightarrow> string \<Rightarrow> ('db, http_resp) run" where
  "Handler_VerifyEmail verifier token =
     (if length token < 8 then ret (respond_Error 400 ''invalid token'')
      else do {
        x \<leftarrow> verifier token;
        ret (case x of
          Inl e \<Rightarrow> auth_handleError e
        | Inr _ \<Rightarrow> respond_JSON 200 (message ''Email verified. You can now log in'')) })"

definition Handler_Login ::
  "(string \<Rightarrow> string \<Rightarrow> ('db, auth_sentinel, TokenPair) io) \<Rightarrow> bytes \<Rightarrow> ('db, http_resp) run" where
  "Handler_Login loginer body =
     (case decode_credentials body of
        None \<Rightarrow> ret (respond_Error 400 ''invalid request body'')
      | Some req \<Rightarrow> do {
          x \<leftarrow> loginer (cq_Email req) (cq_Password req);
          ret (case x of Inl e \<Rightarrow> auth_handleError e | Inr pair \<Rightarrow> respond_JSON 200 (tokenPairResponse pair)) })"

definition Handler_Refresh ::
  "(string \<Rightarrow> ('db, auth_sentinel, TokenPair) io) \<Rightarrow> bytes \<Rightarrow> ('db, http_resp) run" where
  "Handler_Refresh refresher body =
     (case decodeRefreshRequest body of
        Inl e \<Rightarrow> ret (respond_Error 400 e)
      | Inr req \<Rightarrow> do {
          x \<leftarrow> refresher (fq_RefreshToken req);
          ret (case x of Inl e \<Rightarrow> auth_handleError e | Inr pair \<Rightarrow> respond_JSON 200 (tokenPairResponse pair)) })"

definition Handler_Logout :: "(string \<Rightarrow> ('db, auth_sentinel, unit) io) \<Rightarrow> bytes \<Rightarrow> ('db, http_resp) run" where
  "Handler_Logout logouter body =
     (case decodeRefreshRequest body of
        Inl e \<Rightarrow> ret (respond_Error 400 e)
      | Inr req \<Rightarrow> do {
          x \<leftarrow> logouter (fq_RefreshToken req);
          ret (case x of Inl e \<Rightarrow> auth_handleError e | Inr _ \<Rightarrow> \<lparr>hr_Status = 204, hr_Body = None\<rparr>) })"

section \<open>Facts\<close>

lemma CutPrefix_append [simp]: "CutPrefix (p @ s) p = (s, True)"
  by (simp add: CutPrefix_def HasPrefix_def)

lemma respond_status [simp]:
  "hr_Status (respond_JSON st b) = st" "hr_Status (respond_Error st m) = st"
  by (simp_all add: respond_Error_def respond_JSON_def)

lemma sub_handleError_failure: "400 \<le> hr_Status (sub_handleError e)"
  by (simp add: sub_handleError_def)

lemma auth_handleError_failure: "400 \<le> hr_Status (auth_handleError e)"
  by (simp add: auth_handleError_def)

text \<open>A request that is answered with 200 has subscribed the address of the token.\<close>

lemma wp_Handler_Subscribe:
  assumes "wp (subscriber (sq_Email r) repo) (\<lambda>x w'. x = Inr () \<longrightarrow> P w') w"
    and "\<And>req. decodeSubscriptionRequest decode_error r = Inr req \<Longrightarrow> sr_Repo req = repo"
  shows "wp (Handler_Subscribe decode_error subscriber r) (\<lambda>resp w'. hr_Status resp = 200 \<longrightarrow> P w') w"
proof (cases "decodeSubscriptionRequest decode_error r")
  case (Inl e)
  then show ?thesis by (simp add: Handler_Subscribe_def wp_return)
next
  case (Inr req)
  then have repo: "sr_Repo req = repo" by (rule assms(2))
  have ok: "hr_Status (sub_handleError e) \<noteq> 200" for e
    using sub_handleError_failure [of e] by simp
  show ?thesis
    by (auto simp: Handler_Subscribe_def Inr repo wp_return wp_bind ok split: sum.splits
        intro!: wp_mono [OF assms(1)])
qed

lemma AuthJWT_issued:
  assumes "parse k now tok = Some claim" "claim ''email'' = Some (JStr email)" "email \<noteq> ''''" "tok \<noteq> ''''"
  shows "AuthJWT parse (Inr k) now (''Bearer '' @ tok) = Inr email"
  unfolding AuthJWT_def CutPrefix_append using assms by (simp add: Let_def)

lemma Client_Load_ok:
  "parsePublicKeyPEM kc (sk_PublicKeyPem sk) = Inr k \<Longrightarrow> Client_Key (snd (Client_Load kc (Inr sk) c)) = Inr k"
  by (simp add: Client_Load_def Client_Key_def)

end
