(* ===== verification/Templates.thy ===== *)
theory Templates
  imports Encoding
begin

text \<open>
  The mail templates (\<^verbatim>\<open>internal/mailer/templates.go\<close>) and what \<^verbatim>\<open>html/template\<close> does with
  them: a value in the text of an element is HTML-escaped, a value in a quoted \<^verbatim>\<open>href\<close> passes the
  URL filter, the URL normalizer and the attribute escaper. A template is the list of its pieces.
  Executing one into a buffer with string values cannot fail, so the error results of the renderers
  do not occur. The lemmas show that values never add markup and that links survive.
\<close>

section \<open>Escaping\<close>

definition html_escape_char :: "char \<Rightarrow> string" where
  "html_escape_char c =
     (if c = CHR 0x00 then [CHR 0xEF, CHR 0xBF, CHR 0xBD]
      else if c = CHR 0x22 then ''&#34;''
      else if c = CHR ''&'' then ''&amp;''
      else if c = CHR 0x27 then ''&#39;''
      else if c = CHR ''+'' then ''&#43;''
      else if c = CHR ''<'' then ''&lt;''
      else if c = CHR ''>'' then ''&gt;''
      else [c])"

definition html_escape :: "string \<Rightarrow> string" where
  "html_escape s = concat (map html_escape_char s)"

definition is_alnum :: "char \<Rightarrow> bool" where
  "is_alnum c \<longleftrightarrow> (let n = (of_char c :: nat) in 48 \<le> n \<and> n \<le> 57 \<or> 65 \<le> n \<and> n \<le> 90 \<or> 97 \<le> n \<and> n \<le> 122)"

definition isHex :: "char \<Rightarrow> bool" where
  "isHex c \<longleftrightarrow> (let n = (of_char c :: nat) in 48 \<le> n \<and> n \<le> 57 \<or> 97 \<le> n \<and> n \<le> 102 \<or> 65 \<le> n \<and> n \<le> 70)"

definition url_kept :: "char \<Rightarrow> bool" where
  "url_kept c \<longleftrightarrow> c \<in> set ''!#$&*+,/:;=?@[]-._~'' \<or> is_alnum c"

fun url_normalize :: "string \<Rightarrow> string" where
  "url_normalize [] = []"
| "url_normalize (c # s) =
     (if url_kept c \<or> c = CHR ''%'' \<and> 2 \<le> length s \<and> isHex (s ! 0) \<and> isHex (s ! 1) then [c]
      else CHR ''%'' # hex_EncodeToString [c]) @ url_normalize s"

text \<open>\<^verbatim>\<open>strings.EqualFold\<close> against a lower-case ASCII word: besides the capitals, the long s
  (U+017F) folds to s and the Kelvin sign (U+212A) to k.\<close>

fun fold_case :: "string \<Rightarrow> string" where
  "fold_case [] = []"
| "fold_case (c # s) =
     (if take 2 (c # s) = [CHR 0xC5, CHR 0xBF] then CHR ''s'' # fold_case (drop 1 s)
      else if take 3 (c # s) = [CHR 0xE2, CHR 0x84, CHR 0xAA] then CHR ''k'' # fold_case (drop 2 s)
      else (let n = (of_char c :: nat) in if 65 \<le> n \<and> n \<le> 90 then char_of (n + 32) else c) # fold_case s)"

definition isSafeURL :: "string \<Rightarrow> bool" where
  "isSafeURL s =
     (let protocol = takeWhile (\<lambda>c. c \<noteq> CHR '':'') s in
      if CHR '':'' \<in> set s \<and> CHR ''/'' \<notin> set protocol
      then fold_case protocol \<in> {''http'', ''https'', ''mailto''} else True)"

definition url_filter :: "string \<Rightarrow> string" where
  "url_filter s = (if isSafeURL s then s else ''#ZgotmplZ'')"

definition href_escape :: "string \<Rightarrow> string" where
  "href_escape s = html_escape (url_normalize (url_filter s))"

section \<open>Templates\<close>

datatype piece = Markup string | Text string | Href string

definition nl :: string where "nl = [CHR 0x0A]"
definition tab :: string where "tab = [CHR 0x09]"
definition quote :: string where "quote = [CHR 0x22]"

fun piece_out :: "(string \<Rightarrow> string) \<Rightarrow> piece \<Rightarrow> string" where
  "piece_out v (Markup s) = s"
| "piece_out v (Text field) = html_escape (v field)"
| "piece_out v (Href field) = href_escape (v field)"

definition execute :: "piece list \<Rightarrow> (string \<Rightarrow> string) \<Rightarrow> string" where
  "execute tmpl v = concat (map (piece_out v) tmpl)"

definition styled :: "string \<Rightarrow> string" where
  "styled s = quote @ '' style='' @ quote @ s @ quote @ ''>''"

definition confirmationTmpl :: "piece list" where
  "confirmationTmpl =
     [Markup (nl @ ''<p>Confirm subscription to <b>''), Text ''RepoName'',
      Markup (''</b>:</p>'' @ nl @ ''<p>'' @ nl @ tab @ ''<a href='' @ quote), Href ''ConfirmLink'',
      Markup (styled (''background-color: #2ea44f; color: white; padding: 10px 20px; '' @
                      ''text-decoration: none; border-radius: 5px; display: inline-block;'') @
              ''Confirm Subscription</a>'' @ nl @ ''</p>'' @ nl)]"

definition releaseTmpl :: "piece list" where
  "releaseTmpl =
     [Markup (nl @ ''<h3>New release available for <b>''), Text ''ReleaseName'',
      Markup (''</b></h3>'' @ nl @ ''<p><b>Tag:</b> ''), Text ''Tag'',
      Markup (''</p>'' @ nl @ ''<p><b>Name:</b> ''), Text ''ReleaseName'',
      Markup (''</p>'' @ nl @ ''<p><a href='' @ quote), Href ''ReleaseURL'',
      Markup (styled (''background-color: #0366d6; color: white; padding: 8px 16px; '' @
                      ''text-decoration: none; border-radius: 5px; display: inline-block;'') @
              ''View Release on GitHub</a></p>'' @ nl @
              ''<p style='' @ quote @ ''margin-top: 16px;'' @ quote @ ''>'' @ nl @ tab @ ''<a href='' @ quote),
      Href ''UnsubscribeLink'',
      Markup (styled ''color: #6a737d; text-decoration: underline;'' @
              ''Unsubscribe from these notifications</a>'' @ nl @ ''</p>'' @ nl)]"

definition verificationTmpl :: "piece list" where
  "verificationTmpl =
     [Markup (nl @ ''<p>Verify your email address to activate your account:</p>'' @ nl @ ''<p>'' @ nl @ tab @
              ''<a href='' @ quote), Href ''VerifyLink'',
      Markup (styled (''background-color: #2ea44f; color: white; padding: 10px 20px; '' @
                      ''text-decoration: none; border-radius: 5px; display: inline-block;'') @
              ''Verify Email</a>'' @ nl @ ''</p>'' @ nl)]"

text \<open>The values a template is executed with, by the names of the fields.\<close>

definition with_fields :: "(string \<times> string) list \<Rightarrow> string \<Rightarrow> string" where
  "with_fields kvs k = (case map_of kvs k of None \<Rightarrow> '''' | Some x \<Rightarrow> x)"

definition renderVerificationEmail :: "string \<Rightarrow> string" where
  "renderVerificationEmail verifyLink = execute verificationTmpl (with_fields [(''VerifyLink'', verifyLink)])"

definition renderConfirmationEmail :: "string \<Rightarrow> string \<Rightarrow> string" where
  "renderConfirmationEmail repoName confirmLink =
     execute confirmationTmpl (with_fields [(''RepoName'', repoName), (''ConfirmLink'', confirmLink)])"

definition renderReleaseEmail :: "string \<Rightarrow> string \<Rightarrow> string \<Rightarrow> string \<Rightarrow> string" where
  "renderReleaseEmail releaseName tag releaseURL unsubscribeLink =
     execute releaseTmpl (with_fields [(''ReleaseName'', releaseName), (''Tag'', tag), (''ReleaseURL'', releaseURL),
                                  (''UnsubscribeLink'', unsubscribeLink)])"

section \<open>Values add no markup\<close>

definition markup_char :: "char \<Rightarrow> bool" where
  "markup_char c \<longleftrightarrow> c \<in> {CHR ''<'', CHR ''>'', CHR 0x22, CHR 0x27}"

definition piece_markup :: "piece \<Rightarrow> string" where
  "piece_markup p = (case p of Markup s \<Rightarrow> filter markup_char s | _ \<Rightarrow> '''')"

lemma html_escape_simps [simp]:
  "html_escape [] = []" "html_escape (c # s) = html_escape_char c @ html_escape s"
  by (simp_all add: html_escape_def)

lemma html_escape_append [simp]: "html_escape (s @ t) = html_escape s @ html_escape t"
  by (simp add: html_escape_def)

lemma html_escape_no_markup [simp]: "filter markup_char (html_escape s) = []"
proof (induction s)
  case (Cons c s)
  have "filter markup_char (html_escape_char c) = []"
    by (simp add: html_escape_char_def markup_char_def)
  then show ?case using Cons by simp
qed simp

lemma execute_markup: "filter markup_char (execute tmpl v) = concat (map piece_markup tmpl)"
proof (induction tmpl)
  case (Cons p ps)
  have "filter markup_char (piece_out v p) = piece_markup p"
    by (cases p) (simp_all add: piece_markup_def href_escape_def)
  then show ?case using Cons by (simp add: execute_def)
qed (simp add: execute_def)

lemma rendered_markup:
  "filter markup_char (renderConfirmationEmail repo link) = concat (map piece_markup confirmationTmpl)"
  "filter markup_char (renderReleaseEmail name tag url link) = concat (map piece_markup releaseTmpl)"
  "filter markup_char (renderVerificationEmail link) = concat (map piece_markup verificationTmpl)"
  by (simp_all add: renderConfirmationEmail_def renderReleaseEmail_def renderVerificationEmail_def execute_markup)

section \<open>Links survive\<close>

text \<open>What a reader of the mail decodes: the references the escaper writes.\<close>

fun html_unescape :: "string \<Rightarrow> string" where
  "html_unescape (c # s) =
     (if take 5 (c # s) = ''&#34;'' then CHR 0x22 # html_unescape (drop 4 s)
      else if take 5 (c # s) = ''&amp;'' then CHR ''&'' # html_unescape (drop 4 s)
      else if take 5 (c # s) = ''&#39;'' then CHR 0x27 # html_unescape (drop 4 s)
      else if take 5 (c # s) = ''&#43;'' then CHR ''+'' # html_unescape (drop 4 s)
      else if take 4 (c # s) = ''&lt;'' then CHR ''<'' # html_unescape (drop 3 s)
      else if take 4 (c # s) = ''&gt;'' then CHR ''>'' # html_unescape (drop 3 s)
      else c # html_unescape s)"
| "html_unescape [] = []"

declare html_unescape.simps(1) [simp del]

lemma html_unescape_plain: "c \<noteq> CHR ''&'' \<Longrightarrow> html_unescape (c # t) = c # html_unescape t"
  by (subst html_unescape.simps(1)) simp

lemma html_unescape_references:
  "html_unescape (''&#34;'' @ t) = CHR 0x22 # html_unescape t"
  "html_unescape (''&amp;'' @ t) = CHR ''&'' # html_unescape t"
  "html_unescape (''&#39;'' @ t) = CHR 0x27 # html_unescape t"
  "html_unescape (''&#43;'' @ t) = CHR ''+'' # html_unescape t"
  "html_unescape (''&lt;'' @ t) = CHR ''<'' # html_unescape t"
  "html_unescape (''&gt;'' @ t) = CHR ''>'' # html_unescape t"
  by (unfold append_Cons append_Nil) (subst html_unescape.simps(1), simp)+

lemma html_unescape_char:
  assumes "c \<noteq> CHR 0x00"
  shows "html_unescape (html_escape_char c @ t) = c # html_unescape t"
proof (cases "html_escape_char c = [c]")
  case True
  then have "c \<noteq> CHR ''&''" by (auto simp: html_escape_char_def)
  then show ?thesis unfolding True append_Cons append_Nil by (rule html_unescape_plain)
next
  case False
  then consider "c = CHR 0x22" | "c = CHR ''&''" | "c = CHR 0x27" | "c = CHR ''+''" | "c = CHR ''<''" | "c = CHR ''>''"
    using assms unfolding html_escape_char_def by presburger
  then show ?thesis
    by cases (simp only: html_escape_char_def html_unescape_references char.inject if_True if_False simp_thms)+
qed

lemma html_unescape_escape: "CHR 0x00 \<notin> set s \<Longrightarrow> html_unescape (html_escape s) = s"
proof (induction s)
  case (Cons c s)
  then have "c \<noteq> CHR 0x00" "html_unescape (html_escape s) = s" by auto
  then show ?case by (simp only: html_escape_simps html_unescape_char not_False_eq_True)
qed simp

lemma url_normalize_kept: "list_all url_kept s \<Longrightarrow> url_normalize s = s"
  by (induction s) simp_all

lemma href_survives:
  assumes "isSafeURL s" "list_all url_kept s"
  shows "html_unescape (href_escape s) = s"
proof -
  have "\<not> url_kept (CHR 0x00)" by (simp add: url_kept_def is_alnum_def)
  then have "CHR 0x00 \<notin> set s" using assms(2) by (meson list_all_iff)
  then show ?thesis
    using assms by (simp add: href_escape_def url_filter_def url_normalize_kept html_unescape_escape)
qed

end
