(* ===== verification/Mailer.thy ===== *)
theory Mailer
  imports Contract Templates
begin

text \<open>
  The mailer of the notification service (\<^verbatim>\<open>internal/mailer\<close>). The SMTP client is the
  standard library's: a session is the sequence of commands it issues, and the server answers
  each from a list the environment chooses (\<open>Lost\<close>: the command took effect and only its answer
  was lost).
\<close>

section \<open>The SMTP server\<close>

datatype smtp_cmd =
    Dial string
  | ExtStartTLS
  | StartTLS string
  | PlainAuth string string string
  | MailFrom string
  | RcptTo string
  | Data
  | Write string
  | CloseData
  | Reset
  | CloseConn

datatype reply = Accept | Reject string | Lost string

record smtp =
  sm_replies :: "reply list"
  sm_log :: "smtp_cmd list"
  sm_from :: string
  sm_to :: string
  sm_buffer :: string
  sm_sent :: "(string \<times> string \<times> string) list"

type_synonym 'a mail_run = "(smtp, 'a) run"

definition next_reply :: "reply list \<Rightarrow> reply" where
  "next_reply rs = (case rs of [] \<Rightarrow> Accept | r # _ \<Rightarrow> r)"

text \<open>What an accepted command does to the server.\<close>

fun smtp_effect :: "smtp_cmd \<Rightarrow> smtp \<Rightarrow> smtp" where
  "smtp_effect (MailFrom a) s = s\<lparr>sm_from := a\<rparr>"
| "smtp_effect (RcptTo a) s = s\<lparr>sm_to := a\<rparr>"
| "smtp_effect Data s = s\<lparr>sm_buffer := []\<rparr>"
| "smtp_effect (Write m) s = s\<lparr>sm_buffer := m\<rparr>"
| "smtp_effect CloseData s = s\<lparr>sm_sent := sm_sent s @ [(sm_from s, sm_to s, sm_buffer s)]\<rparr>"
| "smtp_effect _ s = s"

definition smtp_do :: "smtp_cmd \<Rightarrow> string option mail_run" where
  "smtp_do c = State (\<lambda>w.
     let s = committed w; s' = s\<lparr>sm_replies := tl (sm_replies s), sm_log := sm_log s @ [c]\<rparr> in
     case next_reply (sm_replies s) of
       Accept \<Rightarrow> (None, w\<lparr>committed := smtp_effect c s'\<rparr>)
     | Reject e \<Rightarrow> (Some e, w\<lparr>committed := s'\<rparr>)
     | Lost e \<Rightarrow> (Some e, w\<lparr>committed := smtp_effect c s'\<rparr>))"

lemma wp_smtp_do [wp_simps]:
  "wp (smtp_do c) Q w =
     (let s = committed w; s' = s\<lparr>sm_replies := tl (sm_replies s), sm_log := sm_log s @ [c]\<rparr> in
      case next_reply (sm_replies s) of
        Accept \<Rightarrow> Q None (w\<lparr>committed := smtp_effect c s'\<rparr>)
      | Reject e \<Rightarrow> Q (Some e) (w\<lparr>committed := s'\<rparr>)
      | Lost e \<Rightarrow> Q (Some e) (w\<lparr>committed := smtp_effect c s'\<rparr>))"
  by (auto simp: wp_def smtp_do_def Let_def split: reply.splits)

section \<open>The mailer\<close>

record Mailer =
  m_host :: string
  m_port :: string
  m_user :: string
  m_pass :: string
  m_fromEmail :: string
  m_appBaseURL :: string

definition NewMailer :: "string \<Rightarrow> string \<Rightarrow> string \<Rightarrow> string \<Rightarrow> string \<Rightarrow> string \<Rightarrow> Mailer" where
  "NewMailer host port user pass fromEmail appBaseURL =
     \<lparr>m_host = host, m_port = port, m_user = user, m_pass = pass, m_fromEmail = fromEmail,
      m_appBaseURL = appBaseURL\<rparr>"

definition crlf :: string where "crlf = [CHR 0x0D, CHR 0x0A]"

definition mail_text :: "Mailer \<Rightarrow> string \<Rightarrow> string \<Rightarrow> string \<Rightarrow> string" where
  "mail_text m toEmail subject body =
     ''From: '' @ m_fromEmail m @ crlf @ ''To: '' @ toEmail @ crlf @ ''Subject: '' @ subject @ crlf @
     ''MIME-Version: 1.0'' @ crlf @ ''Content-Type: text/html; charset='' @ [CHR 0x22] @ ''UTF-8'' @ [CHR 0x22] @
     crlf @ crlf @ body"

text \<open>\<open>on_error r text k\<close>: \<^verbatim>\<open>if err != nil { return fmt.Errorf(text + ": %w", err) }\<close>.\<close>

definition on_error :: "string option \<Rightarrow> string \<Rightarrow> string option mail_run \<Rightarrow> string option mail_run" where
  "on_error r text k = (case r of Some e \<Rightarrow> ret (Some (text @ '': '' @ e)) | None \<Rightarrow> k)"

definition on_error_reset :: "string option \<Rightarrow> string \<Rightarrow> string option mail_run \<Rightarrow> string option mail_run" where
  "on_error_reset r text k =
     (case r of Some e \<Rightarrow> do { smtp_do Reset; ret (Some (text @ '': '' @ e)) } | None \<Rightarrow> k)"

definition smtp_transfer :: "Mailer \<Rightarrow> string \<Rightarrow> string \<Rightarrow> string \<Rightarrow> string option mail_run" where
  "smtp_transfer m toEmail subject body =
     do { r \<leftarrow> smtp_do (MailFrom (m_fromEmail m));
          on_error r ''MAIL FROM'' (do {
            r \<leftarrow> smtp_do (RcptTo toEmail);
            on_error_reset r ''RCPT TO'' (do {
              r \<leftarrow> smtp_do Data;
              on_error_reset r ''DATA'' (do {
                r \<leftarrow> smtp_do (Write (mail_text m toEmail subject body));
                case r of
                  Some e \<Rightarrow> do { smtp_do CloseData; smtp_do Reset; ret (Some (''write message: '' @ e)) }
                | None \<Rightarrow> smtp_do CloseData }) }) }) }"

definition smtp_login :: "Mailer \<Rightarrow> string option mail_run \<Rightarrow> string option mail_run" where
  "smtp_login m k =
     (if m_user m \<noteq> '''' \<and> m_pass m \<noteq> ''''
      then do { r \<leftarrow> smtp_do (PlainAuth (m_user m) (m_pass m) (m_host m)); on_error r ''smtp auth'' k }
      else k)"

definition sendOne :: "Mailer \<Rightarrow> string \<Rightarrow> string \<Rightarrow> string \<Rightarrow> string option mail_run" where
  "sendOne m toEmail subject body =
     do { r \<leftarrow> smtp_do (Dial (m_host m @ '':'' @ m_port m));
          on_error r ''dial smtp'' (do {
            result \<leftarrow> (do {
              ext \<leftarrow> smtp_do ExtStartTLS;
              if ext = None
              then do {
                r \<leftarrow> smtp_do (StartTLS (m_host m));
                on_error r ''smtp starttls'' (smtp_login m (smtp_transfer m toEmail subject body)) }
              else smtp_login m (smtp_transfer m toEmail subject body) });
            smtp_do CloseConn;
            ret result }) }"

text \<open>The three mails. The renderers do not fail, so neither do these before the session.\<close>

definition SendConfirmation :: "Mailer \<Rightarrow> string \<Rightarrow> string \<Rightarrow> string \<Rightarrow> string option mail_run" where
  "SendConfirmation m toEmail repoName confirmToken =
     sendOne m toEmail (''Confirm subscription: '' @ repoName)
       (renderConfirmationEmail repoName (m_appBaseURL m @ ''/confirm/'' @ confirmToken))"

definition SendRelease ::
  "Mailer \<Rightarrow> string \<Rightarrow> string \<Rightarrow> string \<Rightarrow> string \<Rightarrow> string \<Rightarrow> string option mail_run" where
  "SendRelease m toEmail unsubscribeToken releaseTag releaseName releaseURL =
     sendOne m toEmail (''New Release for '' @ releaseName @ '': '' @ releaseTag)
       (renderReleaseEmail releaseName releaseTag releaseURL
          (m_appBaseURL m @ ''/unsubscribe/'' @ unsubscribeToken))"

definition SendVerification :: "Mailer \<Rightarrow> string \<Rightarrow> string \<Rightarrow> string option mail_run" where
  "SendVerification m toEmail verifyToken =
     sendOne m toEmail ''Verify your email address''
       (renderVerificationEmail (m_appBaseURL m @ ''/verify-email/'' @ verifyToken))"

section \<open>What one call sends\<close>

lemmas mailer_defs = sendOne_def smtp_login_def smtp_transfer_def on_error_def on_error_reset_def

definition elsewhere :: "'db world \<Rightarrow> 'db world \<Rightarrow> bool" where
  "elsewhere w w' \<longleftrightarrow> w' = w\<lparr>committed := committed w'\<rparr>"

text \<open>
  Success means that exactly this mail was accepted; after an error the server may still have it
  (the answer to the end of the data was lost), or an empty one to the same recipient (the write
  failed and the data was closed).
\<close>

definition sends :: "Mailer \<Rightarrow> string \<Rightarrow> string \<Rightarrow> string \<Rightarrow> smtp world \<Rightarrow> string option \<Rightarrow> smtp world \<Rightarrow> bool" where
  "sends m toEmail subject body w r w' \<longleftrightarrow>
     elsewhere w w' \<and>
     (r = None \<longrightarrow> sm_sent (committed w') =
        sm_sent (committed w) @ [(m_fromEmail m, toEmail, mail_text m toEmail subject body)]) \<and>
     (\<exists>extra. sm_sent (committed w') = sm_sent (committed w) @ extra \<and> length extra \<le> 1 \<and>
        (\<forall>y \<in> set extra. \<exists>text. y = (m_fromEmail m, toEmail, text) \<and>
           text \<in> {mail_text m toEmail subject body, []}))"

text \<open>Commands that only talk do not change what was sent.\<close>

definition quiet :: "smtp world \<Rightarrow> smtp world \<Rightarrow> bool" where
  "quiet w v \<longleftrightarrow> elsewhere w v \<and> sm_sent (committed v) = sm_sent (committed w)"

lemma elsewhere_upd [simp]: "elsewhere w (w\<lparr>committed := s\<rparr>)"
  by (simp add: elsewhere_def)

lemma elsewhere_refl [simp]: "elsewhere w w"
  by (simp add: elsewhere_def)

lemma elsewhere_trans: "elsewhere u v \<Longrightarrow> elsewhere v w \<Longrightarrow> elsewhere u w"
  by (cases u; cases v; cases w) (simp add: elsewhere_def)

lemma quiet_sends: "quiet w v \<Longrightarrow> sends m toEmail subject body v r v' \<Longrightarrow> sends m toEmail subject body w r v'"
  by (auto simp: quiet_def sends_def dest: elsewhere_trans)

lemma sends_quiet: "sends m toEmail subject body w r v \<Longrightarrow> quiet v v' \<Longrightarrow> sends m toEmail subject body w r v'"
  by (auto simp: quiet_def sends_def dest: elsewhere_trans)

lemma quiet_error: "quiet w v \<Longrightarrow> sends m toEmail subject body w (Some e) v"
  by (auto simp: quiet_def sends_def)

definition talks :: "smtp_cmd \<Rightarrow> bool" where
  "talks c \<longleftrightarrow> (\<forall>s. sm_sent (smtp_effect c s) = sm_sent s)"

lemma wp_talk: "talks c \<Longrightarrow> (\<And>r v. quiet w v \<Longrightarrow> Q r v) \<Longrightarrow> wp (smtp_do c) Q w"
  by (simp add: wp_smtp_do Let_def talks_def quiet_def split: reply.splits)

lemma talks_simps [simp]: "talks (Dial a)" "talks ExtStartTLS" "talks (StartTLS h)" "talks (PlainAuth u p h)"
  "talks CloseConn" "talks Reset" "talks (MailFrom a)" "talks (RcptTo a)" "talks Data" "talks (Write t)"
  by (simp_all add: talks_def)

lemma wp_smtp_transfer:
  "wp (smtp_transfer m toEmail subject body) (sends m toEmail subject body w) w"
  by (auto simp: smtp_transfer_def on_error_def on_error_reset_def wp_simps Let_def sends_def
      split: reply.splits)

lemma wp_smtp_login:
  assumes "\<And>v. wp k (sends m toEmail subject body v) v"
  shows "wp (smtp_login m k) (sends m toEmail subject body w) w"
proof -
  have "wp (on_error r ''smtp auth'' k) (sends m toEmail subject body w) v" if "quiet w v" for r v
    unfolding on_error_def using quiet_error [OF that] quiet_sends [OF that]
    by (cases r) (auto simp: wp_return intro: wp_mono [OF assms])
  then show ?thesis
    using assms by (simp add: smtp_login_def wp_bind wp_talk)
qed

lemma wp_sendOne:
  "wp (sendOne m toEmail subject body) (sends m toEmail subject body w) w"
proof -
  let ?s = "sends m toEmail subject body w"
  have close: "wp (smtp_do CloseConn) (\<lambda>_. wp (ret r) ?s) v" if "?s r v" for r v
    by (rule wp_talk) (simp_all add: wp_return sends_quiet [OF that])
  have session: "wp (smtp_login m (smtp_transfer m toEmail subject body))
      (\<lambda>r. wp (smtp_do CloseConn) (\<lambda>_. wp (ret r) ?s)) v" if "quiet w v" for v
    by (rule wp_mono [OF wp_smtp_login [OF wp_smtp_transfer]]) (rule close [OF quiet_sends [OF that]])
  have tls: "wp (smtp_do (StartTLS h)) (\<lambda>r. wp (on_error r ''smtp starttls'' (smtp_login m (smtp_transfer m toEmail subject body)))
      (\<lambda>r. wp (smtp_do CloseConn) (\<lambda>_. wp (ret r) ?s))) v" if "quiet w v" for h v
  proof (rule wp_talk)
    fix r v' assume "quiet v v'"
    then have q: "quiet w v'" using that by (auto simp: quiet_def dest: elsewhere_trans)
    then show "wp (on_error r ''smtp starttls'' (smtp_login m (smtp_transfer m toEmail subject body)))
        (\<lambda>r. wp (smtp_do CloseConn) (\<lambda>_. wp (ret r) ?s)) v'"
      unfolding on_error_def
      by (cases r) (simp_all add: session wp_return close quiet_error)
  qed simp
  have ext: "wp (smtp_do ExtStartTLS) (\<lambda>ext v. if ext = None
      then wp (smtp_do (StartTLS (m_host m))) (\<lambda>r. wp (on_error r ''smtp starttls'' (smtp_login m (smtp_transfer m toEmail subject body)))
        (\<lambda>r. wp (smtp_do CloseConn) (\<lambda>_. wp (ret r) ?s))) v
      else wp (smtp_login m (smtp_transfer m toEmail subject body)) (\<lambda>r. wp (smtp_do CloseConn) (\<lambda>_. wp (ret r) ?s)) v) v"
    if "quiet w v" for v
  proof (rule wp_talk)
    fix r v' assume "quiet v v'"
    then have "quiet w v'" using that by (auto simp: quiet_def dest: elsewhere_trans)
    then show "if r = None
      then wp (smtp_do (StartTLS (m_host m))) (\<lambda>r. wp (on_error r ''smtp starttls'' (smtp_login m (smtp_transfer m toEmail subject body)))
        (\<lambda>r. wp (smtp_do CloseConn) (\<lambda>_. wp (ret r) ?s))) v'
      else wp (smtp_login m (smtp_transfer m toEmail subject body)) (\<lambda>r. wp (smtp_do CloseConn) (\<lambda>_. wp (ret r) ?s)) v'"
      by (simp add: tls session)
  qed simp
  show ?thesis
    unfolding sendOne_def wp_bind
  proof (rule wp_talk)
    fix r v assume q: "quiet w v"
    then show "wp (on_error r ''dial smtp'' (do {
        result \<leftarrow> (do {
          ext \<leftarrow> smtp_do ExtStartTLS;
          if ext = None
          then do {
            r \<leftarrow> smtp_do (StartTLS (m_host m));
            on_error r ''smtp starttls'' (smtp_login m (smtp_transfer m toEmail subject body)) }
          else smtp_login m (smtp_transfer m toEmail subject body) });
        smtp_do CloseConn;
        ret result })) ?s v"
      using ext [OF q] quiet_error [OF q]
      by (cases r) (auto simp: on_error_def wp_bind wp_return elim!: wp_mono)
  qed simp
qed

text \<open>When the server accepts everything the mail is sent.\<close>

lemma sendOne_accepted:
  "sm_replies (committed w) = [] \<Longrightarrow> wp (sendOne m toEmail subject body) (\<lambda>r w'. r = None) w"
  by (simp add: mailer_defs wp_simps Let_def next_reply_def)

end
