(* ===== verification/Notification.thy ===== *)
theory Notification
  imports Mailer
begin

text \<open>
  The consumer of the notification service (\<^verbatim>\<open>internal/consumer\<close>): what it does with one
  delivery of a message, and what becomes of a message over its deliveries. The mailer is an
  interface; its contract is the locale \<open>mail_sender\<close>, interpreted on the SMTP mailer. The reading
  of the clock as RFC 3339 text is the parameter \<open>rfc3339\<close>.
\<close>

definition maxDeliver :: nat where "maxDeliver = 5"

datatype outcome = outcomeAck | outcomePoison | outcomeRetry

datatype action = actionAck | actionNak | actionDLQ

record 'db mail_iface =
  mi_SendConfirmation :: "string \<Rightarrow> string \<Rightarrow> string \<Rightarrow> ('db, string option) run"
  mi_SendRelease :: "string \<Rightarrow> string \<Rightarrow> string \<Rightarrow> string \<Rightarrow> string \<Rightarrow> ('db, string option) run"
  mi_SendVerification :: "string \<Rightarrow> string \<Rightarrow> ('db, string option) run"

section \<open>One delivery\<close>

definition decideAction :: "outcome \<Rightarrow> nat \<Rightarrow> action" where
  "decideAction oc numDelivered =
     (case oc of
        outcomeAck \<Rightarrow> actionAck
      | outcomePoison \<Rightarrow> actionDLQ
      | outcomeRetry \<Rightarrow> if numDelivered \<ge> maxDeliver then actionDLQ else actionNak)"

definition processMessage :: "string \<Rightarrow> bytes \<Rightarrow> 'db mail_iface \<Rightarrow> ('db, outcome \<times> string \<times> string) run" where
  "processMessage subject data m =
     (if subject = SubjectConfirmation then
        (case Unmarshal_ConfirmationRequested data of
           None \<Rightarrow> ret (outcomePoison, ''unmarshalable'', '''')
         | Some ev \<Rightarrow> do {
             r \<leftarrow> mi_SendConfirmation m (cr_Email ev) (cr_RepoName ev) (cr_ConfirmToken ev);
             case r of
               Some e \<Rightarrow> ret (outcomeRetry, e, cr_SagaID ev)
             | None \<Rightarrow> ret (outcomeAck, '''', cr_SagaID ev) })
      else if subject = SubjectVerifyEmail then
        (case Unmarshal_VerificationRequested data of
           None \<Rightarrow> ret (outcomePoison, ''unmarshalable'', '''')
         | Some ev \<Rightarrow> do {
             r \<leftarrow> mi_SendVerification m (vr_Email ev) (vr_VerifyToken ev);
             case r of
               Some e \<Rightarrow> ret (outcomeRetry, e, '''')
             | None \<Rightarrow> ret (outcomeAck, '''', '''') })
      else if subject = SubjectRelease then
        (case Unmarshal_ReleaseDetected data of
           None \<Rightarrow> ret (outcomePoison, ''unmarshalable'', '''')
         | Some ev \<Rightarrow> do {
             r \<leftarrow> mi_SendRelease m (rd_Email ev) (rd_UnsubscribeToken ev) (rd_ReleaseTag ev)
                   (rd_ReleaseName ev) (rd_ReleaseURL ev);
             case r of
               Some e \<Rightarrow> ret (outcomeRetry, e, '''')
             | None \<Rightarrow> ret (outcomeAck, '''', '''') })
      else ret (outcomeAck, '''', ''''))"

record MsgMetadata =
  mm_NumDelivered :: nat
  mm_StreamSeq :: nat

definition publishEmailSent :: "string \<Rightarrow> MsgMetadata \<Rightarrow> ('db, unit) run" where
  "publishEmailSent sagaID meta =
     do { (r :: unit error + unit) \<leftarrow> js_Publish SubjectEmailSent (Marshal_EmailSent \<lparr>es_SagaID = sagaID\<rparr>)
            (''sent-'' @ show_nat (mm_StreamSeq meta));
          ret () }"

definition publishEmailFailed :: "string \<Rightarrow> string \<Rightarrow> MsgMetadata \<Rightarrow> ('db, unit) run" where
  "publishEmailFailed sagaID reason meta =
     do { (r :: unit error + unit) \<leftarrow> js_Publish SubjectEmailFailed
            (Marshal_EmailFailed \<lparr>ef_SagaID = sagaID, ef_Reason = reason\<rparr>)
            (''failed-'' @ show_nat (mm_StreamSeq meta));
          ret () }"

text \<open>Data that is not JSON is kept as a JSON string.\<close>

definition buildDeadLetter :: "(int \<Rightarrow> string) \<Rightarrow> string \<Rightarrow> bytes \<Rightarrow> string \<Rightarrow> nat \<Rightarrow> ('db, DeadLetter) run" where
  "buildDeadLetter rfc3339 subject data reason attempts =
     (let payload = (case data of Json j \<Rightarrow> j | NotJson s \<Rightarrow> JStr s) in
      do { now \<leftarrow> time_Now;
           ret \<lparr>dl_OriginalSubject = subject, dl_Payload = payload, dl_Reason = reason,
                dl_Attempts = int attempts, dl_FailedAt = rfc3339 now\<rparr> })"

definition toDLQ :: "(int \<Rightarrow> string) \<Rightarrow> string \<Rightarrow> bytes \<Rightarrow> string \<Rightarrow> MsgMetadata \<Rightarrow> ('db, verdict) run" where
  "toDLQ rfc3339 subject data reason meta =
     do { dl \<leftarrow> buildDeadLetter rfc3339 subject data reason (mm_NumDelivered meta);
          (r :: unit error + unit) \<leftarrow> js_Publish SubjectDead (Marshal_DeadLetter dl) (show_nat (mm_StreamSeq meta));
          ret (case r of Inl _ \<Rightarrow> Nak | Inr _ \<Rightarrow> Ack) }"

text \<open>The callback given to \<^verbatim>\<open>cons.Consume\<close>; \<open>meta = None\<close> is a failed \<^verbatim>\<open>msg.Metadata()\<close>.\<close>

definition consume ::
  "(int \<Rightarrow> string) \<Rightarrow> 'db mail_iface \<Rightarrow> string \<Rightarrow> bytes \<Rightarrow> MsgMetadata option \<Rightarrow> ('db, verdict) run" where
  "consume rfc3339 m subject data meta =
     (case meta of
        None \<Rightarrow> ret Nak
      | Some meta \<Rightarrow> do {
          p \<leftarrow> processMessage subject data m;
          case p of (oc, reason, sagaID) \<Rightarrow>
            (case decideAction oc (mm_NumDelivered meta) of
               actionDLQ \<Rightarrow> do {
                 v \<leftarrow> toDLQ rfc3339 subject data reason meta;
                 if sagaID \<noteq> '''' then do { publishEmailFailed sagaID reason meta; ret v } else ret v }
             | actionAck \<Rightarrow>
                 if sagaID \<noteq> '''' then do { publishEmailSent sagaID meta; ret Ack } else ret Ack
             | actionNak \<Rightarrow> ret Nak) })"

text \<open>The dead-letter inspector acknowledges every message it reads.\<close>

definition inspect_dead_letter :: "(string \<Rightarrow> bool) \<Rightarrow> bytes \<Rightarrow> verdict \<times> DeadLetter option" where
  "inspect_dead_letter time_ok data = (Ack, Unmarshal_DeadLetter time_ok data)"

definition deliver_all ::
  "(int \<Rightarrow> string) \<Rightarrow> 'db mail_iface \<Rightarrow> string \<Rightarrow> bytes \<Rightarrow> nat \<Rightarrow> ('db, verdict) run" where
  "deliver_all rfc3339 m subject data sq =
     redeliver maxDeliver (\<lambda>n. consume rfc3339 m subject data (Some \<lparr>mm_NumDelivered = n, mm_StreamSeq = sq\<rparr>)) 1"

section \<open>Facts on one delivery\<close>

lemma decideAction_DLQ:
  "decideAction oc n = actionDLQ \<longleftrightarrow> oc = outcomePoison \<or> oc = outcomeRetry \<and> maxDeliver \<le> n"
  by (cases oc) (simp_all add: decideAction_def)

lemma decideAction_Nak: "decideAction oc n = actionNak \<longleftrightarrow> oc = outcomeRetry \<and> n < maxDeliver"
  by (cases oc) (auto simp: decideAction_def)

lemma decideAction_Ack: "decideAction oc n = actionAck \<longleftrightarrow> oc = outcomeAck"
  by (cases oc) (simp_all add: decideAction_def)

text \<open>What a message asks to be mailed.\<close>

datatype mail =
    ConfirmationMail string string string
  | ReleaseMail string string string string string
  | VerificationMail string string

definition mail_of :: "string \<Rightarrow> bytes \<Rightarrow> mail option" where
  "mail_of subject data =
     (if subject = SubjectConfirmation then
        map_option (\<lambda>ev. ConfirmationMail (cr_Email ev) (cr_RepoName ev) (cr_ConfirmToken ev))
          (Unmarshal_ConfirmationRequested data)
      else if subject = SubjectVerifyEmail then
        map_option (\<lambda>ev. VerificationMail (vr_Email ev) (vr_VerifyToken ev)) (Unmarshal_VerificationRequested data)
      else if subject = SubjectRelease then
        map_option (\<lambda>ev. ReleaseMail (rd_Email ev) (rd_UnsubscribeToken ev) (rd_ReleaseTag ev) (rd_ReleaseName ev)
          (rd_ReleaseURL ev)) (Unmarshal_ReleaseDetected data)
      else None)"

definition known_subject :: "string \<Rightarrow> bool" where
  "known_subject subject \<longleftrightarrow> subject \<in> {SubjectConfirmation, SubjectVerifyEmail, SubjectRelease}"

text \<open>The saga a message reports to: that of a confirmation request it can decode.\<close>

definition saga_of :: "string \<Rightarrow> bytes \<Rightarrow> string" where
  "saga_of subject data =
     (if subject = SubjectConfirmation
      then (case Unmarshal_ConfirmationRequested data of None \<Rightarrow> '''' | Some ev \<Rightarrow> cr_SagaID ev) else '''')"

fun send_mail :: "'db mail_iface \<Rightarrow> mail \<Rightarrow> ('db, string option) run" where
  "send_mail m (ConfirmationMail a b c) = mi_SendConfirmation m a b c"
| "send_mail m (ReleaseMail a b c d e) = mi_SendRelease m a b c d e"
| "send_mail m (VerificationMail a b) = mi_SendVerification m a b"

lemma processMessage_eq:
  "wp (processMessage subject data m) Q w =
     (case mail_of subject data of
        Some x \<Rightarrow> wp (send_mail m x) (\<lambda>r. case r of
            Some e \<Rightarrow> Q (outcomeRetry, e, saga_of subject data)
          | None \<Rightarrow> Q (outcomeAck, '''', saga_of subject data)) w
      | None \<Rightarrow>
          if known_subject subject then Q (outcomePoison, ''unmarshalable'', '''') w
          else Q (outcomeAck, '''', '''') w)"
proof -
  have alt: "(\<lambda>r. wp (case r of None \<Rightarrow> ret a | Some e \<Rightarrow> ret (f e)) Q) =
      (\<lambda>r. case r of None \<Rightarrow> Q a | Some e \<Rightarrow> Q (f e))" for a f
    by (intro ext) (simp add: wp_return split: option.splits)
  show ?thesis
    by (simp add: processMessage_def mail_of_def saga_of_def known_subject_def wp_bind wp_return alt
        split: option.splits)
qed

section \<open>What the mailer promises\<close>

text \<open>
  \<open>mails\<close> is what the mail server has accepted, \<open>meant x\<close> what may become of the mail \<open>x\<close> there.
  A successful call sent exactly the mail asked for; a failed one may have sent at most one.
\<close>

locale mail_sender =
  fixes m :: "'db mail_iface" and mails :: "'db \<Rightarrow> 'm list" and as_mail :: "mail \<Rightarrow> 'm"
    and meant :: "mail \<Rightarrow> 'm \<Rightarrow> bool"
  assumes send_law: "wp (send_mail m x) (\<lambda>r w'. elsewhere w w' \<and>
      (r = None \<longrightarrow> mails (committed w') = mails (committed w) @ [as_mail x]) \<and>
      (\<exists>extra. mails (committed w') = mails (committed w) @ extra \<and> length extra \<le> 1 \<and>
         (\<forall>y \<in> set extra. meant x y))) w"

text \<open>The messages a resolved delivery publishes.\<close>

definition sent_reply :: "string \<Rightarrow> nat \<Rightarrow> js_msg list" where
  "sent_reply sagaID sq =
     (if sagaID = '''' then []
      else [\<lparr>msg_subject = SubjectEmailSent, msg_data = Marshal_EmailSent \<lparr>es_SagaID = sagaID\<rparr>,
             msg_id = ''sent-'' @ show_nat sq\<rparr>])"

definition failed_reply :: "string \<Rightarrow> string \<Rightarrow> nat \<Rightarrow> js_msg list" where
  "failed_reply sagaID reason sq =
     (if sagaID = '''' then []
      else [\<lparr>msg_subject = SubjectEmailFailed,
             msg_data = Marshal_EmailFailed \<lparr>ef_SagaID = sagaID, ef_Reason = reason\<rparr>,
             msg_id = ''failed-'' @ show_nat sq\<rparr>])"

definition dead_letter :: "string \<Rightarrow> bytes \<Rightarrow> string \<Rightarrow> nat \<Rightarrow> string \<Rightarrow> DeadLetter" where
  "dead_letter subject data reason attempts at =
     \<lparr>dl_OriginalSubject = subject, dl_Payload = (case data of Json j \<Rightarrow> j | NotJson s \<Rightarrow> JStr s),
      dl_Reason = reason, dl_Attempts = int attempts, dl_FailedAt = at\<rparr>"

definition dead_msg :: "DeadLetter \<Rightarrow> nat \<Rightarrow> js_msg" where
  "dead_msg dl sq = \<lparr>msg_subject = SubjectDead, msg_data = Marshal_DeadLetter dl, msg_id = show_nat sq\<rparr>"

text \<open>
  How a message may have been resolved: mailed, and the saga told; dead-lettered, and the saga told;
  or passed_over. \<open>n\<close> is the number of the delivery that resolved it.
\<close>

definition mailed ::
  "('db \<Rightarrow> 'm list) \<Rightarrow> (mail \<Rightarrow> 'm) \<Rightarrow> string \<Rightarrow> bytes \<Rightarrow> nat \<Rightarrow> 'db world \<Rightarrow> 'db world \<Rightarrow> bool" where
  "mailed mails as_mail subject data sq w w' \<longleftrightarrow>
     (\<exists>x more. mail_of subject data = Some x \<and> mails (committed w') = mails (committed w) @ more @ [as_mail x]) \<and>
     stream w' = stream w @ sent_reply (saga_of subject data) sq"

definition dead_lettered ::
  "string \<Rightarrow> bytes \<Rightarrow> nat \<Rightarrow> nat \<Rightarrow> 'db world \<Rightarrow> 'db world \<Rightarrow> bool" where
  "dead_lettered subject data sq n w w' \<longleftrightarrow>
     known_subject subject \<and>
     (\<exists>reason at. stream w' = stream w @ dead_msg (dead_letter subject data reason n at) sq #
        failed_reply (saga_of subject data) reason sq)"

definition passed_over :: "string \<Rightarrow> 'db world \<Rightarrow> 'db world \<Rightarrow> bool" where
  "passed_over subject w w' \<longleftrightarrow> \<not> known_subject subject \<and> stream w' = stream w"

text \<open>A message that cannot be decoded is given up at once, one that cannot be mailed at the last delivery.\<close>

definition last_delivery :: "string \<Rightarrow> bytes \<Rightarrow> nat \<Rightarrow> nat" where
  "last_delivery subject data n = (if mail_of subject data = None then n else maxDeliver)"

definition resolved ::
  "('db \<Rightarrow> 'm list) \<Rightarrow> (mail \<Rightarrow> 'm) \<Rightarrow> string \<Rightarrow> bytes \<Rightarrow> nat \<Rightarrow> nat \<Rightarrow> 'db world \<Rightarrow> 'db world \<Rightarrow> bool" where
  "resolved mails as_mail subject data sq n w w' \<longleftrightarrow>
     mailed mails as_mail subject data sq w w' \<or>
     dead_lettered subject data sq (last_delivery subject data n) w w' \<or> passed_over subject w w'"

definition mails_grow :: "('db \<Rightarrow> 'm list) \<Rightarrow> nat \<Rightarrow> 'db world \<Rightarrow> 'db world \<Rightarrow> bool" where
  "mails_grow mails k w w' \<longleftrightarrow>
     (\<exists>extra. mails (committed w') = mails (committed w) @ extra \<and> length extra \<le> k)"

lemma mails_grow_trans: "mails_grow mails j u v \<Longrightarrow> mails_grow mails k v w \<Longrightarrow> mails_grow mails (j + k) u w"
  unfolding mails_grow_def by (metis add_mono append_assoc length_append)

lemma mails_grow_refl: "mails_grow mails k w w"
  by (simp add: mails_grow_def)

lemma mails_grow_mono: "mails_grow mails j u v \<Longrightarrow> j \<le> k \<Longrightarrow> mails_grow mails k u v"
  unfolding mails_grow_def by (meson order_trans)

text \<open>Failed deliveries before the last change nothing of how the message was resolved.\<close>

lemma resolved_later:
  assumes "mails_grow mails k w v" "stream v = stream w" "mail_of subject data \<noteq> None"
    and "resolved mails as_mail subject data sq (Suc n) v w'"
  shows "resolved mails as_mail subject data sq n w w'"
proof -
  have "last_delivery subject data (Suc n) = last_delivery subject data n"
    using assms(3) by (auto simp: last_delivery_def)
  moreover have "mailed mails as_mail subject data sq w w'" if "mailed mails as_mail subject data sq v w'"
    using that assms(1,2) unfolding mailed_def mails_grow_def by (metis append_assoc)
  ultimately show ?thesis
    using assms(2,4) unfolding resolved_def dead_lettered_def passed_over_def by auto
qed

lemma saga_of_undecoded: "mail_of subject data = None \<Longrightarrow> saga_of subject data = ''''"
  by (auto simp: mail_of_def saga_of_def split: if_splits option.splits)

lemma mail_known: "mail_of subject data = Some x \<Longrightarrow> known_subject subject"
  by (auto simp: mail_of_def known_subject_def split: if_splits)

lemma elsewhereD: "elsewhere w w' \<Longrightarrow> stream w' = stream w" "elsewhere w w' \<Longrightarrow> pub_faults w' = pub_faults w"
  by (metis (no_types, lifting) elsewhere_def world.select_convs world.surjective world.update_convs(1))+

lemma wp_toDLQ:
  "wp (toDLQ rfc3339 subject data reason meta) Q w =
     (let t = go_clock w + next_drift (drift w);
          v = w\<lparr>go_clock := t, drift := tl (drift w), pub_faults := tl (pub_faults w)\<rparr>;
          msg = dead_msg (dead_letter subject data reason (mm_NumDelivered meta) (rfc3339 t)) (mm_StreamSeq meta) in
      case next_fault (pub_faults w) of
        Fine \<Rightarrow> Q Ack (v\<lparr>stream := stream w @ [msg]\<rparr>)
      | Fail \<Rightarrow> Q Nak v
      | AckLost \<Rightarrow> Q Nak (v\<lparr>stream := stream w @ [msg]\<rparr>))"
  by (simp add: toDLQ_def buildDeadLetter_def wp_simps Let_def dead_msg_def dead_letter_def split: fault.splits)

context mail_sender begin

lemma consume_post:
  assumes "pub_faults w = []" "n \<le> maxDeliver"
  shows "wp (consume rfc3339 m subject data (Some \<lparr>mm_NumDelivered = n, mm_StreamSeq = sq\<rparr>)) (\<lambda>v w'.
    pub_faults w' = [] \<and> mails_grow mails 1 w w' \<and>
    (case v of
       Ack \<Rightarrow> resolved mails as_mail subject data sq n w w'
     | Nak \<Rightarrow> n < maxDeliver \<and> stream w' = stream w \<and> mail_of subject data \<noteq> None)) w"
proof (cases "mail_of subject data")
  case None
  then show ?thesis
    using assms
    by (auto simp: consume_def wp_bind processMessage_eq decideAction_def wp_toDLQ wp_return Let_def
        resolved_def last_delivery_def dead_lettered_def passed_over_def failed_reply_def saga_of_undecoded mails_grow_def)
next
  case (Some x)
  then have "last_delivery subject data n = n" if "maxDeliver \<le> n"
    using that assms(2) by (simp add: last_delivery_def)
  note last = this
  show ?thesis
    unfolding consume_def option.case wp_bind processMessage_eq Some
    apply (rule wp_mono [OF send_law])
    apply (auto simp: decideAction_def wp_toDLQ wp_simps Let_def assms(1) elsewhereD Some mailed_def resolved_def
        mail_known [OF Some] last dead_lettered_def mails_grow_def
        publishEmailSent_def publishEmailFailed_def sent_reply_def failed_reply_def split: option.splits)
       apply blast+
    done
qed

text \<open>Every message is resolved within \<open>maxDeliver\<close> deliveries when publishing works.\<close>

lemma deliver_post:
  assumes "pub_faults w = []" "n + k = Suc maxDeliver" "0 < k"
  shows "wp (redeliver k (\<lambda>n. consume rfc3339 m subject data (Some \<lparr>mm_NumDelivered = n, mm_StreamSeq = sq\<rparr>)) n) (\<lambda>v w'. v = Ack \<and> mails_grow mails k w w' \<and>
    resolved mails as_mail subject data sq n w w') w"
  using assms
proof (induction k arbitrary: n w)
  case (Suc k)
  let ?h = "\<lambda>n. consume rfc3339 m subject data (Some \<lparr>mm_NumDelivered = n, mm_StreamSeq = sq\<rparr>)"
  show ?case
    unfolding redeliver.simps wp_bind
  proof (rule wp_mono [OF consume_post [OF Suc.prems(1)]])
    fix v w'
    assume post: "pub_faults w' = [] \<and> mails_grow mails 1 w w' \<and>
      (case v of
         Ack \<Rightarrow> resolved mails as_mail subject data sq n w w'
       | Nak \<Rightarrow> n < maxDeliver \<and> stream w' = stream w \<and> mail_of subject data \<noteq> None)"
    show "wp (if v = Ack then ret Ack else redeliver k ?h (Suc n))
        (\<lambda>v w'. v = Ack \<and> mails_grow mails (Suc k) w w' \<and> resolved mails as_mail subject data sq n w w') w'"
    proof (cases v)
      case Ack
      then show ?thesis using post by (auto simp: wp_return intro: mails_grow_mono)
    next
      case Nak
      then have n: "n < maxDeliver" "stream w' = stream w" "mail_of subject data \<noteq> None"
        and g: "pub_faults w' = []" "mails_grow mails 1 w w'"
        using post by auto
      have "wp (redeliver k ?h (Suc n)) (\<lambda>v w''. v = Ack \<and> mails_grow mails k w' w'' \<and>
          resolved mails as_mail subject data sq (Suc n) w' w'') w'"
        by (rule Suc.IH) (use g n Suc.prems in auto)
      then have "wp (redeliver k ?h (Suc n)) (\<lambda>v w''. v = Ack \<and>
          mails_grow mails (Suc k) w w'' \<and> resolved mails as_mail subject data sq n w w'') w'"
        by (rule wp_mono) (use resolved_later [OF g(2) n(2,3)] mails_grow_trans [OF g(2)] in auto)
      then show ?thesis using Nak by simp
    qed
  qed (use Suc.prems in simp)
qed simp

end

section \<open>The SMTP mailer\<close>

definition smtp_mailer :: "Mailer \<Rightarrow> smtp mail_iface" where
  "smtp_mailer m =
     \<lparr>mi_SendConfirmation = SendConfirmation m, mi_SendRelease = SendRelease m,
      mi_SendVerification = SendVerification m\<rparr>"

fun mail_subject :: "mail \<Rightarrow> string" where
  "mail_subject (ConfirmationMail to repo token) = ''Confirm subscription: '' @ repo"
| "mail_subject (ReleaseMail to token tag name url) = ''New Release for '' @ name @ '': '' @ tag"
| "mail_subject (VerificationMail to token) = ''Verify your email address''"

fun mail_body :: "Mailer \<Rightarrow> mail \<Rightarrow> string" where
  "mail_body m (ConfirmationMail to repo token) =
     renderConfirmationEmail repo (m_appBaseURL m @ ''/confirm/'' @ token)"
| "mail_body m (ReleaseMail to token tag name url) =
     renderReleaseEmail name tag url (m_appBaseURL m @ ''/unsubscribe/'' @ token)"
| "mail_body m (VerificationMail to token) =
     renderVerificationEmail (m_appBaseURL m @ ''/verify-email/'' @ token)"

fun mail_to :: "mail \<Rightarrow> string" where
  "mail_to (ConfirmationMail to repo token) = to"
| "mail_to (ReleaseMail to token tag name url) = to"
| "mail_to (VerificationMail to token) = to"

definition smtp_mail :: "Mailer \<Rightarrow> mail \<Rightarrow> string \<times> string \<times> string" where
  "smtp_mail m x =
     (m_fromEmail m, mail_to x, mail_text m (mail_to x) (mail_subject x) (mail_body m x))"

lemma send_mail_smtp:
  "send_mail (smtp_mailer m) x = sendOne m (mail_to x) (mail_subject x) (mail_body m x)"
  by (cases x) (simp_all add: smtp_mailer_def SendConfirmation_def SendRelease_def SendVerification_def)

text \<open>The server holds the mail itself or, after an error, an empty one to the same recipient.\<close>

definition smtp_meant :: "Mailer \<Rightarrow> mail \<Rightarrow> string \<times> string \<times> string \<Rightarrow> bool" where
  "smtp_meant m x y \<longleftrightarrow> y \<in> {smtp_mail m x, (m_fromEmail m, mail_to x, [])}"

interpretation smtp_sender: mail_sender "smtp_mailer m" sm_sent "smtp_mail m" "smtp_meant m" for m
proof
  fix x and w :: "smtp world"
  show "wp (send_mail (smtp_mailer m) x) (\<lambda>r w'. elsewhere w w' \<and>
      (r = None \<longrightarrow> sm_sent (committed w') = sm_sent (committed w) @ [smtp_mail m x]) \<and>
      (\<exists>extra. sm_sent (committed w') = sm_sent (committed w) @ extra \<and> length extra \<le> 1 \<and>
         (\<forall>y \<in> set extra. smtp_meant m x y))) w"
    unfolding send_mail_smtp
    by (rule wp_mono [OF wp_sendOne]) (auto simp: sends_def smtp_mail_def smtp_meant_def)
qed

end
