(* ===== verification/Deliveries.thy ===== *)
theory Deliveries
  imports Fanout Notification
begin

text \<open>
  What becomes of the messages the consumers receive, over all their deliveries: the mails of the
  notification service and its dead letters, and the releases the fan-out gives up.
\<close>

section \<open>Mails\<close>

text \<open>C29: as long as messages can be published every message of the notification stream is resolved
  within its five deliveries: its mail was accepted, last in the list of the server, and the saga is
  told so; or it is in the dead-letter stream, with the number of attempts (one when it could not be
  decoded, five when it could not be mailed), and the saga is told so; or its subject is unknown and
  nothing happens. The server accepts at most one mail for each delivery.\<close>

theorem message_resolved:
  assumes "pub_faults w = []"
  shows "wp (deliver_all rfc3339 (smtp_mailer mlr) subject data sq) (\<lambda>v w'. v = Ack \<and>
    (\<exists>extra. sm_sent (committed w') = sm_sent (committed w) @ extra \<and> length extra \<le> 5) \<and>
    ((\<exists>x sent. mail_of subject data = Some x \<and>
        sm_sent (committed w') = sm_sent (committed w) @ sent @ [smtp_mail mlr x] \<and>
        stream w' = stream w @ sent_reply (saga_of subject data) sq)
     \<or> (\<exists>reason at. known_subject subject \<and>
          stream w' = stream w @
            dead_msg (dead_letter subject data reason (if mail_of subject data = None then 1 else 5) at) sq #
            failed_reply (saga_of subject data) reason sq)
     \<or> \<not> known_subject subject \<and> stream w' = stream w)) w"
proof -
  have grow: "wp (deliver_all rfc3339 (smtp_mailer mlr) subject data sq) (\<lambda>v w'. v = Ack \<and>
      mails_grow sm_sent maxDeliver w w' \<and> resolved sm_sent (smtp_mail mlr) subject data sq 1 w w') w"
    unfolding deliver_all_def by (rule smtp_sender.deliver_post [OF assms]) (simp_all add: maxDeliver_def)
  have last: "last_delivery subject data 1 = (if mail_of subject data = None then 1 else 5)"
    by (simp add: last_delivery_def maxDeliver_def)
  show ?thesis
    by (rule wp_mono [OF grow])
      (simp only: resolved_def mailed_def dead_lettered_def passed_over_def mails_grow_def maxDeliver_def last, blast)
qed

definition smtp_up :: "reply list \<Rightarrow> smtp" where
  "smtp_up replies = \<lparr>sm_replies = replies, sm_log = [], sm_from = '''', sm_to = '''', sm_buffer = '''', sm_sent = []\<rparr>"

definition demo_mailer :: Mailer where
  "demo_mailer = NewMailer ''h'' ''25'' '''' '''' ''f@x.y'' ''http://h''"

definition demo_release_mail :: bytes where
  "demo_release_mail = Marshal_ReleaseDetected \<lparr>rd_Email = ''a@x.y'', rd_UnsubscribeToken = ''u'',
     rd_ReleaseTag = ''v2'', rd_ReleaseName = ''Two'', rd_ReleaseURL = ''u''\<rparr>"

lemma demo_release_mail_simps [simp]:
  "mail_of SubjectRelease demo_release_mail = Some (ReleaseMail ''a@x.y'' ''u'' ''v2'' ''Two'' ''u'')"
  "saga_of SubjectRelease demo_release_mail = ''''"
  by (simp_all add: mail_of_def saga_of_def demo_release_mail_def)

theorem message_resolved_witness:
  "run_result (deliver_all (\<lambda>_. '''') (smtp_mailer demo_mailer) SubjectRelease demo_release_mail 7)
     (calm_world (smtp_up [Reject ''busy'']) 0 []) = Ack"
  using message_resolved [of "calm_world (smtp_up [Reject ''busy'']) 0 []"]
  by (simp add: wp_run calm_world_def)

text \<open>A call of the mailer that reports success has sent exactly this mail, with the sender, the
  recipient and the text it was given; after an error the server has accepted at most one mail.\<close>

theorem mail_sent_exactly_once:
  "wp (sendOne mlr toEmail subject body) (\<lambda>r w'.
    (r = None \<and> sm_sent (committed w') =
        sm_sent (committed w) @ [(m_fromEmail mlr, toEmail, mail_text mlr toEmail subject body)]
     \<or> r \<noteq> None \<and> (\<exists>extra. sm_sent (committed w') = sm_sent (committed w) @ extra \<and> length extra \<le> 1)) \<and>
    w' = w\<lparr>committed := committed w'\<rparr>) w"
  by (rule wp_mono [OF wp_sendOne]) (auto simp: sends_def elsewhere_def)

section \<open>Dead letters\<close>

lemma dial_refused:
  assumes "sm_replies (committed w) = Reject e # rs"
  shows "wp (sendOne mlr toEmail subject body) (\<lambda>r w'. r = Some (''dial smtp: '' @ e) \<and> elsewhere w w' \<and>
    sm_replies (committed w') = rs \<and> sm_sent (committed w') = sm_sent (committed w)) w"
  using assms by (simp add: sendOne_def on_error_def wp_simps Let_def next_reply_def)

text \<open>The server refuses connections for as many deliveries as are left, and the first message
  published after them is refused too.\<close>

definition refusing :: "string \<Rightarrow> smtp world \<Rightarrow> nat \<Rightarrow> smtp world \<Rightarrow> bool" where
  "refusing e w k v \<longleftrightarrow> sm_replies (committed v) = replicate k (Reject e) \<and>
     pub_faults v = (if k = 0 then [] else [Fail]) \<and>
     stream v = stream w \<and> sm_sent (committed v) = sm_sent (committed w)"

lemma refused_delivery:
  assumes "mail_of subject data = Some x" "saga_of subject data = ''''" "refusing e w (Suc k) v" "n + k = maxDeliver"
  shows "wp (consume rfc3339 (smtp_mailer mlr) subject data (Some \<lparr>mm_NumDelivered = n, mm_StreamSeq = sq\<rparr>))
    (\<lambda>r v'. r = Nak \<and> refusing e w k v') v"
proof -
  have r: "sm_replies (committed v) = Reject e # replicate k (Reject e)"
    using assms(3) by (simp add: refusing_def)
  show ?thesis
    unfolding consume_def option.case wp_bind processMessage_eq assms(1) send_mail_smtp
    apply (rule wp_mono [OF dial_refused [OF r]])
    using assms(2-4)
    apply (auto simp: decideAction_def wp_toDLQ wp_return Let_def elsewhereD refusing_def next_fault_def)
    done
qed

text \<open>C30: a mail that does not concern a saga is lost without a trace when the mail server refuses the
  connection at each of its five deliveries and publishing the dead letter at the fifth fails: the
  message is not delivered any more, nothing was mailed and no stream has a copy of it.\<close>

theorem undeliverable_mail_can_be_lost:
  assumes "mail_of subject data = Some x" "saga_of subject data = ''''"
    and "sm_replies (committed w) = replicate 5 (Reject e)" "pub_faults w = [Fail]"
  shows "wp (deliver_all rfc3339 (smtp_mailer mlr) subject data sq) (\<lambda>v w'. v = Nak \<and>
    sm_sent (committed w') = sm_sent (committed w) \<and> stream w' = stream w) w"
proof -
  let ?h = "\<lambda>n. consume rfc3339 (smtp_mailer mlr) subject data (Some \<lparr>mm_NumDelivered = n, mm_StreamSeq = sq\<rparr>)"
  let ?J = "\<lambda>k v. refusing e w k v"
  have step: "wp (?h n) (\<lambda>r v'. r = Nak \<and> ?J k v') v" if "?J (Suc k) v" "n + k = maxDeliver" for n k v
    using refused_delivery [OF assms(1,2) that] .
  have "wp (redeliver k ?h n) (\<lambda>r v'. r = Nak \<and> ?J 0 v') v" if "?J k v" "n + k = Suc maxDeliver" for n k v
    using that
  proof (induction k arbitrary: n v)
    case (Suc k)
    then show ?case
      unfolding redeliver.simps wp_bind by (intro wp_mono [OF step [OF Suc.prems(1)]]) (simp_all add: Suc.IH)
  qed (simp add: wp_return)
  from this [of maxDeliver w 1] show ?thesis
    unfolding deliver_all_def
    by (rule wp_mono) (use assms(3,4) in \<open>auto simp: refusing_def maxDeliver_def\<close>)
qed

theorem undeliverable_mail_can_be_lost_witness:
  "run_result (deliver_all (\<lambda>_. '''') (smtp_mailer demo_mailer) SubjectRelease demo_release_mail 7)
     (calm_world (smtp_up (replicate 5 (Reject ''down''))) 0 [] \<lparr>pub_faults := [Fail]\<rparr>) = Nak"
  using undeliverable_mail_can_be_lost [of SubjectRelease demo_release_mail _
      "calm_world (smtp_up (replicate 5 (Reject ''down''))) 0 [] \<lparr>pub_faults := [Fail]\<rparr>" "''down''"]
  by (simp add: wp_run smtp_up_def)

text \<open>The inspector decodes a dead letter as it was written: the subject, the reason, the attempts
  and the original payload, which is either the JSON value of the message or, for data that is no
  JSON, a JSON string with exactly its bytes.\<close>

theorem dead_letter_round_trip:
  assumes "valid_time at" "n < 2 ^ 64"
  shows "\<exists>dl. inspect_dead_letter valid_time (Marshal_DeadLetter (dead_letter subject data reason n at)) = (Ack, Some dl) \<and>
    dl_OriginalSubject dl = subject \<and> dl_Reason dl = reason \<and> dl_Attempts dl = int n \<and> dl_FailedAt dl = at \<and>
    data \<in> {Json (dl_Payload dl)} \<union> NotJson ` {s. dl_Payload dl = JStr s}"
  using assms by (simp add: inspect_dead_letter_def dead_letter_def split: bytes.splits)

theorem dead_letter_round_trip_witness:
  "\<exists>dl. inspect_dead_letter (\<lambda>s. s = ''t'') (Marshal_DeadLetter (dead_letter SubjectRelease (NotJson ''?'') ''unmarshalable'' 1 ''t'')) =
     (Ack, Some dl) \<and> dl_Attempts dl = 1"
  using dead_letter_round_trip [of "\<lambda>s. s = ''t''" "''t''" 1 SubjectRelease "NotJson ''?''" "''unmarshalable''"] by auto

section \<open>Releases\<close>

text \<open>The consumers of the subscription service declare \<^verbatim>\<open>MaxDeliver: 5\<close> as well.\<close>

definition fanout_deliver_all :: "bytes \<Rightarrow> (sub_db, verdict) run" where
  "fanout_deliver_all data = redeliver 5 (\<lambda>n. fanout_Consume recipient_lister data) 1"

lemma fanout_unreachable:
  assumes "faults w = Fail # fs" "Unmarshal_ReleaseFound data = Some ev"
  shows "wp (fanout_Consume recipient_lister data) Q w = Q Nak (w\<lparr>faults := fs\<rparr>)"
  using assms
  by (simp add: fanout_Consume_def handleReleaseFound_def wp_recipient_lister wp_bind wp_check wp_return Let_def)

lemma redeliver_fanout:
  assumes "calm (w\<lparr>faults := []\<rparr>)" "faults w = replicate k Fail" "Unmarshal_ReleaseFound data = Some ev"
    and "varchar255 (rf_ReleaseTag ev)"
  shows "wp (redeliver j (\<lambda>n. fanout_Consume recipient_lister data) n) (\<lambda>v w'.
    if k < j then v = Ack \<and> committed w' = fanned_out ev (pg_clock w) (committed w)
    else v = Nak \<and> committed w' = committed w) w"
  using assms(1,2)
proof (induction j arbitrary: k n w)
  case (Suc j)
  show ?case
  proof (cases k)
    case 0
    then have "calm w" using Suc.prems by (simp add: calm_def)
    then show ?thesis
      unfolding redeliver.simps wp_bind fanout_Consume_def
      by (intro wp_mono [OF calm_handleReleaseFound [OF _ assms(3,4)]]) (auto simp: wp_return 0)
  next
    case (Suc k')
    have "wp (redeliver j (\<lambda>n. fanout_Consume recipient_lister data) (Suc n)) (\<lambda>v w'.
        if k' < j then v = Ack \<and> committed w' = fanned_out ev (pg_clock w) (committed w)
        else v = Nak \<and> committed w' = committed w) (w\<lparr>faults := replicate k' Fail\<rparr>)"
      by (rule wp_mono [OF Suc.IH [of "w\<lparr>faults := replicate k' Fail\<rparr>" k' "Suc n"]])
        (use Suc.prems(1) in \<open>auto split: if_splits\<close>)
    then show ?thesis
      using Suc.prems(2) Suc by (simp add: wp_bind fanout_unreachable [OF _ assms(3)])
  qed
qed (simp add: wp_return)

definition demo_found :: ReleaseFound where
  "demo_found = \<lparr>rf_RepoID = 1, rf_RepoName = ''o/r'', rf_ReleaseTag = ''v2'', rf_ReleaseName = ''Two'',
                rf_ReleaseURL = ''u''\<rparr>"

text \<open>C33: a release is handled once one of its five deliveries finds the database; when the database
  is unreachable at all five, which follow each other without a pause, it is given up: no subscriber
  is ever told, and there is no dead letter.\<close>

theorem release_given_up_after_five_failures:
  assumes "calm (w\<lparr>faults := []\<rparr>)" "faults w = replicate k Fail" "Unmarshal_ReleaseFound data = Some ev"
    and "varchar255 (rf_ReleaseTag ev)"
  shows "wp (fanout_deliver_all data) (\<lambda>v w'.
    if k < 5 then v = Ack \<and> committed w' = fanned_out ev (pg_clock w) (committed w)
    else v = Nak \<and> committed w' = committed w) w"
  unfolding fanout_deliver_all_def using assms by (rule redeliver_fanout)

theorem release_given_up_after_five_failures_witness:
  "run_result (fanout_deliver_all (Marshal_ReleaseFound demo_found))
     ((calm_world empty_sub_db 0 [])\<lparr>faults := replicate 5 Fail\<rparr>) = Nak"
  using release_given_up_after_five_failures [of "(calm_world empty_sub_db 0 [])\<lparr>faults := replicate 5 Fail\<rparr>" 5
      "Marshal_ReleaseFound demo_found" demo_found]
  by (simp add: wp_run demo_found_def varchar255_short calm_def)

end
