(* ===== verification/Accounts.thy ===== *)
theory Accounts
  imports AuthRuns Http Deliveries
begin

text \<open>
  The properties of the auth service: signing up, logging in, the tokens it issues, and the way an
  access token leads to a request the subscription service accepts.
\<close>

section \<open>Signing up\<close>

text \<open>C34: registering is atomic under every pattern of failures: the call creates one unverified user
  with the normalized address and the hash of the password, one unused verification, and the event
  that mails its token, or nothing; if it reports success they are there.\<close>

theorem register_atomic:
  assumes "txn w = None"
  shows "wp (Register_Execute cy ttl email password) (\<lambda>r w'. txn w' = None \<and>
    (r \<noteq> Inr () \<and> committed w' = committed w
     \<or> (\<exists>e salt token expiresAt. normalizeEmail cy email = Inr e \<and> 8 \<le> length password \<and>
          registrable e token (committed w) \<and>
          committed w' = registered e
            (encode_hash salt (cy_IDKey cy password salt argonTime argonMemory argonThreads argonKeyLen)) token expiresAt
            (Marshal_VerificationRequested \<lparr>vr_Email = e, vr_VerifyToken = token\<rparr>) (committed w)))) w"
  using wp_Register [OF assms] unfolding signed_up_def verification_event_def minPasswordLen_def .

definition demo_crypto :: crypto where
  "demo_crypto = \<lparr>cy_IDKey = (\<lambda>p salt t m th n. take n (p @ replicate n CHR 0x00)), cy_Sum256 = (\<lambda>s. s),
     cy_SignedString = (\<lambda>key kid cl. Some (CHR ''.'' # cl_email cl)), cy_ToLower = (\<lambda>s. s), cy_ParseAddress = Some\<rparr>"

lemma demo_kdf_length: "length (cy_IDKey demo_crypto p salt t m th n) = n"
  by (simp add: demo_crypto_def)

lemma demo_trim: "TrimSpace ''a@x.y'' = ''a@x.y''"
  by code_simp

lemma demo_normalizeEmail: "normalizeEmail demo_crypto ''a@x.y'' = Inr ''a@x.y''"
  by (simp add: normalizeEmail_def ToLower_def demo_crypto_def demo_trim lower_char_def)

definition empty_auth :: auth_db where
  "empty_auth = empty_auth_db (\<lambda>n. replicate (Suc n) CHR ''u'')"

theorem register_atomic_witness:
  "txn (run_world (Register_Execute demo_crypto 60 ''a@x.y'' ''password'')
     ((calm_world empty_auth 0 [''s'', ''t''])\<lparr>faults := [Fine, AckLost]\<rparr>)) = None"
  using register_atomic [of "(calm_world empty_auth 0 [''s'', ''t''])\<lparr>faults := [Fine, AckLost]\<rparr>" demo_crypto 60
      "''a@x.y''" "''password''"]
  by (simp add: wp_run)

lemma registered_wf:
  assumes "auth_wf d" "registrable e token d"
  shows "auth_wf (registered e h token expiresAt payload d)"
  using assms
  by (auto simp: auth_wf_def registrable_def registered_def insert_user_def outbox_wf_insert)

lemma registered_verification:
  assumes "registrable e token d"
  shows "verification (registered e h token expiresAt payload d) token =
    Some \<lparr>ve_UserID = uuid_source d (uuid_count d), ve_ExpiresAt = expiresAt, ve_UsedAt = None, ve_Token = token\<rparr>"
proof -
  have "find (\<lambda>v. ve_Token v = token) (email_verifications d) = None"
    using assms by (simp add: registrable_def find_None_iff)
  then show ?thesis
    by (simp add: verification_def registered_def insert_user_def find_append)
qed

lemma unverified_login_refused:
  assumes "calm w" "auth_wf (committed w)" "normalizeEmail cy email = Inr (us_Email u)" "u \<in> set (users (committed w))"
    and "VerifyPassword (cy_IDKey cy) password (us_PasswordHash u) = Some True" "\<not> us_EmailVerified u"
  shows "wp (Login_Execute cy s ttl email password) (\<lambda>r w'. r = Inl (Sentinel ErrEmailNotVerified) \<and>
    committed w' = committed w) w"
proof -
  have "find (\<lambda>x. us_Email x = us_Email u) (users (committed w)) = Some u"
    using assms(2,4) by (intro find_key_unique) (simp add: auth_wf_def)
  then show ?thesis
    using assms by (simp add: Login_Execute_def GetByEmail_def wp_simps getUserByEmailQuery_def Let_def calm_def)
qed

lemma registered_users:
  "users (registered e h token expiresAt payload d) = users d @
     [\<lparr>us_ID = uuid_source d (uuid_count d), us_Email = e, us_PasswordHash = h, us_EmailVerified = False\<rparr>]"
  by (simp add: registered_def insert_user_def)

lemma verified_users:
  "\<lparr>us_ID = i, us_Email = e, us_PasswordHash = h, us_EmailVerified = b\<rparr> \<in> set (users d) \<Longrightarrow> ve_UserID v = i \<Longrightarrow>
   \<lparr>us_ID = i, us_Email = e, us_PasswordHash = h, us_EmailVerified = True\<rparr> \<in> set (users (verified v now d))"
  unfolding verified_def verify_user_def use_verification_def update_where_def
  by (auto intro!: rev_image_eqI)

text \<open>C25: a stored password hash reads back as it was written. For every password and key derivation
  whose keys have the length asked for, hashing draws the next salt of sixteen bytes, or fails when no
  random bytes can be read, and leaves the database alone; checking any password against
  the string it returns never reports a malformed hash, and accepts exactly the passwords whose key, for
  the salt, rounds, memory and threads the string carries, is that of the password hashed, above all that
  password itself.\<close>

theorem password_roundtrip:
  assumes "\<And>salt. length (kdf password salt argonTime argonMemory argonThreads argonKeyLen) = argonKeyLen"
  shows "wp (HashPassword kdf password) (\<lambda>r w'. committed w' = committed w \<and> txn w' = txn w \<and>
    (case entropy w of
       [] \<Rightarrow> r \<in> range Inl
     | b # _ \<Rightarrow> (let key = \<lambda>p. kdf p (take 16 (b @ replicate 16 CHR 0x00)) 1 65536 4 32 in
         \<exists>h. r = Inr h \<and> VerifyPassword kdf password h = Some True \<and>
           (\<forall>other. VerifyPassword kdf other h = Some (key other = key password))))) w"
  using assms
  by (auto simp: wp_HashPassword VerifyPassword_encode argonKeyLen_def argonTime_def argonMemory_def argonThreads_def
      argonSaltLen_def Let_def split: list.split)

theorem password_roundtrip_witness:
  "\<exists>h. run_result (HashPassword (cy_IDKey demo_crypto) ''password'') (calm_world empty_auth 0 [''s'']) = Inr h \<and>
     VerifyPassword (cy_IDKey demo_crypto) ''password'' h = Some True \<and>
     VerifyPassword (cy_IDKey demo_crypto) ''passw0rd'' h = Some False"
  using password_roundtrip [of "cy_IDKey demo_crypto" "''password''" "calm_world empty_auth 0 [''s'']"]
  by (auto simp: wp_run demo_kdf_length) (auto simp: demo_crypto_def)

lemma demo_hash_verifies: "VerifyPassword (cy_IDKey demo_crypto) password (hashed (cy_IDKey demo_crypto) password b) = Some True"
  by (rule hashed_verifies) (simp add: demo_crypto_def)

text \<open>C35: the way from signing up to the first login, when nothing fails: registering succeeds, and the
  event it enqueues is mailed to the address with the token; before the address is verified the login is
  refused; the token verifies it until it expires; then the login with the same credentials succeeds
  and returns the refresh token it stored the hash of.\<close>

theorem sign_up_path:
  assumes "auth_wf d" "normalizeEmail cy email = Inr e" "8 \<le> length password" "registrable e (raw_token b2) d"
    and kdf: "\<And>p salt t m th n. length (cy_IDKey cy p salt t m th n) = n"
    and sign: "\<And>cl. cy_SignedString cy (si_key s) (si_kid s) cl \<noteq> None"
    and "t2 \<le> t1 + ttl" "\<forall>r \<in> set (refresh_tokens d). rr_TokenHash r \<noteq> hashToken cy (raw_token b3)"
    and d1: "d1 = run_db (Register_Execute cy ttl email password) (calm_world d t1 [b1, b2])"
    and d2: "d2 = run_db (VerifyEmail_Execute (raw_token b2)) (calm_world d1 t2 [])"
  shows "run_result (Register_Execute cy ttl email password) (calm_world d t1 [b1, b2]) = Inr () \<and>
    map (\<lambda>r. mail_of (ob_Subject r) (ob_Payload r)) (pending (auth_outbox d1)) =
      map (\<lambda>r. mail_of (ob_Subject r) (ob_Payload r)) (pending (auth_outbox d)) @ [Some (VerificationMail e (raw_token b2))] \<and>
    run_result (Login_Execute cy s rttl email password) (calm_world d1 t2 [b3]) = Inl (Sentinel ErrEmailNotVerified) \<and>
    run_result (VerifyEmail_Execute (raw_token b2)) (calm_world d1 t2 []) = Inr () \<and>
    (\<exists>p. run_result (Login_Execute cy s rttl email password) (calm_world d2 t3 [b3]) = Inr p \<and>
       tp_RefreshToken p = raw_token b3)"
proof -
  let ?i = "uuid_source d (uuid_count d)" and ?h = "hashed (cy_IDKey cy) password b1"
  let ?u = "\<lparr>us_ID = ?i, us_Email = e, us_PasswordHash = ?h, us_EmailVerified = False\<rparr>"
  let ?v = "\<lparr>ve_UserID = ?i, ve_ExpiresAt = t1 + ttl, ve_UsedAt = None, ve_Token = raw_token b2\<rparr>"
  let ?d1 = "registered e ?h (raw_token b2) (t1 + ttl) (verification_event e (raw_token b2)) d"
  have len: "minPasswordLen \<le> length password" using assms(3) by (simp add: minPasswordLen_def)
  have reg: "run_result (Register_Execute cy ttl email password) (calm_world d t1 [b1, b2]) = Inr ()" "d1 = ?d1"
    using calm_Register [of "calm_world d t1 [b1, b2]" cy email e password b1 b2 "[]" ttl] assms(2,4) len d1
    by (simp_all add: wp_run run_db_world next_drift_def)
  have wf1: "auth_wf d1" unfolding reg(2) by (rule registered_wf [OF assms(1,4)])
  have u1: "?u \<in> set (users d1)" by (simp add: reg(2) registered_users)
  have pw: "VerifyPassword (cy_IDKey cy) password ?h = Some True" by (rule hashed_verifies [OF kdf])
  have v1: "verification d1 (raw_token b2) = Some ?v" unfolding reg(2) by (rule registered_verification [OF assms(4)])
  have outbox: "map (\<lambda>r. mail_of (ob_Subject r) (ob_Payload r)) (pending (auth_outbox d1)) =
      map (\<lambda>r. mail_of (ob_Subject r) (ob_Payload r)) (pending (auth_outbox d)) @ [Some (VerificationMail e (raw_token b2))]"
    using assms(1) pending_insert [of "auth_outbox d" SubjectVerifyEmail "verification_event e (raw_token b2)"]
    by (simp add: reg(2) registered_def insert_user_def auth_wf_def mail_of_def verification_event_def)
  have login1: "run_result (Login_Execute cy s rttl email password) (calm_world d1 t2 [b3]) = Inl (Sentinel ErrEmailNotVerified)"
    using unverified_login_refused [of "calm_world d1 t2 [b3]" cy email ?u password s rttl] wf1 assms(2) u1 pw
    by (simp add: wp_run)
  have ver: "run_result (VerifyEmail_Execute (raw_token b2)) (calm_world d1 t2 []) = Inr ()" "d2 = verified ?v t2 d1"
    using calm_Verify [of "calm_world d1 t2 []" "raw_token b2" ?v] v1 assms(7) d2
    by (simp_all add: wp_run run_db_world next_drift_def)
  have wf2: "auth_wf d2" unfolding ver(2) verified_def by (intro auth_wf_updates wf1)
  have "\<lparr>us_ID = ?i, us_Email = e, us_PasswordHash = ?h, us_EmailVerified = True\<rparr> \<in> set (users d2)"
    unfolding ver(2) by (rule verified_users [OF u1]) simp
  then have "logs_in cy email password \<lparr>us_ID = ?i, us_Email = e, us_PasswordHash = ?h, us_EmailVerified = True\<rparr> d2"
    using assms(2) pw by (simp add: logs_in_def)
  moreover have "refresh_tokens d2 = refresh_tokens d"
    by (simp add: ver(2) reg(2) verified_def verify_user_def use_verification_def registered_def insert_user_def)
  ultimately have login2: "\<exists>p. run_result (Login_Execute cy s rttl email password) (calm_world d2 t3 [b3]) = Inr p \<and>
      tp_RefreshToken p = raw_token b3"
    using calm_Login [of "calm_world d2 t3 [b3]" cy email password _ b3 "[]" s rttl] wf2 sign assms(8)
    by (simp add: wp_run) blast
  show ?thesis using reg(1) outbox login1 ver(1) login2 by blast
qed

definition demo_signer :: Signer where
  "demo_signer = \<lparr>si_key = ''k'', si_kid = ''kid'', si_publicPEM = ''pem'', si_ttl = 900 * 1000000000\<rparr>"

theorem sign_up_path_witness:
  "run_result (Login_Execute demo_crypto demo_signer 60 ''a@x.y'' ''password'') (calm_world
     (run_db (Register_Execute demo_crypto 60 ''a@x.y'' ''password'') (calm_world empty_auth 0 [''s'', ''t''])) 30 [''r'']) =
   Inl (Sentinel ErrEmailNotVerified)"
proof -
  have "registrable ''a@x.y'' (raw_token ''t'') empty_auth" "refresh_tokens empty_auth = []" "auth_wf empty_auth"
    by (simp_all add: registrable_def empty_auth_def empty_auth_db_def auth_wf_def outbox_wf_def)
  moreover have "cy_SignedString demo_crypto k kid cl \<noteq> None" for k kid cl by (simp add: demo_crypto_def)
  ultimately show ?thesis
    using sign_up_path [of empty_auth demo_crypto "''a@x.y''" "''a@x.y''" "''password''" "''t''" demo_signer 30 0 60
        "''r''" _ "''s''" _ 60 30, OF _ demo_normalizeEmail _ _ demo_kdf_length _ _ _ refl refl] by simp
qed

section \<open>Refresh tokens\<close>

text \<open>C36: a refresh token is used at most once: after it was exchanged for a new pair, or after a logout
  with it, every later attempt to exchange it fails and changes nothing, whatever happened in
  between and whatever fails.\<close>

theorem refresh_tokens_are_single_use:
  assumes "txn w = None" "auth_wf (committed w)"
    and "run_result (Refresh_Execute cy s ttl raw) w = Inr p \<and> d = run_db (Refresh_Execute cy s ttl raw) w \<or>
      run_result (Logout_Execute cy raw) w = Inr () \<and> d = run_db (Logout_Execute cy raw) w \<and>
      hashToken cy raw \<in> rr_TokenHash ` set (refresh_tokens (committed w))"
    and "auth_runs cy s d (committed v)" "txn v = None"
  shows "wp (Refresh_Execute cy s ttl' raw) (\<lambda>r v'. r \<in> range Inl \<and> committed v' = committed v) v"
proof -
  let ?spent = "spent (hashToken cy raw)"
  have "?spent d \<and> auth_wf d"
    using assms(3)
  proof (elim disjE conjE)
    assume p: "run_result (Refresh_Execute cy s ttl raw) w = Inr p" and d: "d = run_db (Refresh_Execute cy s ttl raw) w"
    have "refreshed cy s raw w (Inr p) d"
      using wp_Refresh [OF assms(1), of cy s ttl raw] p d by (auto simp: wp_run run_db_world)
    then show ?thesis
      using refreshed_spent auth_step_wf [OF auth_refresh [OF assms(1)] assms(2)] d by blast
  next
    assume r: "run_result (Logout_Execute cy raw) w = Inr ()" and d: "d = run_db (Logout_Execute cy raw) w"
      and known: "hashToken cy raw \<in> rr_TokenHash ` set (refresh_tokens (committed w))"
    have "d = revoke_refresh (hashToken cy raw) (pg_clock w) (committed w)"
      using wp_Logout [OF assms(1), of cy raw] r d by (auto simp: wp_run run_db_world)
    then show ?thesis
      using known auth_wf_updates(3) [OF assms(2)] revoked_spent [of _ "committed w"] by (elim imageE) simp
  qed
  then show ?thesis
    using auth_runs_keep [OF assms(4)] by (intro spent_refused [OF assms(5)]) simp_all
qed

theorem refresh_tokens_are_single_use_witness:
  "run_result (Refresh_Execute demo_crypto demo_signer 60 ''r'')
     (calm_world (run_db (Logout_Execute demo_crypto ''r'') (calm_world (insert_refresh ''u'' (hashToken demo_crypto ''r'') 90
        (insert_user ''a@x.y'' ''h'' empty_auth)) 0 [])) 1 []) \<in> range Inl"
proof -
  let ?d = "insert_refresh ''u'' (hashToken demo_crypto ''r'') 90 (insert_user ''a@x.y'' ''h'' empty_auth)"
  have "auth_wf ?d" "hashToken demo_crypto ''r'' \<in> rr_TokenHash ` set (refresh_tokens ?d)"
    by (simp_all add: insert_refresh_def insert_user_def empty_auth_def empty_auth_db_def auth_wf_def outbox_wf_def)
  moreover have "run_result (Logout_Execute demo_crypto ''r'') (calm_world ?d 0 []) = Inr ()"
    by (rule run_result_wp)
      (simp add: Logout_Execute_def RevokeRefreshToken_def wp_simps revokeRefreshTokenQuery_def Let_def)
  ultimately have "wp (Refresh_Execute demo_crypto demo_signer 60 ''r'') (\<lambda>r v'. r \<in> range Inl \<and> committed v' =
      committed (calm_world (run_db (Logout_Execute demo_crypto ''r'') (calm_world ?d 0 [])) 1 []))
      (calm_world (run_db (Logout_Execute demo_crypto ''r'') (calm_world ?d 0 [])) 1 [])"
    by (intro refresh_tokens_are_single_use [where w = "calm_world ?d 0 []" and ttl = 60
        and d = "run_db (Logout_Execute demo_crypto ''r'') (calm_world ?d 0 [])"]) (simp_all add: auth_stays)
  then show ?thesis by (simp add: wp_run)
qed

section \<open>Verified addresses\<close>

text \<open>In every state the auth service can reach from an empty database, a user whose address is
  verified has used a verification whose token was put into an event for exactly this address.\<close>

lemma verified_addresses_received_their_token:
  assumes "auth_runs cy s (empty_auth_db uuids) d" "u \<in> set (users d)" "us_EmailVerified u"
  shows "\<exists>v \<in> set (email_verifications d). ve_UserID v = us_ID u \<and> ve_UsedAt v \<noteq> None \<and>
    token_enqueued d (us_Email u) (ve_Token v)"
  using verified_owner [OF _ _ assms(2,3)] auth_runs_owned [OF assms(1)] auth_runs_keep(1) [OF assms(1)] by simp

definition demo_signed_up :: auth_db where
  "demo_signed_up = run_db (Register_Execute demo_crypto 60 ''a@x.y'' ''password'') (calm_world empty_auth 0 [''s'', ''t''])"

definition demo_verified :: auth_db where
  "demo_verified = run_db (VerifyEmail_Execute (raw_token ''t'')) (calm_world demo_signed_up 30 [])"

definition demo_user :: User where
  "demo_user = \<lparr>us_ID = ''u'', us_Email = ''a@x.y'', us_PasswordHash = hashed (cy_IDKey demo_crypto) ''password'' ''s'',
     us_EmailVerified = True\<rparr>"

lemma empty_auth_registrable: "registrable ''a@x.y'' token empty_auth" "auth_wf empty_auth"
  by (simp_all add: registrable_def empty_auth_def empty_auth_db_def auth_wf_def outbox_wf_def)

lemma demo_signed_up_eq:
  "demo_signed_up = registered ''a@x.y'' (hashed (cy_IDKey demo_crypto) ''password'' ''s'') (raw_token ''t'') 60
     (verification_event ''a@x.y'' (raw_token ''t'')) empty_auth"
  using calm_Register [of "calm_world empty_auth 0 [''s'', ''t'']" demo_crypto "''a@x.y''" "''a@x.y''" "''password''"
      "''s''" "''t''" "[]" 60] demo_normalizeEmail empty_auth_registrable
  by (simp add: demo_signed_up_def wp_run run_db_world next_drift_def minPasswordLen_def)

lemma demo_verified_users: "users demo_verified = [demo_user]" and demo_verified_wf: "auth_wf demo_verified"
  and demo_verified_tokens: "refresh_tokens demo_verified = []"
proof -
  let ?v = "\<lparr>ve_UserID = ''u'', ve_ExpiresAt = 60, ve_UsedAt = None, ve_Token = raw_token ''t''\<rparr>"
  have uuid: "uuid_source empty_auth (uuid_count empty_auth) = ''u''" "users empty_auth = []" "refresh_tokens empty_auth = []"
    by (simp_all add: empty_auth_def empty_auth_db_def)
  have "verification demo_signed_up (raw_token ''t'') = Some ?v"
    unfolding demo_signed_up_eq uuid(1) [symmetric] by (rule registered_verification) (rule empty_auth_registrable)
  then have d: "demo_verified = verified ?v 30 demo_signed_up"
    using calm_Verify [of "calm_world demo_signed_up 30 []" "raw_token ''t''" ?v]
    by (simp add: demo_verified_def wp_run run_db_world next_drift_def)
  show "users demo_verified = [demo_user]" "refresh_tokens demo_verified = []"
    by (simp_all add: d verified_def verify_user_def use_verification_def demo_signed_up_eq registered_def insert_user_def
        uuid demo_user_def)
  show "auth_wf demo_verified"
    unfolding d verified_def demo_signed_up_eq by (intro auth_wf_updates registered_wf empty_auth_registrable)
qed

section \<open>Access tokens\<close>

text \<open>C38: from a login to an authorized request: the pair a login returns was issued, at some instant
  since, for a user who is verified and whose password it was; and until the access token expires the
  subscription service, with the key it loaded from the auth service, takes the request to come from
  exactly the address of this user. About JWT libraries and key formats it uses that a signed token
  parses, until its expiry, to its claims under the public key of its signer.\<close>

theorem login_authorizes_requests:
  assumes "txn w = None" "run_result (Login_Execute cy s ttl email password) w = Inr p"
    and jwt: "\<And>cl tok now. cy_SignedString cy (si_key s) (si_kid s) cl = Some tok \<Longrightarrow> Unix now < cl_exp cl \<Longrightarrow>
      tok \<noteq> '''' \<and> (\<exists>claim. parse k now tok = Some claim \<and> claim ''email'' = Some (JStr (cl_email cl)))"
    and key: "parsePublicKeyPEM kc (si_publicPEM s) = Inr k"
  shows "\<exists>u \<in> set (users (committed w)). us_EmailVerified u \<and> normalizeEmail cy email = Inr (us_Email u) \<and>
    VerifyPassword (cy_IDKey cy) password (us_PasswordHash u) = Some True \<and>
    (\<exists>issued \<ge> go_clock w. \<forall>now. Unix now < Unix (issued + si_ttl s) \<longrightarrow> us_Email u \<noteq> '''' \<longrightarrow>
       AuthJWT parse (Client_Key (snd (Client_Load kc (Inr (GetSigningKey s)) c))) now
         (''Bearer '' @ tp_AccessToken p) = Inr (us_Email u))"
proof -
  obtain u where u: "logs_in cy email password u (committed w)"
    and tok: "issued_since (go_clock w) cy s (us_ID u) (us_Email u) (tp_AccessToken p)"
    using wp_Login [OF assms(1), of cy s ttl email password] assms(2) by (auto simp: wp_run)
  have k: "Client_Key (snd (Client_Load kc (Inr (GetSigningKey s)) c)) = Inr k"
    by (rule Client_Load_ok) (simp add: GetSigningKey_def key)
  obtain issued where "go_clock w \<le> issued" and acc: "cy_SignedString cy (si_key s) (si_kid s)
      \<lparr>cl_sub = us_ID u, cl_email = us_Email u, cl_iat = Unix issued, cl_exp = Unix (issued + si_ttl s)\<rparr> =
      Some (tp_AccessToken p)"
    using tok unfolding issued_since_def access_token_def by blast
  moreover have "AuthJWT parse (Inr k) now (''Bearer '' @ tp_AccessToken p) = Inr (us_Email u)"
    if "Unix now < Unix (issued + si_ttl s)" "us_Email u \<noteq> ''''" for now
    using jwt [OF acc, of now] that AuthJWT_issued by auto
  ultimately show ?thesis
    using u unfolding logs_in_def k by blast
qed

definition demo_codec :: key_codec where
  "demo_codec = \<lparr>kc_Decode = Some, kc_ParsePKIX = Inr\<rparr>"

definition demo_parse :: "string \<Rightarrow> int \<Rightarrow> string \<Rightarrow> (string \<Rightarrow> json option) option" where
  "demo_parse key now raw = Some [''email'' \<mapsto> JStr (tl raw)]"

theorem login_authorizes_requests_witness:
  "\<exists>p issued. run_result (Login_Execute demo_crypto demo_signer 60 ''a@x.y'' ''password'')
      (calm_world demo_verified 40 [''r'']) = Inr p \<and> 40 \<le> issued \<and>
     (\<forall>now. Unix now < Unix (issued + si_ttl demo_signer) \<longrightarrow>
        AuthJWT demo_parse (Client_Key (snd (Client_Load demo_codec (Inr (GetSigningKey demo_signer)) \<lparr>ct_key = None\<rparr>))) now
          (''Bearer '' @ tp_AccessToken p) = Inr ''a@x.y'')"
proof -
  have "logs_in demo_crypto ''a@x.y'' ''password'' demo_user demo_verified"
    by (simp add: logs_in_def demo_verified_users demo_user_def demo_normalizeEmail demo_hash_verifies)
  then obtain p where p: "run_result (Login_Execute demo_crypto demo_signer 60 ''a@x.y'' ''password'')
      (calm_world demo_verified 40 [''r'']) = Inr p"
    using calm_Login [of "calm_world demo_verified 40 [''r'']" demo_crypto "''a@x.y''" "''password''" demo_user "''r''"
        "[]" demo_signer 60] demo_verified_wf
    by (auto simp: wp_run demo_crypto_def demo_verified_tokens)
  have "cy_SignedString demo_crypto key kid cl = Some tok \<Longrightarrow> tok \<noteq> '''' \<and>
      (\<exists>claim. demo_parse k now tok = Some claim \<and> claim ''email'' = Some (JStr (cl_email cl)))" for key kid cl tok k now
    by (auto simp: demo_crypto_def demo_parse_def)
  moreover have "parsePublicKeyPEM demo_codec (si_publicPEM demo_signer) = Inr ''pem''"
    by (simp add: parsePublicKeyPEM_def demo_codec_def demo_signer_def)
  ultimately show ?thesis
    using login_authorizes_requests [OF _ p, of demo_parse "''pem''" demo_codec "\<lparr>ct_key = None\<rparr>"] p
    by (force simp: demo_verified_users demo_user_def)
qed

end
