(* ===== verification/Config.thy ===== *)
theory Config
  imports GoLib
begin

text \<open>
  The configuration of the four services (\<^verbatim>\<open>internal/config/config.go\<close>): what is read from the
  environment, the defaults, and the validation. \<open>env\<close> is \<^verbatim>\<open>os.Getenv\<close> (the empty string for
  an unset variable, after the \<^verbatim>\<open>.env\<close> file was loaded); \<open>duration\<close> is
  \<^verbatim>\<open>time.ParseDuration\<close> in nanoseconds, \<open>uri\<close> is \<^verbatim>\<open>url.ParseRequestURI\<close> (scheme and host).
\<close>

type_synonym getenv = "string \<Rightarrow> string"
type_synonym durations = "string \<Rightarrow> int option"

datatype config_error =
    ErrMissingDatabaseURL | ErrInvalidPortFormat | ErrInvalidPort | ErrInvalidGRPCPortFmt | ErrInvalidGRPCPort
  | ErrMissingGRPCTLSCACert | ErrMissingGRPCTLSCert | ErrMissingGRPCTLSKey | ErrMissingAuthGRPCAddr
  | ErrMissingJWTPrivateKey | ErrMissingSubscriptionGRPCAddr
  | ErrMissingSMTPHost | ErrInvalidSMTPPortFormat | ErrInvalidSMTPPort | ErrInvalidSMTPCredentials
  | ErrMissingAppBaseURL | ErrInvalidAppBaseURL

definition second :: int where "second = 1000000000"

definition or_default :: "string \<Rightarrow> string \<Rightarrow> string" where
  "or_default v d = (if v = '''' then d else v)"

text \<open>\<open>check_port s fmt rng\<close>: \<^verbatim>\<open>strconv.Atoi\<close> and the range check.\<close>

definition check_port :: "string \<Rightarrow> 'e \<Rightarrow> 'e \<Rightarrow> 'e option" where
  "check_port s fmt rng =
     (case Atoi s of None \<Rightarrow> Some fmt | Some p \<Rightarrow> if p \<le> 0 \<or> p > 65535 then Some rng else None)"

text \<open>The first failing check of a sequence.\<close>

fun first_error :: "'e option list \<Rightarrow> 'e option" where
  "first_error [] = None"
| "first_error (Some e # es) = Some e"
| "first_error (None # es) = first_error es"

definition required :: "string \<Rightarrow> 'e \<Rightarrow> 'e option" where
  "required v e = (if v = '''' then Some e else None)"

section \<open>Subscription service\<close>

record sub_config =
  sc_DatabaseURL :: string
  sc_Port :: string
  sc_GRPCPort :: string
  sc_GithubToken :: string
  sc_NATSUrl :: string
  sc_AuthGRPCAddr :: string
  sc_SagaConfirmTTL :: int
  sc_GRPCTLSCACert :: string
  sc_GRPCTLSCert :: string
  sc_GRPCTLSKey :: string

definition sub_loadFromEnv :: "durations \<Rightarrow> getenv \<Rightarrow> sub_config" where
  "sub_loadFromEnv duration env =
     (let raw = env ''SAGA_CONFIRM_TTL'';
          ttl = (if raw \<noteq> '''' then (case duration raw of Some d \<Rightarrow> d | None \<Rightarrow> 24 * 3600 * second)
                 else 24 * 3600 * second) in
      \<lparr>sc_DatabaseURL = env ''DATABASE_URL'', sc_Port = env ''PORT'', sc_GRPCPort = env ''GRPC_PORT'',
       sc_GithubToken = env ''GITHUB_TOKEN'', sc_NATSUrl = env ''NATS_URL'',
       sc_AuthGRPCAddr = env ''AUTH_GRPC_ADDR'', sc_SagaConfirmTTL = ttl,
       sc_GRPCTLSCACert = env ''GRPC_TLS_CA_CERT'', sc_GRPCTLSCert = env ''GRPC_TLS_CERT'',
       sc_GRPCTLSKey = env ''GRPC_TLS_KEY''\<rparr>)"

definition sub_applyDefaults :: "sub_config \<Rightarrow> sub_config" where
  "sub_applyDefaults cfg =
     cfg\<lparr>sc_Port := or_default (sc_Port cfg) ''8080'', sc_GRPCPort := or_default (sc_GRPCPort cfg) ''50051'',
         sc_NATSUrl := or_default (sc_NATSUrl cfg) ''nats://localhost:4222''\<rparr>"

definition sub_validate :: "sub_config \<Rightarrow> config_error option" where
  "sub_validate cfg = first_error
     [required (sc_DatabaseURL cfg) ErrMissingDatabaseURL,
      check_port (sc_Port cfg) ErrInvalidPortFormat ErrInvalidPort,
      check_port (sc_GRPCPort cfg) ErrInvalidGRPCPortFmt ErrInvalidGRPCPort,
      required (sc_GRPCTLSCACert cfg) ErrMissingGRPCTLSCACert,
      required (sc_GRPCTLSCert cfg) ErrMissingGRPCTLSCert,
      required (sc_GRPCTLSKey cfg) ErrMissingGRPCTLSKey,
      required (sc_AuthGRPCAddr cfg) ErrMissingAuthGRPCAddr]"

definition sub_Load :: "durations \<Rightarrow> getenv \<Rightarrow> config_error + sub_config" where
  "sub_Load duration env =
     (let cfg = sub_applyDefaults (sub_loadFromEnv duration env) in
      case sub_validate cfg of Some e \<Rightarrow> Inl e | None \<Rightarrow> Inr cfg)"

section \<open>Auth service\<close>

record auth_config =
  ac_DatabaseURL :: string
  ac_Port :: string
  ac_GRPCPort :: string
  ac_NATSUrl :: string
  ac_GRPCTLSCACert :: string
  ac_GRPCTLSCert :: string
  ac_GRPCTLSKey :: string
  ac_JWTPrivateKey :: string
  ac_AccessTokenTTL :: int
  ac_RefreshTokenTTL :: int
  ac_VerifyTokenTTL :: int

definition durationFromEnv :: "durations \<Rightarrow> getenv \<Rightarrow> string \<Rightarrow> int" where
  "durationFromEnv duration env key =
     (let raw = env key in
      if raw = '''' then 0 else (case duration raw of None \<Rightarrow> 0 | Some d \<Rightarrow> d))"

definition auth_loadFromEnv :: "durations \<Rightarrow> getenv \<Rightarrow> auth_config" where
  "auth_loadFromEnv duration env =
     \<lparr>ac_DatabaseURL = env ''DATABASE_URL'', ac_Port = env ''PORT'', ac_GRPCPort = env ''GRPC_PORT'',
      ac_NATSUrl = env ''NATS_URL'', ac_GRPCTLSCACert = env ''GRPC_TLS_CA_CERT'',
      ac_GRPCTLSCert = env ''GRPC_TLS_CERT'', ac_GRPCTLSKey = env ''GRPC_TLS_KEY'',
      ac_JWTPrivateKey = env ''JWT_PRIVATE_KEY'',
      ac_AccessTokenTTL = durationFromEnv duration env ''JWT_ACCESS_TTL'',
      ac_RefreshTokenTTL = durationFromEnv duration env ''JWT_REFRESH_TTL'',
      ac_VerifyTokenTTL = durationFromEnv duration env ''VERIFY_TOKEN_TTL''\<rparr>"

definition auth_applyDefaults :: "auth_config \<Rightarrow> auth_config" where
  "auth_applyDefaults cfg =
     cfg\<lparr>ac_Port := or_default (ac_Port cfg) ''8080'', ac_GRPCPort := or_default (ac_GRPCPort cfg) ''50051'',
         ac_NATSUrl := or_default (ac_NATSUrl cfg) ''nats://localhost:4222'',
         ac_AccessTokenTTL := (if ac_AccessTokenTTL cfg = 0 then 15 * 60 * second else ac_AccessTokenTTL cfg),
         ac_RefreshTokenTTL := (if ac_RefreshTokenTTL cfg = 0 then 30 * 24 * 3600 * second else ac_RefreshTokenTTL cfg),
         ac_VerifyTokenTTL := (if ac_VerifyTokenTTL cfg = 0 then 24 * 3600 * second else ac_VerifyTokenTTL cfg)\<rparr>"

definition auth_validate :: "auth_config \<Rightarrow> config_error option" where
  "auth_validate cfg = first_error
     [required (ac_DatabaseURL cfg) ErrMissingDatabaseURL,
      check_port (ac_Port cfg) ErrInvalidPortFormat ErrInvalidPort,
      check_port (ac_GRPCPort cfg) ErrInvalidGRPCPortFmt ErrInvalidGRPCPort,
      required (ac_GRPCTLSCACert cfg) ErrMissingGRPCTLSCACert,
      required (ac_GRPCTLSCert cfg) ErrMissingGRPCTLSCert,
      required (ac_GRPCTLSKey cfg) ErrMissingGRPCTLSKey,
      required (ac_JWTPrivateKey cfg) ErrMissingJWTPrivateKey]"

definition auth_Load :: "durations \<Rightarrow> getenv \<Rightarrow> config_error + auth_config" where
  "auth_Load duration env =
     (let cfg = auth_applyDefaults (auth_loadFromEnv duration env) in
      case auth_validate cfg of Some e \<Rightarrow> Inl e | None \<Rightarrow> Inr cfg)"

section \<open>Monitoring service\<close>

record mon_config =
  mc_DatabaseURL :: string
  mc_GithubToken :: string
  mc_NATSUrl :: string
  mc_Port :: string
  mc_ScanInterval :: int
  mc_SubscriptionGRPCAddr :: string
  mc_GRPCTLSCACert :: string
  mc_GRPCTLSCert :: string
  mc_GRPCTLSKey :: string

definition mon_loadFromEnv :: "durations \<Rightarrow> getenv \<Rightarrow> mon_config" where
  "mon_loadFromEnv duration env =
     \<lparr>mc_DatabaseURL = env ''DATABASE_URL'', mc_GithubToken = env ''GITHUB_TOKEN'', mc_NATSUrl = env ''NATS_URL'',
      mc_Port = env ''PORT'',
      mc_ScanInterval = (case duration (env ''SCAN_INTERVAL'') of None \<Rightarrow> 0 | Some d \<Rightarrow> d),
      mc_SubscriptionGRPCAddr = env ''SUBSCRIPTION_GRPC_ADDR'', mc_GRPCTLSCACert = env ''GRPC_TLS_CA_CERT'',
      mc_GRPCTLSCert = env ''GRPC_TLS_CERT'', mc_GRPCTLSKey = env ''GRPC_TLS_KEY''\<rparr>"

definition mon_applyDefaults :: "mon_config \<Rightarrow> mon_config" where
  "mon_applyDefaults c =
     c\<lparr>mc_ScanInterval := (if mc_ScanInterval c = 0 then 25 * second else mc_ScanInterval c),
       mc_NATSUrl := or_default (mc_NATSUrl c) ''nats://localhost:4222'',
       mc_Port := or_default (mc_Port c) ''8080''\<rparr>"

definition mon_validate :: "mon_config \<Rightarrow> config_error option" where
  "mon_validate c = first_error
     [required (mc_DatabaseURL c) ErrMissingDatabaseURL,
      required (mc_SubscriptionGRPCAddr c) ErrMissingSubscriptionGRPCAddr,
      required (mc_GRPCTLSCACert c) ErrMissingGRPCTLSCACert,
      required (mc_GRPCTLSCert c) ErrMissingGRPCTLSCert,
      required (mc_GRPCTLSKey c) ErrMissingGRPCTLSKey]"

text \<open>This \<^verbatim>\<open>Load\<close> returns the configuration together with the error.\<close>

definition mon_Load :: "durations \<Rightarrow> getenv \<Rightarrow> mon_config \<times> config_error option" where
  "mon_Load duration env =
     (let cfg = mon_applyDefaults (mon_loadFromEnv duration env) in (cfg, mon_validate cfg))"

definition MigrationDSN :: "mon_config \<Rightarrow> string" where
  "MigrationDSN c =
     (let sep = (if CHR ''?'' \<in> set (mc_DatabaseURL c) then ''&'' else ''?'') in
      mc_DatabaseURL c @ sep @ ''x-migrations-table=monitoring_schema_migrations'')"

section \<open>Notification service\<close>

record ntf_config =
  nc_NATSUrl :: string
  nc_Port :: string
  nc_SMTPHost :: string
  nc_SMTPPort :: string
  nc_SMTPUser :: string
  nc_SMTPPass :: string
  nc_FromEmail :: string
  nc_AppBaseURL :: string

definition ntf_loadFromEnv :: "getenv \<Rightarrow> ntf_config" where
  "ntf_loadFromEnv env =
     \<lparr>nc_NATSUrl = env ''NATS_URL'', nc_Port = env ''PORT'', nc_SMTPHost = env ''SMTP_HOST'',
      nc_SMTPPort = env ''SMTP_PORT'', nc_SMTPUser = env ''SMTP_USER'', nc_SMTPPass = env ''SMTP_PASSWORD'',
      nc_FromEmail = env ''SENDER_EMAIL'', nc_AppBaseURL = env ''MAIN_URL''\<rparr>"

definition ntf_applyDefaults :: "ntf_config \<Rightarrow> ntf_config" where
  "ntf_applyDefaults cfg =
     cfg\<lparr>nc_NATSUrl := or_default (nc_NATSUrl cfg) ''nats://localhost:4222'',
         nc_Port := or_default (nc_Port cfg) ''8080'', nc_SMTPPort := or_default (nc_SMTPPort cfg) ''1025'',
         nc_FromEmail := or_default (nc_FromEmail cfg) ''noreply@localhost''\<rparr>"

definition ntf_validate :: "(string \<Rightarrow> (string \<times> string) option) \<Rightarrow> ntf_config \<Rightarrow> config_error option" where
  "ntf_validate uri cfg = first_error
     [required (nc_SMTPHost cfg) ErrMissingSMTPHost,
      check_port (nc_SMTPPort cfg) ErrInvalidSMTPPortFormat ErrInvalidSMTPPort,
      if (nc_SMTPUser cfg = '''') \<noteq> (nc_SMTPPass cfg = '''') then Some ErrInvalidSMTPCredentials else None,
      required (nc_AppBaseURL cfg) ErrMissingAppBaseURL,
      case uri (nc_AppBaseURL cfg) of
        None \<Rightarrow> Some ErrInvalidAppBaseURL
      | Some (scheme, host) \<Rightarrow> if scheme = '''' \<or> host = '''' then Some ErrInvalidAppBaseURL else None]"

definition ntf_Load :: "(string \<Rightarrow> (string \<times> string) option) \<Rightarrow> getenv \<Rightarrow> config_error + ntf_config" where
  "ntf_Load uri env =
     (let cfg = ntf_applyDefaults (ntf_loadFromEnv env) in
      case ntf_validate uri cfg of Some e \<Rightarrow> Inl e | None \<Rightarrow> Inr cfg)"

section \<open>What a configuration that loads satisfies\<close>

definition tcp_port :: "string \<Rightarrow> bool" where
  "tcp_port s \<longleftrightarrow> (\<exists>p. Atoi s = Some p \<and> 1 \<le> p \<and> p \<le> 65535)"

lemma first_error_None [simp]: "first_error es = None \<longleftrightarrow> (\<forall>e \<in> set es. e = None)"
  by (induction es rule: first_error.induct) simp_all

lemma check_port_None [simp]: "check_port s fmt rng = None \<longleftrightarrow> tcp_port s"
  by (auto simp: check_port_def tcp_port_def split: option.splits)

lemma required_None [simp]: "required v e = None \<longleftrightarrow> v \<noteq> ''''"
  by (simp add: required_def)

lemma or_default_nonempty [simp]: "d \<noteq> '''' \<Longrightarrow> or_default v d \<noteq> ''''"
  by (simp add: or_default_def)

lemma sub_Load_valid:
  "sub_Load duration env = Inr cfg \<longleftrightarrow>
     cfg = sub_applyDefaults (sub_loadFromEnv duration env) \<and> sc_DatabaseURL cfg \<noteq> '''' \<and>
     tcp_port (sc_Port cfg) \<and> tcp_port (sc_GRPCPort cfg) \<and> sc_GRPCTLSCACert cfg \<noteq> '''' \<and>
     sc_GRPCTLSCert cfg \<noteq> '''' \<and> sc_GRPCTLSKey cfg \<noteq> '''' \<and> sc_AuthGRPCAddr cfg \<noteq> ''''"
proof -
  have "sub_Load duration env = Inr cfg \<longleftrightarrow> cfg = sub_applyDefaults (sub_loadFromEnv duration env) \<and> sub_validate cfg = None"
    by (auto simp: sub_Load_def Let_def split: option.splits)
  then show ?thesis by (auto simp: sub_validate_def split: option.splits if_splits)
qed

lemma auth_Load_valid:
  "auth_Load duration env = Inr cfg \<longleftrightarrow>
     cfg = auth_applyDefaults (auth_loadFromEnv duration env) \<and> ac_DatabaseURL cfg \<noteq> '''' \<and>
     tcp_port (ac_Port cfg) \<and> tcp_port (ac_GRPCPort cfg) \<and> ac_GRPCTLSCACert cfg \<noteq> '''' \<and>
     ac_GRPCTLSCert cfg \<noteq> '''' \<and> ac_GRPCTLSKey cfg \<noteq> '''' \<and> ac_JWTPrivateKey cfg \<noteq> ''''"
proof -
  have "auth_Load duration env = Inr cfg \<longleftrightarrow> cfg = auth_applyDefaults (auth_loadFromEnv duration env) \<and> auth_validate cfg = None"
    by (auto simp: auth_Load_def Let_def split: option.splits)
  then show ?thesis by (auto simp: auth_validate_def split: option.splits if_splits)
qed

lemma ntf_Load_valid:
  "ntf_Load uri env = Inr cfg \<longleftrightarrow>
     cfg = ntf_applyDefaults (ntf_loadFromEnv env) \<and> nc_SMTPHost cfg \<noteq> '''' \<and> tcp_port (nc_SMTPPort cfg) \<and>
     (nc_SMTPUser cfg = '''' \<longleftrightarrow> nc_SMTPPass cfg = '''') \<and> nc_AppBaseURL cfg \<noteq> '''' \<and>
     (\<exists>scheme host. uri (nc_AppBaseURL cfg) = Some (scheme, host) \<and> scheme \<noteq> '''' \<and> host \<noteq> '''')"
proof -
  have "ntf_Load uri env = Inr cfg \<longleftrightarrow> cfg = ntf_applyDefaults (ntf_loadFromEnv env) \<and> ntf_validate uri cfg = None"
    by (auto simp: ntf_Load_def Let_def split: option.splits)
  then show ?thesis by (auto simp: ntf_validate_def split: option.splits if_splits)
qed

lemma mon_Load_valid:
  "snd (mon_Load duration env) = None \<longleftrightarrow>
     env ''DATABASE_URL'' \<noteq> '''' \<and> env ''SUBSCRIPTION_GRPC_ADDR'' \<noteq> '''' \<and> env ''GRPC_TLS_CA_CERT'' \<noteq> '''' \<and>
     env ''GRPC_TLS_CERT'' \<noteq> '''' \<and> env ''GRPC_TLS_KEY'' \<noteq> ''''"
  by (auto simp: mon_Load_def mon_validate_def mon_applyDefaults_def mon_loadFromEnv_def Let_def)

end
