(* ===== verification/Mails.thy ===== *)
theory Mails
  imports Deliveries "HOL-Library.Sublist"
begin

text \<open>
  What is in a mail: its markup is that of the template whatever the values are, and its link leads
  to the page of the front end with the token.
\<close>

section \<open>The mail of an event\<close>

fun mail_template :: "mail \<Rightarrow> piece list" where
  "mail_template (ConfirmationMail to repo token) = confirmationTmpl"
| "mail_template (ReleaseMail to token tag name url) = releaseTmpl"
| "mail_template (VerificationMail to token) = verificationTmpl"

fun mail_token :: "mail \<Rightarrow> string" where
  "mail_token (ConfirmationMail to repo token) = token"
| "mail_token (ReleaseMail to token tag name url) = token"
| "mail_token (VerificationMail to token) = token"

fun mail_page :: "mail \<Rightarrow> string" where
  "mail_page (ConfirmationMail to repo token) = ''/confirm/''"
| "mail_page (ReleaseMail to token tag name url) = ''/unsubscribe/''"
| "mail_page (VerificationMail to token) = ''/verify-email/''"

lemma mail_body_markup: "filter markup_char (mail_body m x) = concat (map piece_markup (mail_template x))"
  by (cases x) (simp_all add: rendered_markup)

text \<open>The body shows a link in a quoted \<^verbatim>\<open>href\<close>; a template that has the field there does.\<close>

definition shows_link :: "string \<Rightarrow> string \<Rightarrow> bool" where
  "shows_link body link \<longleftrightarrow> (\<exists>pre post. body = pre @ ''href='' @ quote @ href_escape link @ quote @ post)"

fun has_link :: "string \<Rightarrow> piece list \<Rightarrow> bool" where
  "has_link f (Markup s # Href g # Markup t # ps) \<longleftrightarrow>
     f = g \<and> suffix (''href='' @ quote) s \<and> prefix quote t \<or> has_link f (Markup t # ps)"
| "has_link f (p # ps) \<longleftrightarrow> has_link f ps"
| "has_link f [] \<longleftrightarrow> False"

lemma execute_simps [simp]: "execute [] v = []" "execute (p # ps) v = piece_out v p @ execute ps v"
  by (simp_all add: execute_def)

lemma shows_link_later: "shows_link body link \<Longrightarrow> shows_link (s @ body) link"
  unfolding shows_link_def by (metis append.assoc)

lemma has_link_shows: "has_link f ps \<Longrightarrow> shows_link (execute ps v) (v f)"
proof (induction f ps rule: has_link.induct)
  case (1 f s g t ps)
  show ?case
  proof (cases "f = g \<and> suffix (''href='' @ quote) s \<and> prefix quote t")
    case True
    then obtain a b where "s = a @ ''href='' @ quote" "t = quote @ b" by (auto simp: suffix_def prefix_def)
    then have "execute (Markup s # Href g # Markup t # ps) v =
        a @ ''href='' @ quote @ href_escape (v f) @ quote @ (b @ execute ps v)"
      using True by simp
    then show ?thesis unfolding shows_link_def by blast
  next
    case False
    then have "shows_link (execute (Markup t # ps) v) (v f)" using 1 by auto
    then show ?thesis using shows_link_later by (metis execute_simps(2))
  qed
qed (auto intro: shows_link_later)

lemma templates_have_links:
  "has_link ''ConfirmLink'' confirmationTmpl" "has_link ''UnsubscribeLink'' releaseTmpl"
  "has_link ''ReleaseURL'' releaseTmpl" "has_link ''VerifyLink'' verificationTmpl"
  by (simp_all add: confirmationTmpl_def releaseTmpl_def verificationTmpl_def styled_def suffix_to_prefix quote_def)

lemma mail_body_link: "shows_link (mail_body m x) (m_appBaseURL m @ mail_page x @ mail_token x)"
proof (cases x)
  case (ConfirmationMail to repo token)
  show ?thesis
    using has_link_shows [OF templates_have_links(1)] unfolding ConfirmationMail mail_body.simps renderConfirmationEmail_def
    by (rule back_subst) (simp add: with_fields_def)
next
  case (ReleaseMail to token tag name url)
  show ?thesis
    using has_link_shows [OF templates_have_links(2)] unfolding ReleaseMail mail_body.simps renderReleaseEmail_def
    by (rule back_subst) (simp add: with_fields_def)
next
  case (VerificationMail to token)
  show ?thesis
    using has_link_shows [OF templates_have_links(4)] unfolding VerificationMail mail_body.simps renderVerificationEmail_def
    by (rule back_subst) (simp add: with_fields_def)
qed


section \<open>Safe rendering\<close>

lemma HasPrefix_append: "HasPrefix s p \<Longrightarrow> \<exists>u. s = p @ u"
  by (metis HasPrefix_def append_take_drop_id)

lemma http_is_safe: "HasPrefix s ''http://'' \<or> HasPrefix s ''https://'' \<Longrightarrow> isSafeURL (s @ t)"
  by (auto simp: isSafeURL_def dest!: HasPrefix_append)

lemma alphabet_kept: "list_all url_kept url_alphabet"
  by (simp add: url_alphabet_def url_kept_def is_alnum_def)

lemma token_kept: "list_all url_kept (RawURLEncode bs)"
  using set_RawURLEncode [of bs] alphabet_kept by (auto simp: list_all_iff)

lemma page_kept: "list_all url_kept (mail_page x)"
  by (cases x) (simp_all add: url_kept_def is_alnum_def)

text \<open>C19: nothing in an event changes the structure of its mail: the markup characters of the body
  are those of the template, whatever the names, tags, URLs and tokens are. And the link reaches the
  reader: when the address of the front end is an http URL of ordinary characters and the token one
  that the services draw, the body shows a link that decodes to the page of the front end with
  exactly this token.\<close>

theorem mails_render_safely:
  assumes "HasPrefix (m_appBaseURL m) ''http://'' \<or> HasPrefix (m_appBaseURL m) ''https://''"
    and "list_all url_kept (m_appBaseURL m)" "mail_token x = RawURLEncode bs"
  shows "filter markup_char (mail_body m x) = concat (map piece_markup (mail_template x)) \<and>
    (\<exists>pre link post. mail_body m x = pre @ ''href='' @ quote @ link @ quote @ post \<and>
       html_unescape link = m_appBaseURL m @ mail_page x @ mail_token x)"
proof -
  have "html_unescape (href_escape (m_appBaseURL m @ mail_page x @ mail_token x)) =
      m_appBaseURL m @ mail_page x @ mail_token x"
    by (rule href_survives [OF http_is_safe [OF assms(1)]])
      (simp add: assms(2,3) token_kept page_kept)
  then show ?thesis
    using mail_body_markup mail_body_link [of m x] unfolding shows_link_def by blast
qed

theorem mails_render_safely_witness:
  "\<exists>pre link post. mail_body demo_mailer (ConfirmationMail ''a@x.y'' ''<b>'' (RawURLEncode ''0123'')) =
       pre @ ''href='' @ quote @ link @ quote @ post \<and>
     html_unescape link = ''http://h/confirm/'' @ RawURLEncode ''0123''"
  using mails_render_safely [of demo_mailer "ConfirmationMail ''a@x.y'' ''<b>'' (RawURLEncode ''0123'')" "''0123''"]
  by (simp add: demo_mailer_def NewMailer_def HasPrefix_def url_kept_def is_alnum_def)

text \<open>The headers have no such protection: the subject is built from the release name as it is.\<close>

lemma release_name_adds_header:
  "\<exists>pre post. mail_text m to (mail_subject (ReleaseMail to token tag (''x'' @ crlf @ ''Bcc: v@x.y'' @ crlf) url)) body =
     pre @ crlf @ ''Bcc: v@x.y'' @ crlf @ post"
proof -
  have "mail_text m to (mail_subject (ReleaseMail to token tag (''x'' @ crlf @ ''Bcc: v@x.y'' @ crlf) url)) body =
      (''From: '' @ m_fromEmail m @ crlf @ ''To: '' @ to @ crlf @ ''Subject: New Release for x'') @ crlf @
      ''Bcc: v@x.y'' @ crlf @ ('': '' @ tag @ crlf @ ''MIME-Version: 1.0'' @ crlf @ ''Content-Type: text/html; charset='' @
      quote @ ''UTF-8'' @ quote @ crlf @ crlf @ body)"
    by (simp add: mail_text_def quote_def crlf_def)
  then show ?thesis by blast
qed

end
