(* ===== verification/Journey.thy ===== *)
theory Journey
  imports Mails SagaScenarios
begin

text \<open>
  The way of one subscription through all services when nothing fails: the relay publishes its event,
  the notification service mails it and replies, the saga consumer advances the saga, the user confirms
  with the token of the mail.
\<close>

section \<open>The subscription and its saga\<close>

definition follows :: "string \<Rightarrow> Subscription \<Rightarrow> SagaState \<Rightarrow> bool \<Rightarrow> int \<Rightarrow> int \<Rightarrow> sub_db \<Rightarrow> bool" where
  "follows sagaID sub st confirmed k i d \<longleftrightarrow>
     (\<exists>r. saga_by_id d sagaID = Some r \<and> saga_by_sub d i = Some r \<and> sg_ID r = k \<and> sg_SubscriptionID r = i \<and> sg_State r = st) \<and>
     (\<exists>s. find (\<lambda>s. sb_ConfirmToken s = sb_ConfirmToken sub) (subscriptions d) = Some s \<and> sb_ID s = i \<and>
        sb_Email s = sb_Email sub \<and> sb_RepositoryID s = sb_RepositoryID sub \<and> sb_Confirmed s = confirmed)"

lemma find_update_where:
  "(\<And>r. P (f r) = P r) \<Longrightarrow> find P (update_where Q f xs) = map_option (\<lambda>r. if Q r then f r else r) (find P xs)"
  by (induction xs) (auto simp: update_where_def)

lemma follows_created:
  assumes "creatable d sagaID sub" "sagas_ok d"
  shows "follows sagaID sub StateStarted False (sagas_seq d) (subscriptions_seq d) (created sagaID sub p now dl d)"
proof -
  have "find (\<lambda>s. sb_ConfirmToken s = sb_ConfirmToken sub) (subscriptions d) = None"
    "find (\<lambda>r. sg_SagaID r = sagaID) (subscribe_sagas d) = None"
    "find (\<lambda>r. sg_SubscriptionID r = subscriptions_seq d) (subscribe_sagas d) = None"
    using assms by (auto simp: creatable_def token_clash_def sagas_ok_def find_None_iff)
  then show ?thesis
    by (simp add: follows_def created_def find_append saga_by_id_def saga_by_sub_def new_subscription_row_def)
qed

lemma follows_outbox [simp]: "follows sagaID sub st c k i (outbox_update f d) \<longleftrightarrow> follows sagaID sub st c k i d"
  by (simp add: follows_def saga_by_id_def saga_by_sub_def)

lemma follows_set:
  "follows sagaID sub st c k i d \<Longrightarrow> follows sagaID sub st' c k i (set_saga_state k st' le d)"
  by (auto simp: follows_def saga_by_id_def saga_by_sub_def set_saga_state_def find_update_where)

lemma follows_confirm:
  assumes "follows sagaID sub st c k i d"
  shows "follows sagaID sub st True k i (confirm_where (\<lambda>s. sb_ConfirmToken s = sb_ConfirmToken sub) now d)"
proof -
  obtain x where x: "find (\<lambda>s. sb_ConfirmToken s = sb_ConfirmToken sub) (subscriptions d) = Some x" "sb_ID x = i"
    "sb_Email x = sb_Email sub" "sb_RepositoryID x = sb_RepositoryID sub"
    using assms unfolding follows_def by blast
  have "sb_ConfirmToken x = sb_ConfirmToken sub" using find_SomeD [OF x(1)] by simp
  then show ?thesis
    using assms x(2-4) unfolding follows_def saga_by_id_def saga_by_sub_def confirm_where_def
    by (simp add: find_update_where x(1))
qed

section \<open>The services on the way\<close>

text \<open>One tick of the relay publishes the only pending event.\<close>

lemma calm_relay_single:
  assumes "calm w" "pending (outbox (committed w)) = [row]"
  shows "wp sub_publishPending (\<lambda>r w'. r = Inr () \<and> stream w' = stream w @ [msg_of sub_msgID (ob_row row)] \<and>
    (\<exists>f. committed w' = outbox_update f (committed w))) w"
proof -
  have batch: "fetch_rows batchSize (locked w) (outbox (committed w)) = [ob_row row]"
    using assms by (simp add: fetch_rows_def calm_def batchSize_def)
  show ?thesis
    unfolding sub_publishPending_def
    by (rule wp_mono [OF sub_relay.tick_calm [of w sub_msgID]])
      (use assms(1) batch in \<open>auto simp: calm_def\<close>)
qed

lemma calm_sendOne:
  assumes "sm_replies (committed w) = []"
  shows "wp (sendOne m to subject body) (\<lambda>r w'. r = None \<and> elsewhere w w' \<and> sm_replies (committed w') = [] \<and>
    sm_sent (committed w') = sm_sent (committed w) @ [(m_fromEmail m, to, mail_text m to subject body)]) w"
  using assms by (auto simp: mailer_defs wp_simps Let_def next_reply_def)

lemma calm_elsewhere:
  assumes "elsewhere w w'" "calm w"
  shows "txn w' = None" "faults w' = []" "pub_faults w' = []" "locked w' = []"
  using assms by (metis calm_def elsewhere_def world.select_convs(2-) world.surjective world.update_convs(1))+

lemma calm_consume:
  assumes "calm w" "sm_replies (committed w) = []" "mail_of subject data = Some x"
  shows "wp (consume rfc3339 (smtp_mailer m) subject data (Some \<lparr>mm_NumDelivered = n, mm_StreamSeq = sq\<rparr>))
    (\<lambda>v w'. v = Ack \<and> calm w' \<and> sm_replies (committed w') = [] \<and>
       sm_sent (committed w') = sm_sent (committed w) @ [smtp_mail m x] \<and>
       stream w' = stream w @ sent_reply (saga_of subject data) sq) w"
  unfolding consume_def option.case wp_bind processMessage_eq assms(3) send_mail_smtp
  by (rule wp_mono [OF calm_sendOne [OF assms(2)]])
    (use assms(1) calm_elsewhere [OF _ assms(1)] in \<open>auto simp: decideAction_def wp_simps Let_def elsewhereD smtp_mail_def
      sent_reply_def publishEmailSent_def calm_def\<close>)

lemma calm_delivery:
  assumes "calm w" "sm_replies (committed w) = []" "mail_of subject data = Some x"
  shows "wp (deliver_all rfc3339 (smtp_mailer m) subject data sq) (\<lambda>v w'. v = Ack \<and> calm w' \<and>
    sm_replies (committed w') = [] \<and> sm_sent (committed w') = sm_sent (committed w) @ [smtp_mail m x] \<and>
    stream w' = stream w @ sent_reply (saga_of subject data) sq) w"
  unfolding deliver_all_def maxDeliver_def
  by (simp add: numeral_eq_Suc wp_bind) (rule wp_mono [OF calm_consume [OF assms]], simp add: wp_return)

lemma calm_reply:
  assumes "calm w" "follows sagaID sub StateStarted c k i (committed w)"
  shows "wp (saga_Consume orc SubjectEmailSent (Marshal_EmailSent \<lparr>es_SagaID = sagaID\<rparr>)) (\<lambda>v w'. v = Ack \<and>
    follows sagaID sub StateAwaitingConfirmation c k i (committed w')) w"
proof -
  obtain r where r: "saga_by_id (committed w) sagaID = Some r" "sg_ID r = k" "sg_State r = StateStarted"
    using assms(2) by (auto simp: follows_def)
  show ?thesis
    unfolding saga_Consume_def saga_handle_def
    by (simp add: wp_bind wp_return) (rule wp_mono [OF calm_HandleEmailSent [OF assms(1) r(1)]],
      use r follows_set [OF assms(2)] in \<open>auto simp: wp_return\<close>)
qed

lemma calm_confirmation:
  assumes "calm w" "follows sagaID sub StateAwaitingConfirmation c k i (committed w)"
  shows "wp (Confirm_Execute (sb_ConfirmToken sub)) (\<lambda>r w'. r = Inr () \<and>
    follows sagaID sub StateCompleted True k i (committed w')) w"
proof -
  let ?d = "confirm_where (\<lambda>s. sb_ConfirmToken s = sb_ConfirmToken sub) (pg_clock w) (committed w)"
  have d: "follows sagaID sub StateAwaitingConfirmation True k i ?d"
    by (rule follows_confirm [OF assms(2)])
  then obtain r where r: "saga_by_sub ?d i = Some r" "sg_ID r = k" "sg_State r = StateAwaitingConfirmation"
    by (auto simp: follows_def)
  obtain s where s: "find (\<lambda>s. sb_ConfirmToken s = sb_ConfirmToken sub) (subscriptions (committed w)) = Some s" "sb_ID s = i"
    using assms(2) by (auto simp: follows_def)
  show ?thesis
    by (rule wp_mono [OF calm_Confirm [OF assms(1)]]) (use r s follows_set [OF d] in \<open>simp add: Let_def\<close>)
qed


text \<open>C16: the way of a subscription through all services when nothing fails. From a reachable state
  with no other event pending: after subscribing one tick of the relay publishes one message; the
  notification service delivers it as exactly the confirmation mail to the address, with the
  repository and the token, and publishes one reply; the reply moves the saga to
  AWAITING_CONFIRMATION; and confirming with the token of the mail confirms the subscription of this
  address and completes the saga.\<close>

theorem subscription_journey:
  assumes "reachable s" "creatable (sdb s) sagaID sub" "sagaID \<noteq> ''''" "pending (outbox (sdb s)) = []"
    and "calm w" "committed w = created sagaID sub
      (confirmation_payload sagaID (sb_Email sub) repoName (sb_ConfirmToken sub)) now dl (sdb s)"
    and "calm v" "sm_replies (committed v) = []"
  shows "\<exists>m reply k i.
    stream (run_world sub_publishPending w) = stream w @ [m] \<and>
    (let v' = run_world (deliver_all rfc3339 (smtp_mailer mlr) (msg_subject m) (msg_data m) sq) v in
     sm_sent (committed v') = sm_sent (committed v) @
       [smtp_mail mlr (ConfirmationMail (sb_Email sub) repoName (sb_ConfirmToken sub))] \<and>
     stream v' = stream v @ [reply]) \<and>
    (\<forall>u. calm u \<and> committed u = committed (run_world sub_publishPending w) \<longrightarrow>
       (let u' = run_world (saga_Consume orchestrator (msg_subject reply) (msg_data reply)) u in
        follows sagaID sub StateAwaitingConfirmation False k i (committed u') \<and>
        (\<forall>x. calm x \<and> committed x = committed u' \<longrightarrow>
           run_result (Confirm_Execute (sb_ConfirmToken sub)) x = Inr () \<and>
           follows sagaID sub StateCompleted True k i (committed (run_world (Confirm_Execute (sb_ConfirmToken sub)) x)))))"
proof -
  let ?data = "confirmation_payload sagaID (sb_Email sub) repoName (sb_ConfirmToken sub)"
  let ?k = "sagas_seq (sdb s)" and ?i = "subscriptions_seq (sdb s)"
  let ?row = "\<lparr>ob_ID = ob_seq (outbox (sdb s)), ob_Subject = SubjectConfirmation, ob_Payload = ?data, ob_PublishedAt = None\<rparr>"
  have inv: "outbox_wf (outbox (sdb s))" "sagas_ok (sdb s)"
    using reachable_inv [OF assms(1)] sub_wfD(8) by (auto simp: sys_inv_def)
  have mail: "mail_of SubjectConfirmation ?data = Some (ConfirmationMail (sb_Email sub) repoName (sb_ConfirmToken sub))"
    "saga_of SubjectConfirmation ?data = sagaID"
    by (simp_all add: confirmation_payload_def mail_of_def saga_of_def)
  have "pending (outbox (committed w)) = [?row]"
    using pending_insert [OF inv(1)] assms(4) by (simp add: assms(6) created_def)
  note relay = calm_relay_single [OF assms(5) this, unfolded wp_run]
  have started: "follows sagaID sub StateStarted False ?k ?i (committed (run_world sub_publishPending w))"
    using relay follows_created [OF assms(2) inv(2)] assms(6) by auto
  have relayed: "stream (run_world sub_publishPending w) = stream w @
      [\<lparr>msg_subject = SubjectConfirmation, msg_data = ?data, msg_id = sub_msgID (ob_seq (outbox (sdb s)))\<rparr>]"
    using relay by (simp add: msg_of_def OutboxRow.defs)
  let ?m = "\<lparr>msg_subject = SubjectConfirmation, msg_data = ?data, msg_id = sub_msgID (ob_seq (outbox (sdb s)))\<rparr>"
  let ?reply = "\<lparr>msg_subject = SubjectEmailSent, msg_data = Marshal_EmailSent \<lparr>es_SagaID = sagaID\<rparr>,
    msg_id = ''sent-'' @ show_nat sq\<rparr>"
  have delivered: "let v' = run_world (deliver_all rfc3339 (smtp_mailer mlr) (msg_subject ?m) (msg_data ?m) sq) v in
      sm_sent (committed v') = sm_sent (committed v) @
        [smtp_mail mlr (ConfirmationMail (sb_Email sub) repoName (sb_ConfirmToken sub))] \<and>
      stream v' = stream v @ [?reply]"
    using calm_delivery [OF assms(7,8) mail(1), of rfc3339 mlr sq, unfolded wp_run] assms(3)
    by (simp add: mail(2) sent_reply_def)
  have advanced: "follows sagaID sub StateAwaitingConfirmation False ?k ?i
      (committed (run_world (saga_Consume orchestrator (msg_subject ?reply) (msg_data ?reply)) u))"
    if "calm u" "committed u = committed (run_world sub_publishPending w)" for u
    using calm_reply [OF that(1), of sagaID sub False ?k ?i orchestrator, unfolded wp_run] started that(2) by simp
  have confirmed: "run_result (Confirm_Execute (sb_ConfirmToken sub)) x = Inr () \<and>
      follows sagaID sub StateCompleted True ?k ?i (committed (run_world (Confirm_Execute (sb_ConfirmToken sub)) x))"
    if "calm x" "follows sagaID sub StateAwaitingConfirmation False ?k ?i (committed x)" for x
    using calm_confirmation [OF that, unfolded wp_run] .
  have saga: "\<forall>u. calm u \<and> committed u = committed (run_world sub_publishPending w) \<longrightarrow>
     (let u' = run_world (saga_Consume orchestrator (msg_subject ?reply) (msg_data ?reply)) u in
      follows sagaID sub StateAwaitingConfirmation False ?k ?i (committed u') \<and>
      (\<forall>x. calm x \<and> committed x = committed u' \<longrightarrow>
         run_result (Confirm_Execute (sb_ConfirmToken sub)) x = Inr () \<and>
         follows sagaID sub StateCompleted True ?k ?i (committed (run_world (Confirm_Execute (sb_ConfirmToken sub)) x))))"
    unfolding Let_def by (metis advanced confirmed)
  show ?thesis
    by (rule exI [of _ ?m], rule exI [of _ ?reply], rule exI [of _ ?k], rule exI [of _ ?i],
        rule conjI [OF relayed conjI [OF delivered saga]])
qed


theorem subscription_journey_witness:
  "\<exists>m. stream (run_world sub_publishPending (calm_world (created ''sa'' sub_a
      (confirmation_payload ''sa'' ''a@x.y'' ''o/r'' ''ca'') 0 0 db_repo) 0 [])) = [m] \<and>
     sm_sent (committed (run_world (deliver_all (\<lambda>_. '''') (smtp_mailer demo_mailer) (msg_subject m) (msg_data m) 7)
       (calm_world (smtp_up []) 0 []))) = [smtp_mail demo_mailer (ConfirmationMail ''a@x.y'' ''o/r'' ''ca'')]"
proof -
  have "creatable db_repo ''sa'' sub_a"
    by (simp add: creatable_def db_repo_def empty_sub_db_def sub_a_def varchar255_short token_clash_def pair_taken_def)
  moreover have "pending (outbox db_repo) = []"
    by (simp add: db_repo_def empty_sub_db_def pending_def)
  moreover have "sb_Email sub_a = ''a@x.y''" "sb_ConfirmToken sub_a = ''ca''"
    by (simp_all add: sub_a_def)
  ultimately show ?thesis
    using subscription_journey [OF reach_repo, of "''sa''" sub_a
        "calm_world (created ''sa'' sub_a (confirmation_payload ''sa'' ''a@x.y'' ''o/r'' ''ca'') 0 0 db_repo) 0 []" "''o/r''"
        0 0 "calm_world (smtp_up []) 0 []" "\<lambda>_. ''''" demo_mailer 7]
    by (auto simp: smtp_up_def Let_def calm_world_def calm_def)
qed

end
