(* ===== verification/Releases.thy ===== *)
theory Releases
  imports Journey Scan
begin

text \<open>
  The way of a release through all services when nothing fails: the scan of the monitoring service
  finds it, its relay publishes it, the fan-out of the subscription service turns it into one event for
  each confirmed subscriber, the relay publishes those, and the notification service mails them.
\<close>

section \<open>Delivering several messages\<close>

fun deliver_messages :: "(int \<Rightarrow> string) \<Rightarrow> Mailer \<Rightarrow> js_msg list \<Rightarrow> nat \<Rightarrow> smtp world \<Rightarrow> smtp world" where
  "deliver_messages rfc3339 mlr [] sq v = v"
| "deliver_messages rfc3339 mlr (m # ms) sq v =
     deliver_messages rfc3339 mlr ms (Suc sq)
       (run_world (deliver_all rfc3339 (smtp_mailer mlr) (msg_subject m) (msg_data m) sq) v)"

lemma calm_deliveries:
  assumes "calm v" "sm_replies (committed v) = []"
    and "list_all2 (\<lambda>m x. mail_of (msg_subject m) (msg_data m) = Some x) ms xs"
  shows "sm_sent (committed (deliver_messages rfc3339 mlr ms sq v)) = sm_sent (committed v) @ map (smtp_mail mlr) xs"
  using assms(3,1,2)
proof (induction arbitrary: sq v rule: list_all2_induct)
  case (Cons m ms x xs)
  show ?case
    using calm_delivery [OF Cons.prems Cons.hyps(1), of rfc3339 mlr sq, unfolded wp_run]
    by (simp add: Cons.IH)
qed simp

section \<open>The services on the way\<close>

lemma calm_scan_found:
  assumes "calm w" "gh name = Inr r" "cursor_of (committed w) i \<noteq> ''''" "cursor_of (committed w) i \<noteq> gr_Tag r"
  shows "wp (scan_one gh i name) (\<lambda>x w'. x = Inr () \<and> calm w' \<and> cursor_of (committed w') i = gr_Tag r \<and>
    monitoring_outbox (committed w') =
      insert_row SubjectReleaseFound (event_for i name r) (monitoring_outbox (committed w))) w"
proof -
  have rel: "getLatestRelease gh \<lparr>mr_ID = i, mr_FullName = name, mr_LastSeenTag = cursor_of (committed w) i\<rparr> = Inr (Some r)"
    using assms(2) by (simp add: getLatestRelease_def)
  show ?thesis
    by (rule wp_mono [OF calm_scan_one [OF assms(1) rel]]) (use assms(3,4) in \<open>auto simp: observe_def\<close>)
qed

lemma calm_mon_relay_single:
  assumes "calm w" "pending (monitoring_outbox (committed w)) = [row]"
  shows "wp mon_publishPending (\<lambda>r w'. stream w' = stream w @ [msg_of mon_msgID (ob_row row)]) w"
proof -
  have batch: "fetch_rows batchSize (locked w) (monitoring_outbox (committed w)) = [ob_row row]"
    using assms by (simp add: fetch_rows_def calm_def batchSize_def)
  show ?thesis
    unfolding mon_publishPending_def
    by (rule wp_mono [OF mon_relay.tick_calm [of w mon_msgID]]) (use assms(1) batch in \<open>auto simp: calm_def\<close>)
qed

text \<open>The messages that ticks of the relay publish for the events of a release.\<close>

lemma relayed_events:
  assumes "txn u = None" "outbox_wf (outbox (committed u))" "list_all calm_tick evs"
    and "map (\<lambda>r. (ob_Subject r, ob_Payload r)) (pending (outbox (committed u))) = map (Pair SubjectRelease) ps"
    and "length ps \<le> batchSize * length evs"
  shows "\<exists>ms. stream (relay_run sub_publishPending
      (\<lambda>subject payload. outbox_update (insert_row subject payload)) evs u) = stream u @ ms \<and>
    map (\<lambda>m. (msg_subject m, msg_data m)) ms = map (Pair SubjectRelease) ps"
proof -
  let ?p = "pending (outbox (committed u))"
  have "length ?p = length ps" using arg_cong [OF assms(4), of length] by simp
  then have "stream (relay_run sub_publishPending (\<lambda>subject payload. outbox_update (insert_row subject payload)) evs u) =
      stream u @ map (\<lambda>r. msg_of sub_msgID (ob_row r)) ?p"
    using sub_relay.calm_run [OF assms(1-3), of sub_msgID] assms(5) by (simp add: sub_publishPending_def)
  moreover have "map (\<lambda>m. (msg_subject m, msg_data m)) (map (\<lambda>r. msg_of sub_msgID (ob_row r)) ?p) =
      map (\<lambda>r. (ob_Subject r, ob_Payload r)) ?p"
    by (simp add: msg_of_def OutboxRow.defs)
  ultimately show ?thesis using assms(4) by metis
qed

definition release_mail :: "Release \<Rightarrow> Subscription \<Rightarrow> mail" where
  "release_mail r s = ReleaseMail (sb_Email s) (sb_UnsubscribeToken s) (gr_Tag r) (gr_Name r) (gr_URL r)"

lemma event_for_decoded:
  assumes "- (2 ^ 63) \<le> i" "i < 2 ^ 63"
  shows "Unmarshal_ReleaseFound (event_for i name r) =
    Some \<lparr>rf_RepoID = i, rf_RepoName = name, rf_ReleaseTag = gr_Tag r, rf_ReleaseName = gr_Name r,
          rf_ReleaseURL = gr_URL r\<rparr>"
  using assms by (simp add: event_for_def found_event_def)

lemma fanned_out_pending:
  assumes "calm u" "sub_wf (committed u)" "pending (outbox (committed u)) = []"
    and "Unmarshal_ReleaseFound data = Some ev" "varchar255 (rf_ReleaseTag ev)"
  shows "wp (fanout_Consume recipient_lister data) (\<lambda>v u'. v = Ack \<and> txn u' = None \<and> outbox_wf (outbox (committed u')) \<and>
    map (\<lambda>r. (ob_Subject r, ob_Payload r)) (pending (outbox (committed u'))) =
      map (Pair SubjectRelease) (map (release_payload ev) (confirmed_of (committed u) (rf_RepoID ev)))) u"
proof -
  have wf: "outbox_wf (outbox (committed u))" by (rule sub_wfD(8) [OF assms(2)])
  have "outbox_wf (enqueue_all SubjectRelease ps t)" if "outbox_wf t" for ps t
    using that by (induction ps arbitrary: t) (simp_all add: outbox_wf_insert)
  then have "outbox_wf (outbox (fanned_out ev now (committed u)))" for now
    using wf by (simp add: fanned_out_def tagged_def)
  moreover have "wp (handleReleaseFound recipient_lister data) (\<lambda>r u'. txn u' = None \<and> r = Inr () \<and>
      committed u' = fanned_out ev (pg_clock u) (committed u)) u"
    using calm_handleReleaseFound [OF assms(1,4,5)] wp_handleReleaseFound [OF calmD(1) [OF assms(1)] assms(4)]
    by (simp add: wp_run)
  ultimately show ?thesis
    unfolding fanout_Consume_def wp_bind
    by (elim wp_mono) (auto simp: wp_return fanned_out_def tagged_def pending_enqueue_all wf assms(3))
qed


section \<open>The whole way\<close>

lemma release_payload_mail:
  "rf_ReleaseTag ev = gr_Tag r \<Longrightarrow> rf_ReleaseName ev = gr_Name r \<Longrightarrow> rf_ReleaseURL ev = gr_URL r \<Longrightarrow>
     mail_of SubjectRelease (release_payload ev s) = Some (release_mail r s)"
  by (simp add: release_payload_def mail_of_def release_mail_def)

lemma relayed_mails:
  assumes "map (\<lambda>m. (msg_subject m, msg_data m)) ms = map (Pair SubjectRelease) (map p ss)"
    and "\<And>s. mail_of SubjectRelease (p s) = Some (x s)"
  shows "list_all2 (\<lambda>m y. mail_of (msg_subject m) (msg_data m) = Some y) ms (map x ss)"
  using assms(1)
proof (induction ms arbitrary: ss)
  case (Cons m ms)
  then show ?case by (cases ss) (auto simp: assms(2))
qed simp

text \<open>C22: the way of a release through all services when nothing fails. A scan of a known repository
  that finds a tag other than its cursor moves the cursor, and the message its relay then publishes
  makes the fan-out and the relay of the subscription service publish messages that the notification
  service delivers as exactly one mail to every confirmed subscriber of the repository, in the order of
  the table, with the tag, name and address of the release and the subscriber's own token.\<close>

theorem release_journey:
  assumes w: "calm w" "outbox_wf (monitoring_outbox (committed w))" "pending (monitoring_outbox (committed w)) = []"
    and rel: "gh name = Inr r" "cursor_of (committed w) i \<noteq> ''''" "cursor_of (committed w) i \<noteq> gr_Tag r"
      "- (2 ^ 63) \<le> i" "i < 2 ^ 63" "varchar255 (gr_Tag r)"
    and u: "calm u" "sub_wf (committed u)" "pending (outbox (committed u)) = []"
    and evs: "list_all calm_tick evs" "length (confirmed_of (committed u) i) \<le> batchSize * length evs"
    and v: "calm v" "sm_replies (committed v) = []"
    and w1: "w1 = run_world (scan_one gh i name) w"
    and u1: "u1 = run_world (fanout_Consume recipient_lister
      (msg_data (last (stream (run_world mon_publishPending w1))))) u"
    and u2: "u2 = relay_run sub_publishPending (\<lambda>subject payload. outbox_update (insert_row subject payload)) evs u1"
  shows "cursor_of (committed w1) i = gr_Tag r \<and>
    sm_sent (committed (deliver_messages rfc3339 mlr (drop (length (stream u1)) (stream u2)) sq v)) =
      sm_sent (committed v) @ map (\<lambda>s. smtp_mail mlr (release_mail r s)) (confirmed_of (committed u) i)"
proof -
  let ?data = "event_for i name r"
  let ?ev = "\<lparr>rf_RepoID = i, rf_RepoName = name, rf_ReleaseTag = gr_Tag r, rf_ReleaseName = gr_Name r,
    rf_ReleaseURL = gr_URL r\<rparr>"
  have found: "calm w1" "cursor_of (committed w1) i = gr_Tag r" "pending (monitoring_outbox (committed w1)) =
      [\<lparr>ob_ID = ob_seq (monitoring_outbox (committed w)), ob_Subject = SubjectReleaseFound, ob_Payload = ?data,
        ob_PublishedAt = None\<rparr>]"
    using calm_scan_found [OF w(1), of gh name r i, OF rel(1-3), unfolded wp_run] pending_insert [OF w(2)] w(3) by (simp_all add: w1)
  have data: "msg_data (last (stream (run_world mon_publishPending w1))) = ?data"
    using calm_mon_relay_single [OF found(1,3), unfolded wp_run] by (simp add: msg_of_def OutboxRow.defs)
  have fanned: "txn u1 = None" "outbox_wf (outbox (committed u1))"
    "map (\<lambda>r. (ob_Subject r, ob_Payload r)) (pending (outbox (committed u1))) =
       map (Pair SubjectRelease) (map (release_payload ?ev) (confirmed_of (committed u) i))"
    using fanned_out_pending [OF u event_for_decoded [OF rel(4,5), of name r], unfolded wp_run] rel(6)
    by (simp_all add: u1 data)
  obtain ms where ms: "stream u2 = stream u1 @ ms"
    "map (\<lambda>m. (msg_subject m, msg_data m)) ms = map (Pair SubjectRelease) (map (release_payload ?ev) (confirmed_of (committed u) i))"
    using relayed_events [OF fanned(1,2) evs(1) fanned(3)] evs(2) unfolding u2 by auto
  have "list_all2 (\<lambda>m y. mail_of (msg_subject m) (msg_data m) = Some y) ms (map (release_mail r) (confirmed_of (committed u) i))"
    by (rule relayed_mails [OF ms(2)]) (simp add: release_payload_mail)
  from calm_deliveries [OF v this] show ?thesis
    using found(2) by (simp add: ms(1) comp_def)
qed

definition tagged_mon_db :: mon_db where
  "tagged_mon_db = empty_mon_db\<lparr>scan_cursors :=
     [\<lparr>cu_RepoID = 1, cu_FullName = ''o/r'', cu_LastSeenTag = ''v1'', cu_UpdatedAt = 0\<rparr>]\<rparr>"

definition confirmed_db :: sub_db where
  "confirmed_db = db_repo\<lparr>subscriptions := [sub_a\<lparr>sb_ID := 1, sb_Confirmed := True\<rparr>], subscriptions_seq := 2\<rparr>"

definition release_two :: Release where
  "release_two = \<lparr>gr_Tag = ''v2'', gr_Name = ''Two'', gr_URL = ''u'', gr_PublishedAt = ''''\<rparr>"

theorem release_journey_witness:
  "let w1 = run_world (scan_one (\<lambda>_. Inr release_two) 1 ''o/r'') (calm_world tagged_mon_db 0 []);
       u1 = run_world (fanout_Consume recipient_lister (msg_data (last (stream (run_world mon_publishPending w1)))))
         (calm_world confirmed_db 0 []);
       u2 = relay_run sub_publishPending (\<lambda>subject payload. outbox_update (insert_row subject payload))
         [Tick \<lparr>env_faults = [], env_pub_faults = [], env_locked = [], env_now = 1\<rparr>] u1 in
   sm_sent (committed (deliver_messages (\<lambda>_. '''') demo_mailer (drop (length (stream u1)) (stream u2)) 7
     (calm_world (smtp_up []) 0 []))) =
     [smtp_mail demo_mailer (ReleaseMail ''a@x.y'' ''ua'' ''v2'' ''Two'' ''u'')]"
proof -
  have m: "outbox_wf (monitoring_outbox tagged_mon_db)" "pending (monitoring_outbox tagged_mon_db) = []"
    "cursor_of tagged_mon_db 1 = ''v1''"
    by (simp_all add: tagged_mon_db_def empty_mon_db_def outbox_wf_def pending_def cursor_of_def)
  have d: "sub_wf confirmed_db" "pending (outbox confirmed_db) = []"
    "confirmed_of confirmed_db 1 = [sub_a\<lparr>sb_ID := 1, sb_Confirmed := True\<rparr>]"
    by (simp_all add: confirmed_db_def db_repo_def empty_sub_db_def sub_wf_def outbox_wf_def pending_def confirmed_of_def sub_a_def)
  show ?thesis
    using release_journey [of "calm_world tagged_mon_db 0 []" "\<lambda>_. Inr release_two" "''o/r''" release_two 1
        "calm_world confirmed_db 0 []" "[Tick \<lparr>env_faults = [], env_pub_faults = [], env_locked = [], env_now = 1\<rparr>]"
        "calm_world (smtp_up []) 0 []", OF _ _ _ _ _ _ _ _ _ _ _ _ _ _ _ _ refl refl refl, of "\<lambda>_. ''''" demo_mailer 7]
    by (simp add: m d release_two_def varchar255_short calm_tick_def batchSize_def smtp_up_def release_mail_def sub_a_def Let_def)
qed

end
