(* ===== verification/Startup.thy ===== *)
theory Startup
  imports Notification
begin

text \<open>
  How the four services start and stop: \<^verbatim>\<open>Build\<close> and \<^verbatim>\<open>Serve\<close> of the subscription and
  auth services (\<^verbatim>\<open>internal/app/app.go\<close>), \<^verbatim>\<open>run\<close> of all four (\<^verbatim>\<open>cmd\<close>), the opening of
  a pool (\<^verbatim>\<open>db/pool.go\<close>) and the migrations (\<^verbatim>\<open>db/migrator.go\<close>). The state is what the
  process holds open, which of its goroutines run, and the streams and consumers at the JetStream
  server, which outlive it. A library call works, fails, or takes effect at the server while its
  answer is lost. Constructors that cannot fail are left out. Streams last as long as the server.
\<close>

section \<open>State\<close>

datatype resource = MigrateConn | DBPool | NatsConn | AuthConn | CatalogConn | GrpcListener

datatype worker = HttpServer | GrpcServer | KeyRefresh | PoolStats | OutboxRelay | FanoutWorker | SagaConsumer
  | SagaReaper | HealthServer | ScanWorker | NotificationConsumer | DLQInspector

datatype retention = LimitsPolicy | WorkQueuePolicy

text \<open>Durations in seconds; 0 stands for a field that is not set.\<close>

record stream_config =
  sc_Name :: string
  sc_Subjects :: "string list"
  sc_Retention :: retention
  sc_Duplicates :: nat
  sc_MaxAge :: nat
  sc_MaxBytes :: nat
  sc_MaxMsgs :: nat

record consumer_config =
  cc_Stream :: string
  cc_Durable :: string
  cc_FilterSubject :: string
  cc_MaxDeliver :: nat

record boot =
  bt_open :: "resource list"
  bt_workers :: "worker list"
  bt_streams :: "string \<Rightarrow> stream_config option"
  bt_consumers :: "string \<Rightarrow> consumer_config option"

type_synonym 'a boot_io = "(boot, unit, 'a) io"

text \<open>A step that cannot fail; a library call that may fail without effect; one that takes effect at the
  server even when its answer is lost.\<close>

definition update :: "(boot \<Rightarrow> boot) \<Rightarrow> (boot, unit) run" where
  "update eff = State (\<lambda>w. ((), w\<lparr>committed := eff (committed w)\<rparr>))"

definition attempt :: "(boot \<Rightarrow> boot) \<Rightarrow> unit boot_io" where
  "attempt eff = State (\<lambda>w.
     let w' = w\<lparr>faults := tl (faults w)\<rparr> in
     case next_fault (faults w) of
       Fine \<Rightarrow> (Inr (), w'\<lparr>committed := eff (committed w)\<rparr>)
     | _ \<Rightarrow> (Inl (Opaque ''failed''), w'))"

definition remote :: "(boot \<Rightarrow> boot) \<Rightarrow> unit boot_io" where
  "remote eff = call Pool (\<lambda>now b. Inr ((), eff b))"

definition open_res :: "resource \<Rightarrow> boot \<Rightarrow> boot" where
  "open_res r b = b\<lparr>bt_open := r # bt_open b\<rparr>"

definition close_res :: "resource \<Rightarrow> boot \<Rightarrow> boot" where
  "close_res r b = b\<lparr>bt_open := remove1 r (bt_open b)\<rparr>"

definition run_worker :: "worker \<Rightarrow> boot \<Rightarrow> boot" where
  "run_worker k b = b\<lparr>bt_workers := k # bt_workers b\<rparr>"

definition put_stream :: "stream_config \<Rightarrow> boot \<Rightarrow> boot" where
  "put_stream cfg b = b\<lparr>bt_streams := (bt_streams b)(sc_Name cfg \<mapsto> cfg)\<rparr>"

definition put_consumer :: "consumer_config \<Rightarrow> boot \<Rightarrow> boot" where
  "put_consumer cfg b = b\<lparr>bt_consumers := (bt_consumers b)(cc_Durable cfg \<mapsto> cfg)\<rparr>"

text \<open>\<^verbatim>\<open>defer r.Close()\<close>\<close>

definition closing :: "resource \<Rightarrow> 'a boot_io \<Rightarrow> 'a boot_io" where
  "closing r m = do { x \<leftarrow> m; update (close_res r); ret x }"

text \<open>On an error: close these, return it with the text.\<close>

definition bail :: "unit error + 'a \<Rightarrow> resource list \<Rightarrow> (unit error \<Rightarrow> unit error) \<Rightarrow> ('a \<Rightarrow> 'b boot_io) \<Rightarrow> 'b boot_io" where
  "bail r rs wrap k =
     (case r of
        Inl e \<Rightarrow> do { update (fold close_res rs); err (wrap e) }
      | Inr x \<Rightarrow> k x)"

section \<open>Database\<close>

definition NewPool :: "unit boot_io" where
  "NewPool =
     do { r \<leftarrow> attempt (open_res DBPool);
          check r (Wrap ''create pgx pool'') (\<lambda>_. do {
            r \<leftarrow> attempt id;
            bail r [DBPool] (Wrap ''ping database'') ok }) }"

text \<open>\<^verbatim>\<open>migrate.ErrNoChange\<close> counts as success.\<close>

definition RunMigrationsFrom :: "unit boot_io" where
  "RunMigrationsFrom =
     do { r \<leftarrow> attempt (open_res MigrateConn);
          check r (Wrap ''failed to create migrate instance'') (\<lambda>_. closing MigrateConn (do {
            r \<leftarrow> attempt id;
            check r (Wrap ''failed to run migrations'') ok })) }"

text \<open>The auth and monitoring services hold copies of both functions.\<close>

definition auth_NewPool :: "unit boot_io" where
  "auth_NewPool =
     do { r \<leftarrow> attempt (open_res DBPool);
          check r (Wrap ''create pgx pool'') (\<lambda>_. do {
            r \<leftarrow> attempt id;
            bail r [DBPool] (Wrap ''ping database'') ok }) }"

definition auth_RunMigrationsFrom :: "unit boot_io" where
  "auth_RunMigrationsFrom =
     do { r \<leftarrow> attempt (open_res MigrateConn);
          check r (Wrap ''failed to create migrate instance'') (\<lambda>_. closing MigrateConn (do {
            r \<leftarrow> attempt id;
            check r (Wrap ''failed to run migrations'') ok })) }"

definition mon_NewPool :: "unit boot_io" where
  "mon_NewPool =
     do { r \<leftarrow> attempt (open_res DBPool);
          check r (Wrap ''create pgx pool'') (\<lambda>_. do {
            r \<leftarrow> attempt id;
            bail r [DBPool] (Wrap ''ping database'') ok }) }"

definition mon_RunMigrationsFrom :: "unit boot_io" where
  "mon_RunMigrationsFrom =
     do { r \<leftarrow> attempt (open_res MigrateConn);
          check r (Wrap ''failed to create migrate instance'') (\<lambda>_. closing MigrateConn (do {
            r \<leftarrow> attempt id;
            check r (Wrap ''failed to run migrations'') ok })) }"

lemma db_copies_agree:
  "auth_NewPool = NewPool" "mon_NewPool = NewPool"
  "auth_RunMigrationsFrom = RunMigrationsFrom" "mon_RunMigrationsFrom = RunMigrationsFrom"
  by (simp_all only: auth_NewPool_def mon_NewPool_def NewPool_def auth_RunMigrationsFrom_def mon_RunMigrationsFrom_def
      RunMigrationsFrom_def)

section \<open>Streams and consumers\<close>

definition hour :: nat where "hour = 60 * 60"

definition notifications_stream :: stream_config where
  "notifications_stream = \<lparr>sc_Name = StreamName, sc_Subjects = [SubjectAll], sc_Retention = WorkQueuePolicy,
     sc_Duplicates = 2 * 60, sc_MaxAge = 24 * hour, sc_MaxBytes = 512 * 1024 * 1024, sc_MaxMsgs = 0\<rparr>"

definition saga_stream :: stream_config where
  "saga_stream = \<lparr>sc_Name = StreamSaga, sc_Subjects = [SubjectSagaAll], sc_Retention = LimitsPolicy,
     sc_Duplicates = 2 * 60, sc_MaxAge = 7 * 24 * hour, sc_MaxBytes = 0, sc_MaxMsgs = 0\<rparr>"

definition releases_stream :: stream_config where
  "releases_stream = \<lparr>sc_Name = StreamReleases, sc_Subjects = [SubjectReleasesAll], sc_Retention = WorkQueuePolicy,
     sc_Duplicates = 2 * 60, sc_MaxAge = 24 * hour, sc_MaxBytes = 512 * 1024 * 1024, sc_MaxMsgs = 0\<rparr>"

definition auth_notifications_stream :: stream_config where
  "auth_notifications_stream = \<lparr>sc_Name = StreamName, sc_Subjects = [SubjectAll], sc_Retention = WorkQueuePolicy,
     sc_Duplicates = 2 * 60, sc_MaxAge = 24 * hour, sc_MaxBytes = 512 * 1024 * 1024, sc_MaxMsgs = 0\<rparr>"

definition ntf_notifications_stream :: stream_config where
  "ntf_notifications_stream = \<lparr>sc_Name = StreamName, sc_Subjects = [SubjectAll], sc_Retention = WorkQueuePolicy,
     sc_Duplicates = 2 * 60, sc_MaxAge = 24 * hour, sc_MaxBytes = 512 * 1024 * 1024, sc_MaxMsgs = 0\<rparr>"

definition dlq_stream :: stream_config where
  "dlq_stream = \<lparr>sc_Name = StreamDLQ, sc_Subjects = [SubjectDead], sc_Retention = LimitsPolicy,
     sc_Duplicates = 2 * 60, sc_MaxAge = 7 * 24 * hour, sc_MaxBytes = 0, sc_MaxMsgs = 10000\<rparr>"

definition fanout_consumer :: consumer_config where
  "fanout_consumer = \<lparr>cc_Stream = StreamReleases, cc_Durable = ''fanout-consumer'',
     cc_FilterSubject = SubjectReleaseFound, cc_MaxDeliver = 5\<rparr>"

definition saga_reply_consumer :: consumer_config where
  "saga_reply_consumer = \<lparr>cc_Stream = StreamSaga, cc_Durable = ''saga-reply-consumer'',
     cc_FilterSubject = SubjectSagaAll, cc_MaxDeliver = 5\<rparr>"

definition notification_consumer :: consumer_config where
  "notification_consumer = \<lparr>cc_Stream = StreamName, cc_Durable = ''notification-consumer'',
     cc_FilterSubject = SubjectAll, cc_MaxDeliver = maxDeliver\<rparr>"

definition dlq_consumer :: consumer_config where
  "dlq_consumer = \<lparr>cc_Stream = StreamDLQ, cc_Durable = ''notification-dlq-consumer'',
     cc_FilterSubject = SubjectDead, cc_MaxDeliver = 0\<rparr>"

text \<open>\<^verbatim>\<open>Start\<close> of a consumer, up to waiting for the context: the error ends it before it consumes.\<close>

definition consumer_Start :: "worker \<Rightarrow> consumer_config \<Rightarrow> unit boot_io" where
  "consumer_Start k cfg =
     do { r \<leftarrow> remote (put_consumer cfg);
          check r id (\<lambda>_. do {
            r \<leftarrow> attempt (run_worker k);
            check r id ok }) }"

definition fanout_Run :: "unit boot_io" where
  "fanout_Run = consumer_Start FanoutWorker fanout_consumer"

definition saga_Start :: "unit boot_io" where
  "saga_Start = consumer_Start SagaConsumer saga_reply_consumer"

definition notification_Start :: "unit boot_io" where
  "notification_Start = consumer_Start NotificationConsumer notification_consumer"

definition StartDLQInspector :: "unit boot_io" where
  "StartDLQInspector = consumer_Start DLQInspector dlq_consumer"

lemmas Start_defs = fanout_Run_def saga_Start_def notification_Start_def StartDLQInspector_def

text \<open>In a goroutine its error is only logged.\<close>

definition go_consumer :: "unit boot_io \<Rightarrow> (boot, unit) run" where
  "go_consumer start = do { r \<leftarrow> start; ret () }"


section \<open>Subscription service\<close>

text \<open>The three streams in turn; on an error the connections that are open so far are closed.\<close>

definition ensure_stream :: "stream_config \<Rightarrow> string \<Rightarrow> unit boot_io \<Rightarrow> unit boot_io" where
  "ensure_stream cfg text k =
     do { r \<leftarrow> remote (put_stream cfg);
          bail r [NatsConn, DBPool] (Wrap text) (\<lambda>_. k) }"

definition sub_Build :: "unit boot_io" where
  "sub_Build =
     do { r \<leftarrow> attempt id;
          check r (Wrap ''grpc tls config'') (\<lambda>_. do {
          r \<leftarrow> attempt id;
          check r (Wrap ''grpc client tls config'') (\<lambda>_. do {
          r \<leftarrow> attempt (open_res AuthConn);
          check r (Wrap ''connect to auth grpc'') (\<lambda>_. do {
          r \<leftarrow> RunMigrationsFrom;
          check r id (\<lambda>_. do {
          r \<leftarrow> NewPool;
          check r id (\<lambda>_. do {
          r \<leftarrow> attempt (open_res NatsConn);
          bail r [DBPool] (Wrap ''connect nats'') (\<lambda>_. do {
          r \<leftarrow> attempt id;
          bail r [NatsConn, DBPool] (Wrap ''init jetstream'') (\<lambda>_.
            ensure_stream notifications_stream ''ensure notification stream''
              (ensure_stream saga_stream ''ensure saga stream''
                (ensure_stream releases_stream ''ensure releases stream'' (ok ())))) }) }) }) }) }) }) }"

text \<open>Serving ends with a signal (\<open>None\<close>) or the error of a server. \<^verbatim>\<open>GracefulStop\<close> closes the
  listener.\<close>

definition await_stop :: "string option \<Rightarrow> unit boot_io" where
  "await_stop stop =
     (case stop of
        Some e \<Rightarrow> err (Wrap ''server error'' (Opaque e))
      | None \<Rightarrow> do {
          update (close_res GrpcListener);
          r \<leftarrow> attempt id;
          check r id ok })"

definition sub_Serve :: "string option \<Rightarrow> unit boot_io" where
  "sub_Serve stop =
     closing DBPool (closing NatsConn (closing AuthConn (do {
       r \<leftarrow> attempt id;
       check r (Wrap ''load auth signing key'') (\<lambda>_. do {
         r \<leftarrow> attempt (open_res GrpcListener);
         check r (Wrap ''grpc listen'') (\<lambda>_. do {
           update (fold run_worker [HttpServer, GrpcServer, KeyRefresh, PoolStats, OutboxRelay]);
           go_consumer fanout_Run;
           go_consumer saga_Start;
           update (run_worker SagaReaper);
           await_stop stop }) }) })))"

definition sub_run :: "string option \<Rightarrow> unit boot_io" where
  "sub_run stop =
     do { r \<leftarrow> attempt id;
          check r id (\<lambda>_. do {
            r \<leftarrow> sub_Build;
            check r id (\<lambda>_. sub_Serve stop) }) }"

section \<open>Auth service\<close>

definition auth_Build :: "unit boot_io" where
  "auth_Build =
     do { r \<leftarrow> attempt id;
          check r (Wrap ''grpc tls config'') (\<lambda>_. do {
          r \<leftarrow> attempt id;
          check r id (\<lambda>_. do {
          r \<leftarrow> auth_RunMigrationsFrom;
          check r id (\<lambda>_. do {
          r \<leftarrow> auth_NewPool;
          check r id (\<lambda>_. do {
          r \<leftarrow> attempt (open_res NatsConn);
          bail r [DBPool] (Wrap ''connect nats'') (\<lambda>_. do {
          r \<leftarrow> attempt id;
          bail r [NatsConn, DBPool] (Wrap ''init jetstream'') (\<lambda>_.
            ensure_stream auth_notifications_stream ''ensure notification stream'' (ok ())) }) }) }) }) }) }"

definition auth_Serve :: "string option \<Rightarrow> unit boot_io" where
  "auth_Serve stop =
     closing DBPool (closing NatsConn (do {
       r \<leftarrow> attempt (open_res GrpcListener);
       check r (Wrap ''grpc listen'') (\<lambda>_. do {
         update (fold run_worker [HttpServer, GrpcServer, OutboxRelay]);
         await_stop stop }) }))"

definition auth_run :: "string option \<Rightarrow> unit boot_io" where
  "auth_run stop =
     do { r \<leftarrow> attempt id;
          check r id (\<lambda>_. do {
            r \<leftarrow> auth_Build;
            check r id (\<lambda>_. auth_Serve stop) }) }"

section \<open>Monitoring and notification services\<close>

text \<open>An error of the shutdown of the health server is only logged; \<open>result\<close> is what the worker
  returned.\<close>

definition finish_service :: "string option \<Rightarrow> unit boot_io" where
  "finish_service result =
     do { r \<leftarrow> attempt id;
          (case result of
             Some e \<Rightarrow> err (Opaque e)
           | None \<Rightarrow> do { update (close_res NatsConn); ok () }) }"

definition mon_run :: "string option \<Rightarrow> unit boot_io" where
  "mon_run workerErr =
     do { r \<leftarrow> attempt id;
          check r id (\<lambda>_. do {
          r \<leftarrow> attempt id;
          check r (Wrap ''grpc tls config'') (\<lambda>_. do {
          r \<leftarrow> mon_RunMigrationsFrom;
          check r (Wrap ''run migrations'') (\<lambda>_. do {
          r \<leftarrow> mon_NewPool;
          check r id (\<lambda>_. closing DBPool (do {
            r \<leftarrow> attempt (open_res NatsConn);
            check r (Wrap ''connect to NATS'') (\<lambda>_. do {
            r \<leftarrow> attempt id;
            check r (Wrap ''create jetstream'') (\<lambda>_. do {
            r \<leftarrow> attempt (open_res CatalogConn);
            check r (Wrap ''connect to subscription grpc'') (\<lambda>_. closing CatalogConn (do {
              update (fold run_worker [HealthServer, OutboxRelay, ScanWorker]);
              finish_service workerErr })) }) }) })) }) }) }) }"

text \<open>The consumer of notifications returns its error, or nothing when the context ends.\<close>

definition ntf_run :: "unit boot_io" where
  "ntf_run =
     do { r \<leftarrow> attempt id;
          check r id (\<lambda>_. do {
          r \<leftarrow> attempt (open_res NatsConn);
          check r id (\<lambda>_. do {
          r \<leftarrow> attempt id;
          check r id (\<lambda>_. do {
          r \<leftarrow> remote (put_stream ntf_notifications_stream);
          check r id (\<lambda>_. do {
          r \<leftarrow> remote (put_stream dlq_stream);
          check r id (\<lambda>_. do {
            update (run_worker HealthServer);
            go_consumer StartDLQInspector;
            r \<leftarrow> notification_Start;
            finish_service (case r of Inl e \<Rightarrow> Some ''consumer'' | Inr _ \<Rightarrow> None) }) }) }) }) }) }"


section \<open>What is left open\<close>

lemma wp_update [wp_simps]: "wp (update eff) Q w = Q () (w\<lparr>committed := eff (committed w)\<rparr>)"
  by (simp add: wp_def update_def)

lemma wp_attempt [wp_simps]:
  "wp (attempt eff) Q w =
     (let w' = w\<lparr>faults := tl (faults w)\<rparr> in
      if next_fault (faults w) = Fine then Q (Inr ()) (w'\<lparr>committed := eff (committed w)\<rparr>)
      else Q (Inl (Opaque ''failed'')) w')"
  by (simp add: wp_def attempt_def Let_def split: fault.splits)

text \<open>What holds of the boot state after every pattern of failures.\<close>

definition always_ends :: "(boot, 'a) run \<Rightarrow> ('a \<Rightarrow> boot \<Rightarrow> bool) \<Rightarrow> boot \<Rightarrow> bool" where
  "always_ends m P b \<longleftrightarrow> (\<forall>w. committed w = b \<longrightarrow> wp m (\<lambda>x w'. P x (committed w')) w)"

lemma outcome_mono: "always_ends m P b \<Longrightarrow> (\<And>x b'. P x b' \<Longrightarrow> Q x b') \<Longrightarrow> always_ends m Q b"
  by (auto simp: always_ends_def intro: wp_mono)

lemma outcome_ret [simp]: "always_ends (ret x) P b \<longleftrightarrow> P x b"
  unfolding always_ends_def wp_return by (metis calm_world_simps(1))

lemma outcome_update [simp]: "always_ends (update eff) P b \<longleftrightarrow> P () (eff b)"
  unfolding always_ends_def wp_update by (auto dest!: spec [where x = "calm_world b 0 []"])

lemma outcome_attempt [simp]:
  "always_ends (attempt eff) P b \<longleftrightarrow> P (Inr ()) (eff b) \<and> P (Inl (Opaque ''failed'')) b"
proof
  assume "always_ends (attempt eff) P b"
  then have "wp (attempt eff) (\<lambda>x w'. P x (committed w')) ((calm_world b 0 [])\<lparr>faults := fs\<rparr>)" for fs
    by (simp add: always_ends_def)
  from this [of "[]"] this [of "[Fail]"] show "P (Inr ()) (eff b) \<and> P (Inl (Opaque ''failed'')) b"
    by (simp add: wp_attempt)
qed (auto simp: always_ends_def wp_attempt Let_def)

lemma outcome_remote [simp]:
  "always_ends (remote eff) P b \<longleftrightarrow> P (Inr ()) (eff b) \<and> P (Inl (Opaque ''connection failure'')) b \<and>
     P (Inl (Opaque ''connection failure'')) (eff b)"
proof
  assume "always_ends (remote eff) P b"
  then have "wp (remote eff) (\<lambda>x w'. P x (committed w')) ((calm_world b 0 [])\<lparr>faults := fs\<rparr>)" for fs
    by (simp add: always_ends_def)
  from this [of "[]"] this [of "[Fail]"] this [of "[AckLost]"]
  show "P (Inr ()) (eff b) \<and> P (Inl (Opaque ''connection failure'')) b \<and>
      P (Inl (Opaque ''connection failure'')) (eff b)"
    by (simp add: remote_def wp_call_Pool)
next
  assume "P (Inr ()) (eff b) \<and> P (Inl (Opaque ''connection failure'')) b \<and>
      P (Inl (Opaque ''connection failure'')) (eff b)"
  then show "always_ends (remote eff) P b"
    by (auto simp: always_ends_def remote_def wp_call_Pool Let_def split: fault.splits)
qed

lemma outcome_bind: "always_ends m (\<lambda>x. always_ends (f x) P) b \<Longrightarrow> always_ends (m \<bind> f) P b"
  by (auto simp: always_ends_def wp_bind intro: wp_mono)

lemma outcome_check [simp]: "always_ends (check r h k) P b \<longleftrightarrow> (case r of Inl e \<Rightarrow> P (Inl (h e)) b | Inr x \<Rightarrow> always_ends (k x) P b)"
  by (simp add: check_def split: sum.splits)

lemma outcome_bail [simp]:
  "(case r of Inl e \<Rightarrow> P (Inl (h e)) (fold close_res rs b) | Inr x \<Rightarrow> always_ends (k x) P b) \<Longrightarrow>
   always_ends (bail r rs h k) P b"
  by (auto simp: bail_def split: sum.splits intro!: outcome_bind)

lemma outcome_closing:
  "always_ends m (\<lambda>x b'. P x (close_res r b')) b \<Longrightarrow> always_ends (closing r m) P b"
  unfolding closing_def by (intro outcome_bind) (auto elim!: outcome_mono intro!: outcome_bind)

lemmas outcome_intros = outcome_bind outcome_closing outcome_bail conjI

lemma NewPool_outcome:
  "P (Inr ()) (open_res DBPool b) \<Longrightarrow> (\<And>e. P (Inl e) b) \<Longrightarrow> always_ends NewPool P b"
  unfolding NewPool_def by (auto intro!: outcome_intros simp: close_res_def open_res_def)

lemma RunMigrations_outcome:
  "P (Inr ()) b \<Longrightarrow> (\<And>e. P (Inl e) b) \<Longrightarrow> always_ends RunMigrationsFrom P b"
  unfolding RunMigrationsFrom_def by (auto intro!: outcome_intros simp: close_res_def open_res_def)


lemma boot_simps [simp]:
  "bt_open (open_res r b) = r # bt_open b" "bt_open (close_res r b) = remove1 r (bt_open b)"
  "bt_open (run_worker k b) = bt_open b" "bt_open (put_stream cfg b) = bt_open b" "bt_open (put_consumer cc b) = bt_open b"
  "bt_streams (open_res r b) = bt_streams b" "bt_streams (close_res r b) = bt_streams b"
  "bt_streams (run_worker k b) = bt_streams b" "bt_streams (put_stream cfg b) = (bt_streams b)(sc_Name cfg \<mapsto> cfg)"
  "bt_streams (put_consumer cc b) = bt_streams b"
  "bt_workers (open_res r b) = bt_workers b" "bt_workers (close_res r b) = bt_workers b"
  "bt_workers (run_worker k b) = k # bt_workers b" "bt_workers (put_stream cfg b) = bt_workers b"
  "bt_workers (put_consumer cc b) = bt_workers b"
  by (simp_all add: open_res_def close_res_def run_worker_def put_stream_def put_consumer_def)

text \<open>The goroutine of a consumer leaves everything but its own registration alone.\<close>

lemma go_consumer_outcome:
  assumes "\<And>b'. bt_open b' = bt_open b \<Longrightarrow> bt_streams b' = bt_streams b \<Longrightarrow>
    set (bt_workers b) \<subseteq> set (bt_workers b') \<Longrightarrow> P () b'"
  shows "always_ends (go_consumer (consumer_Start k cfg)) P b"
  unfolding go_consumer_def consumer_Start_def
  by (auto intro!: outcome_intros assms)

lemma consumer_Start_outcome:
  assumes "\<And>b' r. bt_open b' = bt_open b \<Longrightarrow> bt_streams b' = bt_streams b \<Longrightarrow> P r b'"
  shows "always_ends (consumer_Start k cfg) P b"
  unfolding consumer_Start_def by (auto intro!: outcome_intros assms)

lemma ensure_stream_outcome:
  assumes "always_ends k P (put_stream cfg b)" "\<And>e b'. bt_open b' = remove1 DBPool (remove1 NatsConn (bt_open b)) \<Longrightarrow>
    bt_streams b' \<in> {bt_streams b, (bt_streams b)(sc_Name cfg \<mapsto> cfg)} \<Longrightarrow> P (Inl e) b'"
  shows "always_ends (ensure_stream cfg text k) P b"
  unfolding ensure_stream_def using assms by (auto intro!: outcome_intros)

lemma sub_Build_open:
  "bt_open b = [] \<Longrightarrow> always_ends sub_Build (\<lambda>r b'. case r of Inl e \<Rightarrow> set (bt_open b') \<subseteq> {AuthConn}
     | Inr _ \<Rightarrow> bt_open b' = [NatsConn, DBPool, AuthConn]) b"
  unfolding sub_Build_def
  by (auto intro!: outcome_intros ensure_stream_outcome RunMigrations_outcome NewPool_outcome)


lemma sub_Serve_open:
  "bt_open b = [NatsConn, DBPool, AuthConn] \<Longrightarrow> always_ends (sub_Serve stop) (\<lambda>r b'.
     set (bt_open b') \<subseteq> {GrpcListener} \<and> (r = Inr () \<longrightarrow> bt_open b' = [])) b"
  unfolding sub_Serve_def await_stop_def Start_defs
  by (auto intro!: outcome_intros go_consumer_outcome split: option.splits)

lemma sub_run_open:
  assumes "bt_open b = []"
  shows "always_ends (sub_run stop) (\<lambda>r b'. set (bt_open b') \<subseteq> {AuthConn, GrpcListener} \<and>
     (r = Inr () \<longrightarrow> bt_open b' = [])) b"
  unfolding sub_run_def
  by (auto intro!: outcome_intros outcome_mono [OF sub_Build_open] outcome_mono [OF sub_Serve_open]
      split: sum.splits simp: assms) blast+

text \<open>Every service runs from a process that holds nothing.\<close>

datatype service = Subscription | Auth | MonitoringService | NotificationService

definition service_run :: "service \<Rightarrow> string option \<Rightarrow> unit boot_io" where
  "service_run s end_of_run =
     (case s of Subscription \<Rightarrow> sub_run end_of_run | Auth \<Rightarrow> auth_run end_of_run
      | MonitoringService \<Rightarrow> mon_run end_of_run | NotificationService \<Rightarrow> ntf_run)"

definition may_keep :: "service \<Rightarrow> resource set" where
  "may_keep s = (case s of Subscription \<Rightarrow> {AuthConn, GrpcListener} | Auth \<Rightarrow> {GrpcListener}
     | MonitoringService \<Rightarrow> {NatsConn} | NotificationService \<Rightarrow> {NatsConn})"

lemma auth_run_open:
  "bt_open b = [] \<Longrightarrow> always_ends (auth_run stop) (\<lambda>r b'. set (bt_open b') \<subseteq> {GrpcListener} \<and>
     (r = Inr () \<longrightarrow> bt_open b' = [])) b"
  unfolding auth_run_def auth_Build_def auth_Serve_def await_stop_def db_copies_agree
  by (auto intro!: outcome_intros ensure_stream_outcome RunMigrations_outcome NewPool_outcome split: option.splits)

lemma mon_run_open:
  "bt_open b = [] \<Longrightarrow> always_ends (mon_run e) (\<lambda>r b'. set (bt_open b') \<subseteq> {NatsConn} \<and>
     (r = Inr () \<longrightarrow> bt_open b' = [])) b"
  unfolding mon_run_def finish_service_def db_copies_agree
  by (auto intro!: outcome_intros RunMigrations_outcome NewPool_outcome split: option.splits)

lemma ntf_run_open:
  "bt_open b = [] \<Longrightarrow> always_ends ntf_run (\<lambda>r b'. set (bt_open b') \<subseteq> {NatsConn} \<and>
     (r = Inr () \<longrightarrow> bt_open b' = [])) b"
  unfolding ntf_run_def finish_service_def Start_defs
  by (auto intro!: outcome_intros go_consumer_outcome consumer_Start_outcome split: option.splits)


section \<open>Streams\<close>

text \<open>The configuration the services agree on, by stream name.\<close>

definition agreed :: "string \<Rightarrow> stream_config option" where
  "agreed = map_of (map (\<lambda>cfg. (sc_Name cfg, cfg)) [notifications_stream, saga_stream, releases_stream, dlq_stream])"

definition own_streams :: "service \<Rightarrow> string set" where
  "own_streams s = (case s of Subscription \<Rightarrow> {StreamName, StreamSaga, StreamReleases} | Auth \<Rightarrow> {StreamName}
     | MonitoringService \<Rightarrow> {} | NotificationService \<Rightarrow> {StreamName, StreamDLQ})"

lemma stream_names: "sc_Name notifications_stream = StreamName" "sc_Name saga_stream = StreamSaga"
  "sc_Name releases_stream = StreamReleases" "sc_Name dlq_stream = StreamDLQ"
  by (simp_all add: notifications_stream_def saga_stream_def releases_stream_def dlq_stream_def)

lemma same_notifications: "auth_notifications_stream = notifications_stream" "ntf_notifications_stream = notifications_stream"
  by (simp_all add: notifications_stream_def auth_notifications_stream_def ntf_notifications_stream_def)

lemma agreed_simps [simp]: "agreed StreamName = Some notifications_stream" "agreed StreamSaga = Some saga_stream"
  "agreed StreamReleases = Some releases_stream" "agreed StreamDLQ = Some dlq_stream"
  by (simp_all add: agreed_def stream_names StreamName_def StreamSaga_def StreamReleases_def StreamDLQ_def)

lemma dom_agreed: "dom agreed = {StreamName, StreamSaga, StreamReleases, StreamDLQ}"
  by (auto simp: agreed_def stream_names split: if_splits)

text \<open>The streams have grown from \<open>S\<close> and every one is as agreed.\<close>

definition streams_from :: "(string \<Rightarrow> stream_config option) \<Rightarrow> boot \<Rightarrow> bool" where
  "streams_from S b \<longleftrightarrow> S \<subseteq>\<^sub>m bt_streams b \<and> bt_streams b \<subseteq>\<^sub>m agreed"

lemma streams_from_simps [simp]:
  "streams_from S (open_res r b) = streams_from S b" "streams_from S (close_res r b) = streams_from S b"
  "streams_from S (run_worker k b) = streams_from S b" "streams_from S (put_consumer cc b) = streams_from S b"
  by (simp_all add: streams_from_def)

lemma put_stream_from:
  "streams_from S b \<Longrightarrow> agreed (sc_Name cfg) = Some cfg \<Longrightarrow> streams_from S (put_stream cfg b)"
  by (auto simp: streams_from_def map_le_def dom_def split: if_splits)

lemma put_agreed:
  "streams_from S b \<Longrightarrow> streams_from S (put_stream notifications_stream b)"
  "streams_from S b \<Longrightarrow> streams_from S (put_stream saga_stream b)"
  "streams_from S b \<Longrightarrow> streams_from S (put_stream releases_stream b)"
  "streams_from S b \<Longrightarrow> streams_from S (put_stream dlq_stream b)"
  by (simp_all add: put_stream_from stream_names)

definition served :: "service \<Rightarrow> (string \<Rightarrow> stream_config option) \<Rightarrow> boot \<Rightarrow> bool" where
  "served s S b \<longleftrightarrow> streams_from S b \<and> (bt_workers b \<noteq> [] \<longrightarrow> own_streams s \<subseteq> dom (bt_streams b))"

lemma ensure_stream_served:
  assumes "always_ends k P (put_stream cfg b)" "bt_workers b = []"
    "\<And>e b'. bt_workers b' = [] \<Longrightarrow> bt_streams b' \<in> {bt_streams b, bt_streams (put_stream cfg b)} \<Longrightarrow> P (Inl e) b'"
  shows "always_ends (ensure_stream cfg text k) P b"
  unfolding ensure_stream_def using assms by (auto intro!: outcome_intros)


lemma streams_from_eq: "bt_streams b' = bt_streams b \<Longrightarrow> streams_from S b' \<longleftrightarrow> streams_from S b"
  by (simp add: streams_from_def)

lemma served_simps [simp]: "bt_workers b = [] \<Longrightarrow> served s S b \<longleftrightarrow> streams_from S b"
  by (simp add: served_def)

lemma sub_Build_streams:
  assumes "streams_from S b" "bt_workers b = []"
  shows "always_ends sub_Build (\<lambda>r b'. streams_from S b' \<and> bt_workers b' = [] \<and>
    (r = Inr () \<longrightarrow> own_streams Subscription \<subseteq> dom (bt_streams b'))) b"
  unfolding sub_Build_def
  using assms put_agreed(1) [OF assms(1)] put_agreed(2) [OF put_agreed(1) [OF assms(1)]]
    put_agreed(3) [OF put_agreed(2) [OF put_agreed(1) [OF assms(1)]]]
  by (auto intro!: outcome_intros ensure_stream_served RunMigrations_outcome NewPool_outcome
      simp: own_streams_def stream_names streams_from_def)


lemma sub_Serve_streams:
  "always_ends (sub_Serve stop) (\<lambda>r b'. bt_streams b' = bt_streams b) b"
  unfolding sub_Serve_def await_stop_def Start_defs
  by (auto intro!: outcome_intros go_consumer_outcome split: option.splits)

lemma sub_run_streams:
  assumes "streams_from S b" "bt_workers b = []"
  shows "always_ends (sub_run stop) (\<lambda>r b'. served Subscription S b') b"
  unfolding sub_run_def
  by (auto intro!: outcome_intros outcome_mono [OF sub_Build_streams [OF assms]] outcome_mono [OF sub_Serve_streams]
      simp: assms served_def own_streams_def cong: streams_from_eq split: sum.splits)

lemma auth_run_streams:
  assumes "streams_from S b" "bt_workers b = []"
  shows "always_ends (auth_run stop) (\<lambda>r b'. served Auth S b') b"
  unfolding auth_run_def auth_Build_def auth_Serve_def await_stop_def db_copies_agree same_notifications
  using assms put_agreed(1) [OF assms(1)]
  by (auto intro!: outcome_intros ensure_stream_served RunMigrations_outcome NewPool_outcome
      simp: served_def own_streams_def stream_names streams_from_def split: option.splits)

lemma mon_run_streams:
  assumes "streams_from S b" "bt_workers b = []"
  shows "always_ends (mon_run e) (\<lambda>r b'. served MonitoringService S b') b"
  unfolding mon_run_def finish_service_def db_copies_agree using assms
  by (auto intro!: outcome_intros RunMigrations_outcome NewPool_outcome
      simp: served_def own_streams_def split: option.splits)

lemma ntf_run_streams:
  assumes "streams_from S b" "bt_workers b = []"
  shows "always_ends ntf_run (\<lambda>r b'. served NotificationService S b') b"
  unfolding ntf_run_def finish_service_def Start_defs same_notifications
  using assms put_agreed(1) [OF assms(1)] put_agreed(4) [OF put_agreed(1) [OF assms(1)]]
  by (auto intro!: outcome_intros go_consumer_outcome consumer_Start_outcome
      simp: served_def own_streams_def stream_names streams_from_def split: option.splits sum.splits)

lemma service_run_streams:
  assumes "streams_from S b" "bt_workers b = []"
  shows "always_ends (service_run s e) (\<lambda>r b'. served s S b') b"
  using sub_run_streams [OF assms] auth_run_streams [OF assms] mon_run_streams [OF assms] ntf_run_streams [OF assms]
  by (cases s) (simp_all add: service_run_def)


section \<open>Any order, any failures\<close>

text \<open>A service starts in a fresh process, again and again, in any order with the others.\<close>

definition fresh_process :: "boot \<Rightarrow> boot" where
  "fresh_process b = b\<lparr>bt_open := [], bt_workers := []\<rparr>"

inductive restarts :: "boot \<Rightarrow> boot \<Rightarrow> bool" where
  restarts_refl: "restarts b b"
| restarts_run: "restarts b b' \<Longrightarrow> committed w = fresh_process b' \<Longrightarrow>
    restarts b (committed (run_world (service_run s end_of_run) w))"

lemma fresh_simps [simp]: "bt_streams (fresh_process b) = bt_streams b" "bt_open (fresh_process b) = []"
  "bt_workers (fresh_process b) = []"
  by (simp_all add: fresh_process_def)

lemma service_run_after:
  assumes "committed w = fresh_process b" "bt_streams b \<subseteq>\<^sub>m agreed"
  shows "served s (bt_streams b) (committed (run_world (service_run s e) w))"
  using service_run_streams [of "bt_streams b" "fresh_process b" s e] assms
  by (simp add: always_ends_def wp_run streams_from_def)

lemma restarts_streams:
  "restarts b b' \<Longrightarrow> bt_streams b \<subseteq>\<^sub>m agreed \<Longrightarrow> bt_streams b \<subseteq>\<^sub>m bt_streams b' \<and> bt_streams b' \<subseteq>\<^sub>m agreed"
proof (induction rule: restarts.induct)
  case (restarts_run b b' w s e)
  then have "bt_streams b \<subseteq>\<^sub>m bt_streams b'" "bt_streams b' \<subseteq>\<^sub>m agreed" by simp_all
  with service_run_after [OF restarts_run.hyps(2), of s e] show ?case
    by (auto simp: served_def streams_from_def intro: map_le_trans)
qed simp

text \<open>A stream takes a subject it names, or one below a prefix it names.\<close>

definition captures :: "stream_config \<Rightarrow> string \<Rightarrow> bool" where
  "captures cfg subject \<longleftrightarrow> (\<exists>p \<in> set (sc_Subjects cfg).
     p = subject \<or> p \<noteq> [] \<and> last p = CHR ''>'' \<and> HasPrefix subject (butlast p))"

definition all_streams :: "stream_config list" where
  "all_streams = [notifications_stream, saga_stream, releases_stream, dlq_stream]"

lemma captures_simps:
  "captures notifications_stream s \<longleftrightarrow> s = ''notifications.>'' \<or> HasPrefix s ''notifications.''"
  "captures saga_stream s \<longleftrightarrow> s = ''saga.>'' \<or> HasPrefix s ''saga.''"
  "captures releases_stream s \<longleftrightarrow> s = ''releases.>'' \<or> HasPrefix s ''releases.''"
  "captures dlq_stream s \<longleftrightarrow> s = ''dlq.notifications''"
  by (auto simp: captures_def notifications_stream_def saga_stream_def releases_stream_def dlq_stream_def
      SubjectAll_def SubjectSagaAll_def SubjectReleasesAll_def SubjectDead_def)

lemma stream_of_subject:
  "filter (\<lambda>cfg. captures cfg SubjectConfirmation) all_streams = [notifications_stream]"
  "filter (\<lambda>cfg. captures cfg SubjectRelease) all_streams = [notifications_stream]"
  "filter (\<lambda>cfg. captures cfg SubjectVerifyEmail) all_streams = [notifications_stream]"
  "filter (\<lambda>cfg. captures cfg SubjectReleaseFound) all_streams = [releases_stream]"
  "filter (\<lambda>cfg. captures cfg SubjectDead) all_streams = [dlq_stream]"
  "filter (\<lambda>cfg. captures cfg SubjectEmailSent) all_streams = [saga_stream]"
  "filter (\<lambda>cfg. captures cfg SubjectEmailFailed) all_streams = [saga_stream]"
  by (simp_all add: all_streams_def captures_simps subject_defs HasPrefix_def)


definition published_subjects :: "string list" where
  "published_subjects = [SubjectConfirmation, SubjectRelease, SubjectVerifyEmail, SubjectReleaseFound, SubjectDead,
     SubjectEmailSent, SubjectEmailFailed]"

text \<open>C11: the services agree on their streams: in whatever order they start, stop and fail, from a
  server whose streams are as agreed, every stream stays and has the one configuration of the table,
  so that none rewrites what another declared; a service that got as far as starting a goroutine finds its own
  streams; and each of the seven subjects that are published is captured by exactly one stream.\<close>

theorem streams_agree:
  assumes "restarts b b'" "bt_streams b \<subseteq>\<^sub>m agreed"
  shows "bt_streams b \<subseteq>\<^sub>m bt_streams b' \<and> bt_streams b' \<subseteq>\<^sub>m agreed \<and>
    (\<forall>s end_of_run w. committed w = fresh_process b' \<longrightarrow>
       (let b'' = committed (run_world (service_run s end_of_run) w) in
        bt_workers b'' \<noteq> [] \<longrightarrow> own_streams s \<subseteq> dom (bt_streams b''))) \<and>
    (\<forall>subject \<in> set published_subjects. \<exists>cfg. filter (\<lambda>cfg. captures cfg subject) all_streams = [cfg])"
  using restarts_streams [OF assms] service_run_after
  by (auto simp: Let_def served_def published_subjects_def stream_of_subject subset_iff domIff; fastforce)

definition no_streams :: boot where
  "no_streams = \<lparr>bt_open = [], bt_workers = [], bt_streams = Map.empty, bt_consumers = Map.empty\<rparr>"

theorem streams_agree_witness:
  "bt_streams (committed (run_world (service_run Subscription None) (calm_world no_streams 0 []))) \<subseteq>\<^sub>m agreed"
proof -
  have "restarts no_streams (committed (run_world (service_run Subscription None) (calm_world no_streams 0 [])))"
    by (rule restarts_run [OF restarts_refl]) (simp add: fresh_process_def no_streams_def)
  from streams_agree [OF this] show ?thesis by (simp add: no_streams_def)
qed

section \<open>A service without its consumers\<close>


text \<open>What becomes of the calls of one start: \<open>r\<close> of registering the consumer, and when that is answered,
  \<open>c\<close> of consuming.\<close>

definition start_calls :: "fault \<Rightarrow> fault \<Rightarrow> fault list" where
  "start_calls r c = (if r = Fine then [Fine, c] else [r])"

definition after_start :: "fault \<Rightarrow> fault \<Rightarrow> worker \<Rightarrow> consumer_config \<Rightarrow> boot \<Rightarrow> boot" where
  "after_start r c k cfg b =
     (let b' = if r = Fail then b else put_consumer cfg b in if r = Fine \<and> c = Fine then run_worker k b' else b')"

lemma after_start_workers:
  "bt_workers (after_start r c k cfg b) = (if r = Fine \<and> c = Fine then k # bt_workers b else bt_workers b)"
  by (simp add: after_start_def run_worker_def put_consumer_def Let_def)

lemma after_start_consumers:
  "bt_consumers (after_start r c k cfg b) =
     (if r = Fail then bt_consumers b else (bt_consumers b)(cc_Durable cfg \<mapsto> cfg))"
  by (simp add: after_start_def run_worker_def put_consumer_def Let_def)

lemma wp_go_consumer:
  assumes "txn w = None" "faults w = start_calls r c @ fs"
  shows "wp (go_consumer (consumer_Start k cfg)) Q w =
    Q () (w\<lparr>faults := fs, committed := after_start r c k cfg (committed w)\<rparr>)"
  using assms
  by (cases w; cases r; cases c)
    (simp_all add: go_consumer_def consumer_Start_def remote_def wp_simps start_calls_def after_start_def Let_def)

lemma consumers_kept:
  "bt_consumers (open_res x b) = bt_consumers b" "bt_consumers (close_res x b) = bt_consumers b"
  "bt_consumers (run_worker k b) = bt_consumers b" "bt_consumers (put_stream cfg b) = bt_consumers b"
  by (simp_all add: open_res_def close_res_def run_worker_def put_stream_def)

text \<open>C32: the subscription service does not notice which of its consumers are missing. When the fifteen
  calls before go well, then whatever becomes of registering and starting the two consumers, the service
  runs on, with its servers, its relay and its reaper, until it is stopped, and ends without an error. The
  fan-out of releases and the consumer of saga replies run exactly if both calls of their own start were
  answered; a consumer whose registration failed is not at the server unless an earlier run left it
  there, one whose registration took effect stays there although nobody may be consuming.\<close>

theorem missing_consumers_go_unnoticed:
  assumes "bt_workers (committed w) = []" "txn w = None"
    and "faults w = replicate 15 Fine @ start_calls fr fc @ start_calls sr sc @ fs" "next_fault fs = Fine"
  shows "run_result (sub_run None) w = Inr () \<and>
    (let b = committed (run_world (sub_run None) w) in
     {HttpServer, GrpcServer, OutboxRelay, SagaReaper} \<subseteq> set (bt_workers b) \<and>
     (FanoutWorker \<in> set (bt_workers b) \<longleftrightarrow> fr = Fine \<and> fc = Fine) \<and>
     (SagaConsumer \<in> set (bt_workers b) \<longleftrightarrow> sr = Fine \<and> sc = Fine) \<and>
     bt_consumers b ''fanout-consumer'' =
       (if fr = Fail then bt_consumers (committed w) ''fanout-consumer'' else Some fanout_consumer) \<and>
     bt_consumers b ''saga-reply-consumer'' =
       (if sr = Fail then bt_consumers (committed w) ''saga-reply-consumer'' else Some saga_reply_consumer))"
proof -
  have "wp (sub_run None) (\<lambda>r w'. r = Inr () \<and> (let b = committed w' in
      {HttpServer, GrpcServer, OutboxRelay, SagaReaper} \<subseteq> set (bt_workers b) \<and>
     (FanoutWorker \<in> set (bt_workers b) \<longleftrightarrow> fr = Fine \<and> fc = Fine) \<and>
     (SagaConsumer \<in> set (bt_workers b) \<longleftrightarrow> sr = Fine \<and> sc = Fine) \<and>
     bt_consumers b ''fanout-consumer'' =
       (if fr = Fail then bt_consumers (committed w) ''fanout-consumer'' else Some fanout_consumer) \<and>
     bt_consumers b ''saga-reply-consumer'' =
       (if sr = Fail then bt_consumers (committed w) ''saga-reply-consumer'' else Some saga_reply_consumer))) w"
    using assms
    by (simp add: sub_run_def sub_Build_def sub_Serve_def await_stop_def NewPool_def RunMigrationsFrom_def
        ensure_stream_def closing_def bail_def remote_def Start_defs wp_go_consumer wp_simps numeral_eq_Suc
        after_start_workers after_start_consumers consumers_kept Let_def)
      (simp add: fanout_consumer_def saga_reply_consumer_def)
  then show ?thesis
    by (simp add: wp_run Let_def)
qed

theorem missing_consumers_go_unnoticed_witness:
  "let b = committed (run_world (sub_run None)
       ((calm_world no_streams 0 [])\<lparr>faults := replicate 15 Fine @ [Fail, Fine, Fine]\<rparr>)) in
   FanoutWorker \<notin> set (bt_workers b) \<and> SagaConsumer \<in> set (bt_workers b) \<and> bt_consumers b ''fanout-consumer'' = None"
  using missing_consumers_go_unnoticed [of "(calm_world no_streams 0 [])\<lparr>faults := replicate 15 Fine @ [Fail, Fine, Fine]\<rparr>"
      Fail Fine Fine Fine "[]"]
  by (simp add: start_calls_def no_streams_def Let_def)

end
