(* ===== verification/Network.thy ===== *)
theory Network
  imports Deliveries SagaInvariant Monitoring Startup
begin

text \<open>
  The subscription service, the monitoring service, their relays, the JetStream server, the
  notification service and the mail server as one system. Steps of the services interleave; any
  database call, publish or SMTP command may fail or lose its answer; a delivery may get lost, be processed without its acknowledgement
  arriving, and is repeated up to \<^verbatim>\<open>MaxDeliver\<close> times; the stream of notifications discards messages
  that are older than its \<^verbatim>\<open>MaxAge\<close> and, while it holds more than its \<^verbatim>\<open>MaxBytes\<close>, the oldest; announced
  releases and replies to the saga may be delivered at any time, any number of times or never, so that nothing
  is assumed of how long their streams keep them. The invariants tie what a service does to what happened elsewhere.
\<close>

section \<open>What one delivery sends and publishes, whatever fails\<close>

context mail_sender begin

lemma consume_sends:
  "wp (consume rfc3339 m subject data (Some \<lparr>mm_NumDelivered = n, mm_StreamSeq = sq\<rparr>)) (\<lambda>v w'.
     (\<exists>extra. mails (committed w') = mails (committed w) @ extra \<and>
        (\<forall>y \<in> set extra. \<exists>x. mail_of subject data = Some x \<and> meant x y)) \<and>
     (\<exists>msgs. stream w' = stream w @ msgs \<and>
        (\<forall>msg \<in> set msgs. msg_subject msg = SubjectEmailSent \<longrightarrow>
           msg \<in> set (sent_reply (saga_of subject data) sq) \<and>
           (\<exists>x. mail_of subject data = Some x \<and> as_mail x \<in> set (mails (committed w'))))) \<and>
     (v = Ack \<longrightarrow>
        (\<exists>x. mail_of subject data = Some x \<and> as_mail x \<in> set (mails (committed w'))) \<or>
        (\<exists>reason at. dead_msg (dead_letter subject data reason n at) sq \<in> set (stream w')) \<or>
        \<not> known_subject subject)) w"
proof (cases "mail_of subject data")
  case None
  then show ?thesis
    by (auto simp: consume_def wp_bind processMessage_eq decideAction_def wp_toDLQ wp_return Let_def
        saga_of_undecoded dead_msg_def subject_defs split: fault.splits)
next
  case (Some x)
  show ?thesis
    unfolding consume_def option.case wp_bind processMessage_eq Some
    apply (rule wp_mono [OF send_law])
    apply (auto simp: decideAction_def wp_toDLQ wp_simps Let_def elsewhereD Some dead_msg_def
        publishEmailSent_def publishEmailFailed_def sent_reply_def subject_defs
        split: option.splits fault.splits)
    done
qed

end

section \<open>What a step of the subscription service leaves of its tables\<close>

lemma same_sub_refl [simp]: "same_sub x x"
  by (simp add: same_sub_def)

lemma confirm_where_back:
  "x \<in> set (subscriptions (confirm_where P now d)) \<Longrightarrow>
     \<exists>y \<in> set (subscriptions d). same_sub y x \<and> (x = y \<or> P y)"
  by (auto simp: confirm_where_def in_set_update_where same_sub_def split: if_splits)

lemma effect_subs_back:
  assumes "effect ev d d'" "x \<in> set (subscriptions d')"
  shows "(\<exists>y \<in> set (subscriptions d). same_sub y x \<and>
      (sb_Confirmed x \<longrightarrow> sb_Confirmed y \<or> ev = EvConfirm (sb_ConfirmToken x))) \<or>
    (\<exists>sagaID sub now. ev = EvSubscribe sagaID sub \<and> x = new_subscription_row sub now d)"
proof -
  have same: ?thesis if "x \<in> set (subscriptions d)"
    using that by (auto intro: bexI [of _ x])
  show ?thesis
  proof (cases ev)
    case (EvConfirm token)
    show ?thesis
    proof (cases "d' = d")
      case False
      then obtain y where "y \<in> set (subscriptions d)" "same_sub y x" "x = y \<or> sb_ConfirmToken y = token"
        using assms EvConfirm confirm_where_back by fastforce
      then show ?thesis using EvConfirm by (auto simp: same_sub_def)
    qed (use assms(2) same in simp)
  next
    case (EvSubscribe sagaID sub)
    then show ?thesis
      using assms same by (auto simp: created_def)
  qed (use assms same in \<open>auto simp: same_core_def set_saga_state_upd compensating_upd compensated_cases
        delete_subscriptions_def delete_repository_def split: if_splits\<close>)
qed

definition new_saga_row :: "string \<Rightarrow> Subscription \<Rightarrow> int \<Rightarrow> sub_db \<Rightarrow> SagaRow" where
  "new_saga_row sagaID sub deadline d =
     \<lparr>sg_ID = sagas_seq d, sg_SagaID = sagaID, sg_SubscriptionID = subscriptions_seq d,
      sg_RepositoryID = sb_RepositoryID sub, sg_Email = sb_Email sub, sg_State = StateStarted,
      sg_DeadlineAt = deadline, sg_LastError = None\<rparr>"

lemma saga_upd_back:
  "r' \<in> set (update_where P (\<lambda>r. r\<lparr>sg_State := st, sg_LastError := le\<rparr>) rs) \<Longrightarrow>
     \<exists>r \<in> set rs. same_saga r r' \<and> (sg_State r' = sg_State r \<or> P r \<and> sg_State r' = st)"
  by (auto simp: in_set_update_where same_saga_def split: if_splits)

lemma saga_upd_quiet:
  "r' \<in> set (update_where P (\<lambda>r. r\<lparr>sg_State := st, sg_LastError := le\<rparr>) rs) \<Longrightarrow> st \<noteq> StateAwaitingConfirmation \<Longrightarrow>
     \<exists>r \<in> set rs. same_saga r r' \<and>
       (sg_State r' = StateAwaitingConfirmation \<longrightarrow> sg_State r = StateAwaitingConfirmation)"
  by (drule saga_upd_back) auto

lemmas saga_upds_quiet = saga_upd_quiet [where st = StateCompensating, simplified]
  saga_upd_quiet [where st = StateCompleted, simplified] saga_upd_quiet [where st = StateFailed, simplified]

lemma effect_sagas_back:
  assumes "effect ev d d'" "sub_wf d" "r' \<in> set (subscribe_sagas d')"
  shows "(\<exists>r \<in> set (subscribe_sagas d). same_saga r r' \<and>
      (sg_State r' = StateAwaitingConfirmation \<longrightarrow>
         sg_State r = StateAwaitingConfirmation \<or> ev = EvEmailSent (sg_SagaID r'))) \<or>
    (\<exists>sagaID sub dl. ev = EvSubscribe sagaID sub \<and> r' = new_saga_row sagaID sub dl d)"
proof -
  have same: ?thesis if "r' \<in> set (subscribe_sagas d)"
    using that by (auto intro: bexI [of _ r'])
  show ?thesis
  proof (cases ev)
    case (EvEmailSent sagaID)
    show ?thesis
    proof (cases "d' = d")
      case False
      then obtain row where row: "saga_by_id d sagaID = Some row"
        "d' = saga_upd (\<lambda>r. sg_ID r = sg_ID row) StateAwaitingConfirmation None d"
        using assms(1) EvEmailSent by (auto simp: set_saga_state_upd)
      then obtain r where r: "r \<in> set (subscribe_sagas d)" "same_saga r r'"
        "sg_State r' = sg_State r \<or> sg_ID r = sg_ID row"
        using saga_upd_back assms(3) by fastforce
      moreover have "sg_SagaID r = sagaID" if "sg_ID r = sg_ID row"
        using saga_ID_unique [OF assms(2) r(1)] saga_by_idD [OF row(1)] that by blast
      ultimately show ?thesis
        using EvEmailSent by (auto simp: same_saga_def)
    qed (use assms(3) same in simp)
  next
    case (EvSubscribe sagaID sub)
    then show ?thesis
      using assms(1,3) same by (auto simp: created_def new_saga_row_def)
  qed (use assms(1,3) same in \<open>auto simp: same_core_def set_saga_state_upd compensating_upd compensated_cases
        delete_repository_def split: if_splits dest!: saga_upds_quiet\<close>)
qed

text \<open>The steps besides those with a partner: users, the mailer, the worker and the stream.\<close>

fun internal :: "sys_event \<Rightarrow> bool" where
  "internal (EvSubscribe sagaID sub) = False"
| "internal (EvConfirm token) = False"
| "internal (EvEmailSent sagaID) = False"
| "internal (EvEmailFailed sagaID reason) = False"
| "internal EvRelay = False"
| "internal (EvFanout data) = False"
| "internal _ = True"

lemma Repo_Create_outbox: "keeps (\<lambda>d'. outbox d' = t) (Repo_Create Pool name)"
  unfolding Repo_Create_def
  by (intro keeps_rules, rule stmt_keepsI) (auto simp: createRepoQuery_def Let_def split: if_splits)

lemma fanned_out_outbox:
  "outbox (fanned_out ev now d) =
     enqueue_all SubjectRelease (map (release_payload ev) (confirmed_of d (rf_RepoID ev))) (outbox d)"
  by (simp add: fanned_out_def tagged_def)

lemma step_outbox:
  assumes "sys_step s ev s'" "ev \<noteq> EvRelay" "\<And>sagaID sub. ev \<noteq> EvSubscribe sagaID sub"
  shows "outbox (sdb s') = outbox (sdb s) \<or>
    (\<exists>data rf. ev = EvFanout data \<and> Unmarshal_ReleaseFound data = Some rf \<and>
       outbox (sdb s') = enqueue_all SubjectRelease
         (map (release_payload rf) (confirmed_of (sdb s) (rf_RepoID rf))) (outbox (sdb s)))"
proof (cases ev)
  case (EvRepoCreate name)
  then show ?thesis
    using assms(1) by (auto elim!: sys_step.cases intro: runs_keeps [OF Repo_Create_outbox])
next
  case (EvFanout data)
  then obtain w where w: "runs_at w s" "sdb s' = run_db (handleReleaseFound recipient_lister data) w"
    using assms(1) by (auto elim!: sys_step.cases)
  show ?thesis
  proof (cases "Unmarshal_ReleaseFound data")
    case None
    then have "sdb s' = sdb s"
      using w by (simp add: handleReleaseFound_def run_db_def runs_at_def)
    then show ?thesis by simp
  next
    case (Some rf)
    then show ?thesis
      using wp_handleReleaseFound [OF runs_atD(2) [OF w(1)] Some] w(1,2) EvFanout
      by (auto simp: wp_run run_db_world runs_atD fanned_out_outbox)
  qed
qed (use step_effect [OF assms(1)] assms(2,3) in \<open>auto simp: set_saga_state_def compensating_upd saga_upd_def
      compensated_cases delete_subscriptions_def delete_repository_def confirm_where_def split: if_splits\<close>)

section \<open>The system\<close>

record net =
  service :: sys
  published :: "js_msg list"                        \<comment> \<open>stored by JetStream for the subscription service\<close>
  queue :: "(js_msg \<times> nat) list"                     \<comment> \<open>not settled, with the deliveries made\<close>
  settled :: "js_msg list"
  exhausted :: "js_msg list"                            \<comment> \<open>five deliveries made and not acknowledged\<close>
  accepted :: "(string \<times> string \<times> string) list"     \<comment> \<open>mails of the mail server\<close>
  replies :: "js_msg list"                          \<comment> \<open>published by the notification service\<close>
  verifying :: "js_msg list"                        \<comment> \<open>published by the auth service\<close>
  mon :: mon_db                                     \<comment> \<open>database of the monitoring service\<close>
  tracked :: "(int \<times> string) list"                  \<comment> \<open>repositories the catalog listed\<close>
  found :: "(int \<times> string \<times> Release) list"          \<comment> \<open>releases GitHub answered with\<close>
  announced :: "js_msg list"                        \<comment> \<open>stored by JetStream for the monitoring service\<close>
  asked :: "(Subscription \<times> string) list"            \<comment> \<open>requests to subscribe, with the repository's name\<close>
  answered :: "string list"                         \<comment> \<open>tokens of the requests to confirm\<close>
  ns_clock :: nat                                   \<comment> \<open>clock of the JetStream server, in seconds\<close>
  ns_size :: "js_msg \<Rightarrow> nat"                        \<comment> \<open>bytes a stored message takes\<close>
  ns_stored :: "(js_msg \<times> nat) list"               \<comment> \<open>what the stream stored and when, oldest first\<close>
  ns_discarded :: "(js_msg \<times> nat \<times> nat \<times> nat) list"  \<comment> \<open>stored at, discarded at, bytes held then\<close>

definition init_net :: net where
  "init_net = \<lparr>service = init_sys, published = [], queue = [], settled = [], exhausted = [], accepted = [],
     replies = [], verifying = [], mon = empty_mon_db, tracked = [], found = [], announced = [], asked = [], answered = [],
     ns_clock = 0, ns_size = (\<lambda>_. 0), ns_stored = [], ns_discarded = []\<rparr>"

text \<open>A delivery, number \<open>k + 1\<close> of \<open>m\<close>, that the server sees no answer to.\<close>

definition again :: "js_msg \<Rightarrow> nat \<Rightarrow> net \<Rightarrow> net" where
  "again m k s =
     (if Suc k < maxDeliver then s\<lparr>queue := remove1 (m, k) (queue s) @ [(m, Suc k)]\<rparr>
      else s\<lparr>queue := remove1 (m, k) (queue s), exhausted := m # exhausted s\<rparr>)"

definition settle :: "js_msg \<Rightarrow> nat \<Rightarrow> net \<Rightarrow> net" where
  "settle m k s = s\<lparr>queue := remove1 (m, k) (queue s), settled := m # settled s\<rparr>"

text \<open>
  The stream of notifications keeps a message until it is acknowledged, one that had its five deliveries
  too, but no longer than its limits allow. Copies of a message count as stored when the first was.
\<close>

definition held :: "net \<Rightarrow> js_msg list" where
  "held s = map fst (queue s) @ exhausted s"

definition held_bytes :: "net \<Rightarrow> nat" where
  "held_bytes s = sum_list (map (ns_size s) (held s))"

definition store :: "js_msg list \<Rightarrow> net \<Rightarrow> net" where
  "store ms s = s\<lparr>queue := queue s @ map (\<lambda>m. (m, 0)) ms, ns_stored := ns_stored s @ map (\<lambda>m. (m, ns_clock s)) ms\<rparr>"

definition discard :: "js_msg \<Rightarrow> nat \<Rightarrow> net \<Rightarrow> net" where
  "discard m t s =
     (let s' = s\<lparr>ns_discarded := (m, t, ns_clock s, held_bytes s) # ns_discarded s\<rparr> in
      case find (\<lambda>e. fst e = m) (queue s) of
        Some e \<Rightarrow> s'\<lparr>queue := remove1 e (queue s)\<rparr>
      | None \<Rightarrow> s'\<lparr>exhausted := remove1 m (exhausted s)\<rparr>)"

inductive net_step :: "(int \<Rightarrow> string) \<Rightarrow> Mailer \<Rightarrow> net \<Rightarrow> net \<Rightarrow> bool"
  for rfc3339 :: "int \<Rightarrow> string" and mlr :: Mailer where
  net_subscribe: "runs_at w (service s) \<Longrightarrow>
    net_step rfc3339 mlr s (s\<lparr>service := (service s)\<lparr>sdb := run_db (createAndEnqueue ttl sagaID sub
        (confirmation_payload sagaID (sb_Email sub) repoName (sb_ConfirmToken sub))) w\<rparr>,
      asked := (sub, repoName) # asked s\<rparr>)"
| net_confirm: "sys_step (service s) (EvConfirm token) t \<Longrightarrow>
    net_step rfc3339 mlr s (s\<lparr>service := t, answered := token # answered s\<rparr>)"
| net_internal: "sys_step (service s) ev t \<Longrightarrow> internal ev \<Longrightarrow> net_step rfc3339 mlr s (s\<lparr>service := t\<rparr>)"
| net_relay: "runs_at w (service s) \<Longrightarrow> stream w = published s \<Longrightarrow> run_world sub_publishPending w = w' \<Longrightarrow>
    net_step rfc3339 mlr s (store (drop (length (published s)) (stream w'))
      (s\<lparr>service := (service s)\<lparr>sdb := committed w'\<rparr>, published := stream w'\<rparr>))"
| net_list: "runs_at w (service s) \<Longrightarrow> run_result (ListTrackedRepos (ListTracked (store_ListTracked Pool))) w = Inr repos \<Longrightarrow>
    net_step rfc3339 mlr s (s\<lparr>tracked := map (\<lambda>r. (tr_RepoId r, tr_FullName r)) repos @ tracked s\<rparr>)"
| net_scan: "committed w = mon s \<Longrightarrow> txn w = None \<Longrightarrow> (mr_ID repo, mr_FullName repo) \<in> set (tracked s) \<Longrightarrow>
    mr_LastSeenTag repo = cursor_of (mon s) (mr_ID repo) \<Longrightarrow>
    net_step rfc3339 mlr s (s\<lparr>mon := run_db (processRepository (\<lambda>_. answer)
        (client_UpdateLastSeenTagAtomic UpdateLastSeenTagAtomic) Monitoring.Enqueue repo) w,
      found := (case answer of Inl e \<Rightarrow> [] | Inr r \<Rightarrow> [(mr_ID repo, mr_FullName repo, r)]) @ found s\<rparr>)"
| net_announce: "committed w = mon s \<Longrightarrow> txn w = None \<Longrightarrow> stream w = announced s \<Longrightarrow>
    run_world mon_publishPending w = w' \<Longrightarrow>
    net_step rfc3339 mlr s (s\<lparr>mon := committed w', announced := stream w'\<rparr>)"
| net_fanout: "m \<in> set (announced s) \<Longrightarrow> sys_step (service s) (EvFanout (msg_data m)) t \<Longrightarrow>
    net_step rfc3339 mlr s (s\<lparr>service := t\<rparr>)"
\<comment> \<open>the auth service publishes to the same stream, on its own subject\<close>
| net_auth: "msg_subject m = SubjectVerifyEmail \<Longrightarrow>
    net_step rfc3339 mlr s (store [m] (s\<lparr>verifying := m # verifying s\<rparr>))"
\<comment> \<open>the limits of the stream\<close>
| net_tick: "net_step rfc3339 mlr s (s\<lparr>ns_clock := ns_clock s + d\<rparr>)"
| net_aged: "m \<in> set (held s) \<Longrightarrow> (m, t) \<in> set (ns_stored s) \<Longrightarrow>
    t + sc_MaxAge notifications_stream \<le> ns_clock s \<Longrightarrow> net_step rfc3339 mlr s (discard m t s)"
| net_overflow: "find (\<lambda>(m, t). m \<in> set (held s)) (ns_stored s) = Some (m, t) \<Longrightarrow>
    sc_MaxBytes notifications_stream < held_bytes s \<Longrightarrow> net_step rfc3339 mlr s (discard m t s)"
| net_deliver: "(m, k) \<in> set (queue s) \<Longrightarrow> sm_sent (committed v) = accepted s \<Longrightarrow> stream v = replies s \<Longrightarrow>
    run_state (consume rfc3339 (smtp_mailer mlr) (msg_subject m) (msg_data m)
      (Some \<lparr>mm_NumDelivered = Suc k, mm_StreamSeq = sq\<rparr>)) v = (verdict, v') \<Longrightarrow>
    s1 = s\<lparr>accepted := sm_sent (committed v'), replies := stream v'\<rparr> \<Longrightarrow>
    s' \<in> {if verdict = Ack then settle m k s1 else again m k s1, again m k s1} \<Longrightarrow>
    net_step rfc3339 mlr s s'"
| net_lost: "(m, k) \<in> set (queue s) \<Longrightarrow> net_step rfc3339 mlr s (again m k s)"
| net_sent: "msg \<in> set (replies s) \<Longrightarrow> msg_subject msg = SubjectEmailSent \<Longrightarrow>
    Unmarshal_EmailSent (msg_data msg) = Some ev \<Longrightarrow> sys_step (service s) (EvEmailSent (es_SagaID ev)) t \<Longrightarrow>
    net_step rfc3339 mlr s (s\<lparr>service := t\<rparr>)"
| net_failed: "msg \<in> set (replies s) \<Longrightarrow> msg_subject msg = SubjectEmailFailed \<Longrightarrow>
    Unmarshal_EmailFailed (msg_data msg) = Some ev \<Longrightarrow>
    sys_step (service s) (EvEmailFailed (ef_SagaID ev) (ef_Reason ev)) t \<Longrightarrow>
    net_step rfc3339 mlr s (s\<lparr>service := t\<rparr>)"

inductive net_reachable :: "(int \<Rightarrow> string) \<Rightarrow> Mailer \<Rightarrow> net \<Rightarrow> bool"
  for rfc3339 :: "int \<Rightarrow> string" and mlr :: Mailer where
  net_init: "net_reachable rfc3339 mlr (init_net\<lparr>ns_size := sz\<rparr>)"
| net_next: "net_reachable rfc3339 mlr s \<Longrightarrow> net_step rfc3339 mlr s s' \<Longrightarrow> net_reachable rfc3339 mlr s'"

text \<open>Seen from the subscription service every step is one of its own or none.\<close>

lemma again_simps [simp]:
  "service (again m k s) = service s" "published (again m k s) = published s"
  "settled (again m k s) = settled s" "accepted (again m k s) = accepted s"
  "replies (again m k s) = replies s" "verifying (again m k s) = verifying s" "mon (again m k s) = mon s" "tracked (again m k s) = tracked s"
  "found (again m k s) = found s" "announced (again m k s) = announced s"
  "asked (again m k s) = asked s" "answered (again m k s) = answered s" "ns_clock (again m k s) = ns_clock s"
  "ns_stored (again m k s) = ns_stored s" "ns_discarded (again m k s) = ns_discarded s"
  by (simp_all add: again_def)

lemma net_start: "net_reachable rfc3339 mlr init_net"
  using net_init [of rfc3339 mlr "ns_size init_net"] by simp

lemma store_simps [simp]:
  "service (store ms s) = service s" "published (store ms s) = published s" "settled (store ms s) = settled s"
  "exhausted (store ms s) = exhausted s" "accepted (store ms s) = accepted s"
  "replies (store ms s) = replies s" "verifying (store ms s) = verifying s" "mon (store ms s) = mon s" "tracked (store ms s) = tracked s"
  "found (store ms s) = found s" "announced (store ms s) = announced s"
  "asked (store ms s) = asked s" "answered (store ms s) = answered s"
  "queue (store ms s) = queue s @ map (\<lambda>m. (m, 0)) ms" "ns_clock (store ms s) = ns_clock s"
  "ns_stored (store ms s) = ns_stored s @ map (\<lambda>m. (m, ns_clock s)) ms" "ns_discarded (store ms s) = ns_discarded s"
  by (simp_all add: store_def)

lemma discard_simps [simp]:
  "service (discard m t s) = service s" "published (discard m t s) = published s" "settled (discard m t s) = settled s"
  "accepted (discard m t s) = accepted s"
  "replies (discard m t s) = replies s" "verifying (discard m t s) = verifying s" "mon (discard m t s) = mon s" "tracked (discard m t s) = tracked s"
  "found (discard m t s) = found s" "announced (discard m t s) = announced s"
  "asked (discard m t s) = asked s" "answered (discard m t s) = answered s" "ns_clock (discard m t s) = ns_clock s"
  "ns_stored (discard m t s) = ns_stored s"
  "ns_discarded (discard m t s) = (m, t, ns_clock s, held_bytes s) # ns_discarded s"
  by (simp_all add: discard_def Let_def split: option.splits)

lemma settle_simps [simp]:
  "service (settle m k s) = service s" "published (settle m k s) = published s"
  "exhausted (settle m k s) = exhausted s" "accepted (settle m k s) = accepted s"
  "replies (settle m k s) = replies s" "verifying (settle m k s) = verifying s" "mon (settle m k s) = mon s" "tracked (settle m k s) = tracked s"
  "found (settle m k s) = found s" "announced (settle m k s) = announced s"
  "asked (settle m k s) = asked s" "answered (settle m k s) = answered s" "ns_clock (settle m k s) = ns_clock s"
  "ns_stored (settle m k s) = ns_stored s" "ns_discarded (settle m k s) = ns_discarded s"
  by (simp_all add: settle_def)

lemma net_step_service:
  assumes "net_step rfc3339 mlr s s'"
  shows "service s' = service s \<or> (\<exists>ev. sys_step (service s) ev (service s'))"
  using assms
proof (cases rule: net_step.cases)
  case net_subscribe
  then show ?thesis by simp (rule disjI2, rule exI, erule step_subscribe)
next
  case (net_relay w w')
  then show ?thesis using step_relay [of w "service s"] by (auto simp: run_db_world)
qed (auto split: if_splits)

lemma net_reachable_service: "net_reachable rfc3339 mlr s \<Longrightarrow> reachable (service s)"
  by (induction rule: net_reachable.induct)
    (auto simp: init_net_def intro: reach_init dest!: net_step_service intro: reach_step)

lemma net_sys_inv: "net_reachable rfc3339 mlr s \<Longrightarrow> sys_inv (service s)"
  by (rule reachable_inv [OF net_reachable_service])

section \<open>Where the tables come from\<close>

text \<open>\<open>rs\<close> are the requests to subscribe, \<open>ts\<close> the tokens of the requests to confirm, \<open>fs\<close> the
  releases found.\<close>

type_synonym finds = "(int \<times> string \<times> Release) list"

definition found_release :: "finds \<Rightarrow> ReleaseFound \<Rightarrow> bool" where
  "found_release fs rf \<longleftrightarrow> (\<exists>r. (rf_RepoID rf, rf_RepoName rf, r) \<in> set fs \<and> rf_ReleaseTag rf = gr_Tag r \<and>
     rf_ReleaseName rf = gr_Name r \<and> rf_ReleaseURL rf = gr_URL r)"

definition asked_for :: "(Subscription \<times> string) list \<Rightarrow> Subscription \<Rightarrow> bool" where
  "asked_for rs x \<longleftrightarrow> (\<exists>(sub, repoName) \<in> set rs. sb_Email sub = sb_Email x \<and>
     sb_RepositoryID sub = sb_RepositoryID x \<and> sb_ConfirmToken sub = sb_ConfirmToken x \<and>
     sb_UnsubscribeToken sub = sb_UnsubscribeToken x)"

definition consented :: "(Subscription \<times> string) list \<Rightarrow> string list \<Rightarrow> finds \<Rightarrow> ReleaseDetected \<Rightarrow> bool" where
  "consented rs ts fs ev \<longleftrightarrow> (\<exists>(sub, repoName) \<in> set rs. sb_Email sub = rd_Email ev \<and>
     sb_UnsubscribeToken sub = rd_UnsubscribeToken ev \<and> sb_ConfirmToken sub \<in> set ts \<and>
     (\<exists>(i, name, r) \<in> set fs. i = sb_RepositoryID sub \<and> rd_ReleaseTag ev = gr_Tag r \<and>
        rd_ReleaseName ev = gr_Name r \<and> rd_ReleaseURL ev = gr_URL r))"

definition saga_token :: "sub_db \<Rightarrow> SagaRow \<Rightarrow> string \<Rightarrow> bool" where
  "saga_token d g token \<longleftrightarrow>
     (\<forall>x \<in> set (subscriptions d). sb_ID x = sg_SubscriptionID g \<longrightarrow>
        sb_ConfirmToken x = token \<and> sb_Email x = sg_Email g)"

definition confirms :: "(Subscription \<times> string) list \<Rightarrow> sub_db \<Rightarrow> string \<Rightarrow> string \<Rightarrow> string \<Rightarrow> string \<Rightarrow> bool" where
  "confirms rs d sagaID email repoName token \<longleftrightarrow>
     (\<exists>sub. (sub, repoName) \<in> set rs \<and> sb_Email sub = email \<and> sb_ConfirmToken sub = token) \<and>
     (\<exists>g \<in> set (subscribe_sagas d). sg_SagaID g = sagaID \<and> sg_Email g = email \<and> saga_token d g token)"

definition row_ok :: "(Subscription \<times> string) list \<Rightarrow> string list \<Rightarrow> finds \<Rightarrow> sub_db \<Rightarrow> string \<times> bytes \<Rightarrow> bool" where
  "row_ok rs ts fs d = (\<lambda>(subject, payload).
     (subject = SubjectConfirmation \<and> (\<exists>sagaID email repoName token.
        payload = confirmation_payload sagaID email repoName token \<and> confirms rs d sagaID email repoName token)) \<or>
     (subject = SubjectRelease \<and> (\<exists>ev. payload = Marshal_ReleaseDetected ev \<and> consented rs ts fs ev)))"

definition events :: "sub_db \<Rightarrow> (string \<times> bytes) set" where
  "events d = (\<lambda>r. (ob_Subject r, ob_Payload r)) ` set (ob_rows (outbox d))"

definition subs_ok :: "(Subscription \<times> string) list \<Rightarrow> string list \<Rightarrow> sub_db \<Rightarrow> bool" where
  "subs_ok rs ts d \<longleftrightarrow> (\<forall>x \<in> set (subscriptions d). asked_for rs x \<and>
     (sb_Confirmed x \<longrightarrow> sb_ConfirmToken x \<in> set ts))"

definition sagas_told :: "sub_db \<Rightarrow> bool" where
  "sagas_told d \<longleftrightarrow> (\<forall>g \<in> set (subscribe_sagas d). \<exists>repoName token.
     (SubjectConfirmation, confirmation_payload (sg_SagaID g) (sg_Email g) repoName token) \<in> events d)"

definition tables_ok :: "(Subscription \<times> string) list \<Rightarrow> string list \<Rightarrow> finds \<Rightarrow> sub_db \<Rightarrow> bool" where
  "tables_ok rs ts fs d \<longleftrightarrow> subs_ok rs ts d \<and> (\<forall>e \<in> events d. row_ok rs ts fs d e) \<and> sagas_told d"

lemma asked_for_mono: "asked_for rs x \<Longrightarrow> set rs \<subseteq> set rs' \<Longrightarrow> asked_for rs' x"
  unfolding asked_for_def by blast

lemma consented_mono:
  "consented rs ts fs ev \<Longrightarrow> set rs \<subseteq> set rs' \<Longrightarrow> set ts \<subseteq> set ts' \<Longrightarrow> set fs \<subseteq> set fs' \<Longrightarrow> consented rs' ts' fs' ev"
  unfolding consented_def by blast

lemma asked_for_same: "asked_for rs y \<Longrightarrow> same_sub y x \<Longrightarrow> asked_for rs x"
  unfolding asked_for_def same_sub_def by simp

lemma saga_token_step:
  assumes "sys_step s ev s'" "sys_inv s" "g \<in> set (subscribe_sagas (sdb s))" "same_saga g g'"
    and "saga_token (sdb s) g t"
  shows "saga_token (sdb s') g' t"
  unfolding saga_token_def
proof (intro ballI impI)
  fix x assume x: "x \<in> set (subscriptions (sdb s'))" "sb_ID x = sg_SubscriptionID g'"
  have old: "sg_SubscriptionID g < subscriptions_seq (sdb s)"
    using assms(2,3) by (simp add: sys_inv_def sagas_ok_def)
  show "sb_ConfirmToken x = t \<and> sb_Email x = sg_Email g'"
    using effect_subs_back [OF step_effect [OF assms(1)] x(1)]
  proof
    assume "\<exists>y \<in> set (subscriptions (sdb s)). same_sub y x \<and>
      (sb_Confirmed x \<longrightarrow> sb_Confirmed y \<or> ev = EvConfirm (sb_ConfirmToken x))"
    then show ?thesis using assms(4,5) x(2) by (auto simp: same_sub_def same_saga_def saga_token_def)
  next
    assume "\<exists>sagaID sub now. ev = EvSubscribe sagaID sub \<and> x = new_subscription_row sub now (sdb s)"
    then show ?thesis using old x(2) assms(4) by (auto simp: new_subscription_row_def same_saga_def)
  qed
qed

lemma confirms_step:
  assumes "sys_step s ev s'" "sys_inv s" "confirms rs (sdb s) i e p t" "set rs \<subseteq> set rs'"
  shows "confirms rs' (sdb s') i e p t"
proof -
  obtain g where g: "g \<in> set (subscribe_sagas (sdb s))" "sg_SagaID g = i" "sg_Email g = e" "saga_token (sdb s) g t"
    using assms(3) unfolding confirms_def by blast
  obtain g' where g': "g' \<in> set (subscribe_sagas (sdb s'))" "same_saga g g'"
    using step_moves [OF assms(1,2)] g(1) unfolding sagas_move_def by blast
  then have "sg_SagaID g' = i" "sg_Email g' = e" "saga_token (sdb s') g' t"
    using g saga_token_step [OF assms(1,2) g(1) _ g(4)] by (simp_all add: same_saga_def)
  then show ?thesis
    using assms(3,4) g'(1) unfolding confirms_def by blast
qed

lemma row_ok_step:
  assumes "sys_step s ev s'" "sys_inv s" "row_ok rs ts fs (sdb s) e" "set rs \<subseteq> set rs'" "set ts \<subseteq> set ts'"
  shows "row_ok rs' ts' fs (sdb s') e"
  using assms(3) confirms_step [OF assms(1,2) _ assms(4)] consented_mono [OF _ assms(4,5) order_refl]
  unfolding row_ok_def by (auto split: prod.splits) blast+

lemma sagas_told_keep:
  assumes "sagas_told d" "events d \<subseteq> events d'"
    and "\<And>g'. g' \<in> set (subscribe_sagas d') \<Longrightarrow> \<exists>g \<in> set (subscribe_sagas d). same_saga g g'"
  shows "sagas_told d'"
  unfolding sagas_told_def
proof
  fix g' assume "g' \<in> set (subscribe_sagas d')"
  then obtain g where "g \<in> set (subscribe_sagas d)" "same_saga g g'" using assms(3) by blast
  then show "\<exists>p t. (SubjectConfirmation, confirmation_payload (sg_SagaID g') (sg_Email g') p t) \<in> events d'"
    using assms(1,2) unfolding sagas_told_def same_saga_def by force
qed

lemma set_enqueue_all:
  "(\<lambda>r. (ob_Subject r, ob_Payload r)) ` set (ob_rows (enqueue_all subject ps t)) =
   (\<lambda>r. (ob_Subject r, ob_Payload r)) ` set (ob_rows t) \<union> Pair subject ` set ps"
  by (induction ps arbitrary: t) (auto simp: insert_row_def)

lemma asked_consented:
  assumes "asked_for rs x" "sb_ConfirmToken x \<in> set ts" "found_release fs rf" "sb_RepositoryID x = rf_RepoID rf"
  shows "consented rs ts fs \<lparr>rd_Email = sb_Email x, rd_UnsubscribeToken = sb_UnsubscribeToken x,
    rd_ReleaseTag = rf_ReleaseTag rf, rd_ReleaseName = rf_ReleaseName rf, rd_ReleaseURL = rf_ReleaseURL rf\<rparr>"
proof -
  obtain sub p where sub: "(sub, p) \<in> set rs" "sb_Email sub = sb_Email x" "sb_RepositoryID sub = sb_RepositoryID x"
    "sb_ConfirmToken sub = sb_ConfirmToken x" "sb_UnsubscribeToken sub = sb_UnsubscribeToken x"
    using assms(1) unfolding asked_for_def by blast
  obtain r where "(rf_RepoID rf, rf_RepoName rf, r) \<in> set fs" "rf_ReleaseTag rf = gr_Tag r"
    "rf_ReleaseName rf = gr_Name r" "rf_ReleaseURL rf = gr_URL r"
    using assms(3) unfolding found_release_def by blast
  then show ?thesis
    using sub assms(2,4) unfolding consented_def by (force intro!: bexI [OF _ sub(1)])
qed

lemma release_rows_ok:
  assumes "subs_ok rs ts d" "found_release fs rf"
    and "e \<in> Pair SubjectRelease ` set (map (release_payload rf) (confirmed_of d (rf_RepoID rf)))"
  shows "row_ok rs ts fs d' e"
proof -
  obtain x where x: "x \<in> set (subscriptions d)" "sb_Confirmed x" "sb_RepositoryID x = rf_RepoID rf"
    "e = (SubjectRelease, release_payload rf x)"
    using assms(3) by (auto simp: confirmed_of_def)
  then have "asked_for rs x" "sb_ConfirmToken x \<in> set ts"
    using assms(1) by (auto simp: subs_ok_def)
  from asked_consented [OF this assms(2) x(3)] show ?thesis
    by (auto simp: row_ok_def x(4) release_payload_def)
qed

text \<open>What the fan-out reads was found.\<close>

definition heard :: "finds \<Rightarrow> sys_event \<Rightarrow> bool" where
  "heard fs ev \<longleftrightarrow> (\<forall>data rf. ev = EvFanout data \<longrightarrow> Unmarshal_ReleaseFound data = Some rf \<longrightarrow> found_release fs rf)"

lemma step_events:
  assumes "sys_step s ev s'" "ev \<noteq> EvRelay" "\<And>sagaID sub. ev \<noteq> EvSubscribe sagaID sub"
  shows "\<exists>new. events (sdb s') = events (sdb s) \<union> new \<and>
    (\<forall>rs ts fs d'. subs_ok rs ts (sdb s) \<longrightarrow> heard fs ev \<longrightarrow> (\<forall>e \<in> new. row_ok rs ts fs d' e))"
  using step_outbox [OF assms]
proof
  assume "outbox (sdb s') = outbox (sdb s)"
  then show ?thesis by (intro exI [of _ "{}"]) (simp add: events_def)
next
  assume "\<exists>data rf. ev = EvFanout data \<and> Unmarshal_ReleaseFound data = Some rf \<and>
    outbox (sdb s') = enqueue_all SubjectRelease
      (map (release_payload rf) (confirmed_of (sdb s) (rf_RepoID rf))) (outbox (sdb s))"
  then obtain data rf where rf: "ev = EvFanout data" "Unmarshal_ReleaseFound data = Some rf"
    and "outbox (sdb s') = enqueue_all SubjectRelease
      (map (release_payload rf) (confirmed_of (sdb s) (rf_RepoID rf))) (outbox (sdb s))" by (elim exE conjE)
  then have "events (sdb s') = events (sdb s) \<union>
      Pair SubjectRelease ` set (map (release_payload rf) (confirmed_of (sdb s) (rf_RepoID rf)))"
    by (simp only: events_def set_enqueue_all)
  then show ?thesis
    using rf by (intro exI conjI allI impI ballI) (assumption, erule release_rows_ok, simp_all add: heard_def)
qed

lemma subs_ok_step:
  assumes "sys_step s ev s'" "subs_ok rs ts (sdb s)" "set rs \<subseteq> set rs'" "set ts \<subseteq> set ts'"
    and "\<And>token. ev = EvConfirm token \<Longrightarrow> token \<in> set ts'"
    and "\<And>sagaID sub. ev = EvSubscribe sagaID sub \<Longrightarrow> \<exists>repoName. (sub, repoName) \<in> set rs'"
  shows "subs_ok rs' ts' (sdb s')"
  unfolding subs_ok_def
proof
  fix x assume "x \<in> set (subscriptions (sdb s'))"
  then consider y where "y \<in> set (subscriptions (sdb s))" "same_sub y x"
      "sb_Confirmed x \<longrightarrow> sb_Confirmed y \<or> ev = EvConfirm (sb_ConfirmToken x)"
    | sagaID sub now where "ev = EvSubscribe sagaID sub" "x = new_subscription_row sub now (sdb s)"
    using effect_subs_back [OF step_effect [OF assms(1)]] by blast
  then show "asked_for rs' x \<and> (sb_Confirmed x \<longrightarrow> sb_ConfirmToken x \<in> set ts')"
  proof cases
    case 1
    then have "asked_for rs y" "sb_Confirmed y \<longrightarrow> sb_ConfirmToken y \<in> set ts"
      using assms(2) by (auto simp: subs_ok_def)
    then show ?thesis
      using asked_for_mono [OF asked_for_same [OF _ 1(2)] assms(3)] 1(2,3) assms(4,5) by (auto simp: same_sub_def)
  next
    case 2
    then show ?thesis
      using assms(6) [OF 2(1)] by (force simp: asked_for_def new_subscription_row_def)
  qed
qed

lemma tables_ok_step:
  assumes step: "sys_step s ev s'" "ev \<noteq> EvRelay" "\<And>sagaID sub. ev \<noteq> EvSubscribe sagaID sub"
    and inv: "sys_inv s" "tables_ok rs ts fs (sdb s)"
    and ts: "set ts \<subseteq> set ts'" "\<And>token. ev = EvConfirm token \<Longrightarrow> token \<in> set ts'" and heard: "heard fs ev"
  shows "tables_ok rs ts' fs (sdb s')"
proof -
  have ok: "subs_ok rs ts (sdb s)" "\<And>e. e \<in> events (sdb s) \<Longrightarrow> row_ok rs ts fs (sdb s) e" "sagas_told (sdb s)"
    using inv(2) by (simp_all add: tables_ok_def)
  obtain new where new: "events (sdb s') = events (sdb s) \<union> new"
    "\<forall>rs ts fs d'. subs_ok rs ts (sdb s) \<longrightarrow> heard fs ev \<longrightarrow> (\<forall>e \<in> new. row_ok rs ts fs d' e)"
    using step_events [OF step] by (elim exE conjE)
  have subs: "subs_ok rs ts' (sdb s')"
    by (rule subs_ok_step [OF step(1) ok(1) order_refl ts(1)]) (use ts(2) step(3) in auto)
  have more: "subs_ok rs ts' (sdb s)"
    using ok(1) ts(1) by (auto simp: subs_ok_def)
  have "row_ok rs ts' fs (sdb s') e" if "e \<in> events (sdb s')" for e
    using that unfolding new(1)
    by (elim UnE) (rule row_ok_step [OF step(1) inv(1) ok(2) order_refl ts(1)], assumption, use new(2) more heard in simp)
  moreover have "sub_wf (sdb s)" using inv(1) by (simp add: sys_inv_def)
  then have "sagas_told (sdb s')"
    using effect_sagas_back [OF step_effect [OF step(1)]] step(3) new(1)
    by (intro sagas_told_keep [OF ok(3)]) blast+
  ultimately show ?thesis
    using subs by (simp add: tables_ok_def)
qed

lemma tables_ok_subscribe:
  assumes "sys_step s (EvSubscribe sagaID sub) s'" "sys_inv s" "tables_ok rs ts fs (sdb s)"
    and d': "sdb s' = sdb s \<or> creatable (sdb s) sagaID sub \<and>
      sdb s' = created sagaID sub (confirmation_payload sagaID (sb_Email sub) repoName (sb_ConfirmToken sub)) now dl (sdb s)"
  shows "tables_ok ((sub, repoName) # rs) ts fs (sdb s')"
proof -
  let ?rs = "(sub, repoName) # rs" and ?p = "confirmation_payload sagaID (sb_Email sub) repoName (sb_ConfirmToken sub)"
  have sub: "set rs \<subseteq> set ?rs" by auto
  have ok: "subs_ok rs ts (sdb s)" "\<And>e. e \<in> events (sdb s) \<Longrightarrow> row_ok rs ts fs (sdb s) e" "sagas_told (sdb s)"
    using assms(3) by (simp_all add: tables_ok_def)
  note old = row_ok_step [OF assms(1,2) ok(2) sub order_refl]
  have subs: "subs_ok ?rs ts (sdb s')"
    by (rule subs_ok_step [OF assms(1) ok(1) sub order_refl]) auto
  show ?thesis
    using d'
  proof
    assume "sdb s' = sdb s"
    then show ?thesis using subs ok(3) old by (simp add: tables_ok_def)
  next
    assume c: "creatable (sdb s) sagaID sub \<and> sdb s' = created sagaID sub ?p now dl (sdb s)"
    then have ev: "events (sdb s') = insert (SubjectConfirmation, ?p) (events (sdb s))"
      by (auto simp: events_def created_def insert_row_def)
    have "sb_ID x < subscriptions_seq (sdb s)" if "x \<in> set (subscriptions (sdb s))" for x
      using assms(2) that by (simp add: sys_inv_def sub_wf_def)
    then have "confirms ?rs (sdb s') sagaID (sb_Email sub) repoName (sb_ConfirmToken sub)"
      unfolding confirms_def saga_token_def using c by (force simp: created_def new_subscription_row_def)
    then have "row_ok ?rs ts fs (sdb s') (SubjectConfirmation, ?p)"
      unfolding row_ok_def by blast
    moreover have "sagas_told (sdb s')"
      using ok(3) c unfolding sagas_told_def ev by (auto simp: created_def) blast+
    ultimately show ?thesis
      using subs old ev by (simp add: tables_ok_def)
  qed
qed

lemma tables_ok_relay:
  assumes "tables_ok rs ts fs d" "subscriptions d' = subscriptions d" "subscribe_sagas d' = subscribe_sagas d"
    and "events d' = events d"
  shows "tables_ok rs ts fs d'"
  using assms unfolding tables_ok_def subs_ok_def sagas_told_def row_ok_def confirms_def saga_token_def by simp

end
