(* ===== verification/NetworkInvariant.thy ===== *)
theory NetworkInvariant
  imports Network
begin

text \<open>
  The invariant of the whole system: every mail was asked for, every reply to a saga tells of a mail
  that the server has accepted, and no message is forgotten before its fifth delivery but for the limits
  of its stream.
\<close>

section \<open>The invariant\<close>

fun justified :: "net \<Rightarrow> mail \<Rightarrow> bool" where
  "justified s (ConfirmationMail email repoName token) \<longleftrightarrow>
     (\<exists>sub. (sub, repoName) \<in> set (asked s) \<and> sb_Email sub = email \<and> sb_ConfirmToken sub = token)"
| "justified s (ReleaseMail email token tag name url) \<longleftrightarrow> consented (asked s) (answered s) (found s)
     \<lparr>rd_Email = email, rd_UnsubscribeToken = token, rd_ReleaseTag = tag, rd_ReleaseName = name, rd_ReleaseURL = url\<rparr>"
| "justified s (VerificationMail email token) \<longleftrightarrow>
     (\<exists>m \<in> set (verifying s). mail_of (msg_subject m) (msg_data m) = Some (VerificationMail email token))"

abbreviation ndb :: "net \<Rightarrow> sub_db" where
  "ndb s \<equiv> sdb (service s)"

definition queue_ok :: "net \<Rightarrow> bool" where
  "queue_ok s \<longleftrightarrow>
     (\<forall>(m, k) \<in> set (queue s). k < maxDeliver \<and>
        (m \<in> set (published s) \<or> m \<in> set (verifying s))) \<and>
     (\<forall>m \<in> set (verifying s). msg_subject m = SubjectVerifyEmail) \<and>
     (\<forall>m \<in> set (published s). m \<in> fst ` set (queue s) \<or> m \<in> set (settled s) \<or> m \<in> set (exhausted s) \<or>
        m \<in> fst ` set (ns_discarded s))"

text \<open>What was discarded was too old, or the stream held too much.\<close>

definition discards_ok :: "net \<Rightarrow> bool" where
  "discards_ok s \<longleftrightarrow> (\<forall>(m, t, now, bytes) \<in> set (ns_discarded s). (m, t) \<in> set (ns_stored s) \<and>
     (t + sc_MaxAge notifications_stream \<le> now \<or> sc_MaxBytes notifications_stream < bytes))"

definition mails_ok :: "Mailer \<Rightarrow> net \<Rightarrow> bool" where
  "mails_ok mlr s \<longleftrightarrow> (\<forall>y \<in> set (accepted s). \<exists>x. smtp_meant mlr x y \<and> justified s x)"

definition handled :: "Mailer \<Rightarrow> net \<Rightarrow> js_msg \<Rightarrow> bool" where
  "handled mlr s m \<longleftrightarrow>
     (\<exists>x. mail_of (msg_subject m) (msg_data m) = Some x \<and> smtp_mail mlr x \<in> set (accepted s)) \<or>
     (\<exists>reason n at sq. dead_msg (dead_letter (msg_subject m) (msg_data m) reason n at) sq \<in> set (replies s)) \<or>
     \<not> known_subject (msg_subject m)"

definition settled_ok :: "Mailer \<Rightarrow> net \<Rightarrow> bool" where
  "settled_ok mlr s \<longleftrightarrow> (\<forall>m \<in> set (settled s). handled mlr s m)"

definition reply_ok :: "Mailer \<Rightarrow> net \<Rightarrow> js_msg \<Rightarrow> bool" where
  "reply_ok mlr s msg \<longleftrightarrow> (\<exists>sagaID email repoName token. msg_data msg = Marshal_EmailSent \<lparr>es_SagaID = sagaID\<rparr> \<and>
     (SubjectConfirmation, confirmation_payload sagaID email repoName token) \<in> events (ndb s) \<and>
     smtp_mail mlr (ConfirmationMail email repoName token) \<in> set (accepted s))"

definition replies_ok :: "Mailer \<Rightarrow> net \<Rightarrow> bool" where
  "replies_ok mlr s \<longleftrightarrow>
     (\<forall>msg \<in> set (replies s). msg_subject msg = SubjectEmailSent \<longrightarrow> reply_ok mlr s msg)"

definition saga_mailed :: "Mailer \<Rightarrow> net \<Rightarrow> SagaRow \<Rightarrow> bool" where
  "saga_mailed mlr s g \<longleftrightarrow> (\<exists>repoName token. saga_token (ndb s) g token \<and>
     smtp_mail mlr (ConfirmationMail (sg_Email g) repoName token) \<in> set (accepted s))"

definition awaiting_ok :: "Mailer \<Rightarrow> net \<Rightarrow> bool" where
  "awaiting_ok mlr s \<longleftrightarrow> (\<forall>g \<in> set (subscribe_sagas (ndb s)).
     sg_State g = StateAwaitingConfirmation \<longrightarrow> saga_mailed mlr s g)"

definition mon_ok :: "net \<Rightarrow> bool" where
  "mon_ok s \<longleftrightarrow> relay_inv mon_msgID (monitoring_outbox (mon s)) (announced s) \<and>
     (\<forall>row \<in> set (ob_rows (monitoring_outbox (mon s))). \<exists>i name r.
        ob_Payload row = event_for i name r \<and> (i, name, r) \<in> set (found s)) \<and>
     (\<forall>(i, name, r) \<in> set (found s). (i, name) \<in> set (tracked s))"

definition net_inv :: "Mailer \<Rightarrow> net \<Rightarrow> bool" where
  "net_inv mlr s \<longleftrightarrow> sys_inv (service s) \<and> relay_inv sub_msgID (outbox (ndb s)) (published s) \<and>
     tables_ok (asked s) (answered s) (found s) (ndb s) \<and> queue_ok s \<and> mails_ok mlr s \<and> settled_ok mlr s \<and>
     replies_ok mlr s \<and> awaiting_ok mlr s \<and> mon_ok s \<and> discards_ok s"

lemma net_inv_init: "net_inv mlr (init_net\<lparr>ns_size := sz\<rparr>)"
  by (simp add: net_inv_def init_net_def discards_ok_def sys_inv_init init_sys_def empty_sub_db_def relay_inv_def outbox_wf_def
      marked_stored_def stored_enqueued_def tables_ok_def subs_ok_def events_def sagas_told_def queue_ok_def
      mails_ok_def settled_ok_def replies_ok_def awaiting_ok_def mon_ok_def empty_mon_db_def sys_inv_init [unfolded init_sys_def empty_sub_db_def])

section \<open>Facts that stay\<close>

text \<open>What every step leaves or adds to.\<close>

definition net_le :: "net \<Rightarrow> net \<Rightarrow> bool" where
  "net_le s s' \<longleftrightarrow> set (asked s) \<subseteq> set (asked s') \<and> set (answered s) \<subseteq> set (answered s') \<and>
     set (verifying s) \<subseteq> set (verifying s') \<and> set (found s) \<subseteq> set (found s') \<and> set (accepted s) \<subseteq> set (accepted s') \<and>
     set (replies s) \<subseteq> set (replies s') \<and> events (ndb s) \<subseteq> events (ndb s')"

lemma justified_mono: "net_le s s' \<Longrightarrow> justified s x \<Longrightarrow> justified s' x"
  by (cases x) (auto simp: net_le_def intro: consented_mono)

lemma handled_mono: "net_le s s' \<Longrightarrow> handled mlr s m \<Longrightarrow> handled mlr s' m"
  unfolding handled_def net_le_def by blast

lemma reply_ok_mono: "net_le s s' \<Longrightarrow> reply_ok mlr s msg \<Longrightarrow> reply_ok mlr s' msg"
  unfolding reply_ok_def net_le_def by blast

lemma keep_mails: "net_le s s' \<Longrightarrow> mails_ok mlr s \<Longrightarrow> accepted s' = accepted s \<Longrightarrow> mails_ok mlr s'"
  unfolding mails_ok_def using justified_mono by metis

lemma keep_settled: "net_le s s' \<Longrightarrow> settled_ok mlr s \<Longrightarrow> settled s' = settled s \<Longrightarrow> settled_ok mlr s'"
  unfolding settled_ok_def using handled_mono by metis

lemma keep_replies: "net_le s s' \<Longrightarrow> replies_ok mlr s \<Longrightarrow> replies s' = replies s \<Longrightarrow> replies_ok mlr s'"
  unfolding replies_ok_def using reply_ok_mono by metis

lemma keep_queue:
  "queue_ok s \<Longrightarrow> queue s' = queue s \<Longrightarrow> published s' = published s \<Longrightarrow> verifying s' = verifying s \<Longrightarrow>
   settled s' = settled s \<Longrightarrow> exhausted s' = exhausted s \<Longrightarrow> ns_discarded s' = ns_discarded s \<Longrightarrow> queue_ok s'"
  by (simp add: queue_ok_def)

lemma keep_discards:
  "discards_ok s \<Longrightarrow> ns_discarded s' = ns_discarded s \<Longrightarrow> set (ns_stored s) \<subseteq> set (ns_stored s') \<Longrightarrow> discards_ok s'"
  unfolding discards_ok_def by fastforce

lemma confirmation_payload_inj [simp]:
  "confirmation_payload i e p t = confirmation_payload i' e' p' t' \<longleftrightarrow> i = i' \<and> e = e' \<and> p = p' \<and> t = t'"
proof
  assume "confirmation_payload i e p t = confirmation_payload i' e' p' t'"
  from arg_cong [OF this, of Unmarshal_ConfirmationRequested] show "i = i' \<and> e = e' \<and> p = p' \<and> t = t'"
    by (simp add: confirmation_payload_def)
qed simp

lemma keep_mon:
  "mon_ok s \<Longrightarrow> mon s' = mon s \<Longrightarrow> announced s' = announced s \<Longrightarrow> found s' = found s \<Longrightarrow> tracked s' = tracked s \<Longrightarrow>
   mon_ok s'"
  by (simp add: mon_ok_def)

text \<open>A message of the queue is an event of the outbox or of the auth service.\<close>

lemma published_event:
  assumes "relay_inv sub_msgID (outbox d) ms" "m \<in> set ms"
  shows "(msg_subject m, msg_data m) \<in> events d"
  using assms unfolding relay_inv_def stored_enqueued_def events_def msg_of_def by force

lemma ReleaseDetected_eta [simp]:
  "\<lparr>rd_Email = rd_Email ev, rd_UnsubscribeToken = rd_UnsubscribeToken ev, rd_ReleaseTag = rd_ReleaseTag ev,
    rd_ReleaseName = rd_ReleaseName ev, rd_ReleaseURL = rd_ReleaseURL ev\<rparr> = ev"
  by simp

lemma row_ok_mail:
  assumes "row_ok (asked s) (answered s) (found s) d (subject, data)" "mail_of subject data = Some x"
  shows "justified s x"
  using assms
  by (auto simp: row_ok_def mail_of_def confirmation_payload_def confirms_def) metis

lemma queue_mail_justified:
  assumes "net_inv mlr s" "(m, k) \<in> set (queue s)" "mail_of (msg_subject m) (msg_data m) = Some x"
  shows "justified s x"
proof -
  have q: "m \<in> set (published s) \<or> m \<in> set (verifying s)"
    "\<And>m. m \<in> set (verifying s) \<Longrightarrow> msg_subject m = SubjectVerifyEmail"
    and ok: "relay_inv sub_msgID (outbox (ndb s)) (published s)" "\<And>e. e \<in> events (ndb s) \<Longrightarrow> row_ok (asked s) (answered s) (found s) (ndb s) e"
    using assms(1,2) by (auto simp: net_inv_def queue_ok_def tables_ok_def)
  show ?thesis
  proof (cases "m \<in> set (published s)")
    case True
    then show ?thesis using row_ok_mail [OF ok(2) [OF published_event [OF ok(1)]] assms(3)] by simp
  next
    case False
    then have m: "m \<in> set (verifying s)" "msg_subject m = SubjectVerifyEmail" using q by auto
    then obtain a b where "x = VerificationMail a b" using assms(3) by (auto simp: mail_of_def)
    then show ?thesis using m(1) assms(3) by auto
  qed
qed

lemma queue_reply:
  assumes "net_inv mlr s" "(m, k) \<in> set (queue s)" "mail_of (msg_subject m) (msg_data m) = Some x"
    and "saga_of (msg_subject m) (msg_data m) \<noteq> ''''"
  shows "\<exists>email repoName token. x = ConfirmationMail email repoName token \<and>
    (SubjectConfirmation, confirmation_payload (saga_of (msg_subject m) (msg_data m)) email repoName token) \<in> events (ndb s)"
proof -
  have subject: "msg_subject m = SubjectConfirmation"
    using assms(4) by (auto simp: saga_of_def split: if_splits)
  then have "m \<in> set (published s)"
    using assms(1,2) by (auto simp: net_inv_def queue_ok_def)
  moreover have ok: "relay_inv sub_msgID (outbox (ndb s)) (published s)"
    "\<And>e. e \<in> events (ndb s) \<Longrightarrow> row_ok (asked s) (answered s) (found s) (ndb s) e"
    using assms(1) by (auto simp: net_inv_def tables_ok_def)
  ultimately have ev: "(SubjectConfirmation, msg_data m) \<in> events (ndb s)"
    using published_event subject by metis
  obtain i e p t where "msg_data m = confirmation_payload i e p t"
    using ok(2) [OF ev] by (auto simp: row_ok_def)
  then show ?thesis
    using ev assms(3) subject by (auto simp: mail_of_def saga_of_def confirmation_payload_def)
qed

section \<open>Steps of the subscription service\<close>

lemma relay_inv_enqueue_all:
  "relay_inv msgID t ms \<Longrightarrow> relay_inv msgID (enqueue_all subject ps t) ms"
  by (induction ps arbitrary: t) (simp_all add: relay_inv_insert)

lemma saga_ID_eq:
  "sub_wf d \<Longrightarrow> g \<in> set (subscribe_sagas d) \<Longrightarrow> g' \<in> set (subscribe_sagas d) \<Longrightarrow> sg_SagaID g = sg_SagaID g' \<Longrightarrow> g = g'"
  using distinct_map_eqD [of sg_SagaID] sub_wfD(7) by blast

lemma awaiting_step:
  assumes "net_inv mlr s" "sys_step (service s) ev (service s')" "accepted s' = accepted s"
    and "\<And>i. ev = EvEmailSent i \<Longrightarrow> \<exists>msg \<in> set (replies s). msg_subject msg = SubjectEmailSent \<and>
      Unmarshal_EmailSent (msg_data msg) = Some \<lparr>es_SagaID = i\<rparr>"
  shows "awaiting_ok mlr s'"
  unfolding awaiting_ok_def
proof (intro ballI impI)
  have inv: "sys_inv (service s)" "sub_wf (ndb s)" "awaiting_ok mlr s" "replies_ok mlr s"
      "tables_ok (asked s) (answered s) (found s) (ndb s)"
    using assms(1) by (simp_all add: net_inv_def sys_inv_def)
  have wf': "sub_wf (ndb s')" using step_wf [OF assms(2)] inv(2) .
  fix g' assume g': "g' \<in> set (subscribe_sagas (ndb s'))" "sg_State g' = StateAwaitingConfirmation"
  consider g where "g \<in> set (subscribe_sagas (ndb s))" "same_saga g g'" "sg_State g = StateAwaitingConfirmation"
    | "ev = EvEmailSent (sg_SagaID g')"
    using effect_sagas_back [OF step_effect [OF assms(2)] inv(2) g'(1)] g'(2) by (auto simp: new_saga_row_def)
  then show "saga_mailed mlr s' g'"
  proof cases
    case 1
    then have "saga_mailed mlr s g" using inv(3) by (simp add: awaiting_ok_def)
    then show ?thesis
      using saga_token_step [OF assms(2) inv(1) 1(1,2)] assms(3) 1(2)
      unfolding saga_mailed_def by (auto simp: same_saga_def)
  next
    case 2
    then obtain msg where "msg \<in> set (replies s)" "msg_subject msg = SubjectEmailSent"
      "Unmarshal_EmailSent (msg_data msg) = Some \<lparr>es_SagaID = sg_SagaID g'\<rparr>" using assms(4) by blast
    then obtain e p t where ev: "(SubjectConfirmation, confirmation_payload (sg_SagaID g') e p t) \<in> events (ndb s)"
      and sent: "smtp_mail mlr (ConfirmationMail e p t) \<in> set (accepted s)"
      using inv(4) unfolding replies_ok_def reply_ok_def by fastforce
    have "row_ok (asked s) (answered s) (found s) (ndb s) (SubjectConfirmation, confirmation_payload (sg_SagaID g') e p t)"
      using inv(5) ev unfolding tables_ok_def by blast
    then have "confirms (asked s) (ndb s) (sg_SagaID g') e p t"
      by (auto simp: row_ok_def)
    then have "confirms (asked s) (ndb s') (sg_SagaID g') e p t"
      by (rule confirms_step [OF assms(2) inv(1) _ order_refl])
    then obtain g where "g \<in> set (subscribe_sagas (ndb s'))" "sg_SagaID g = sg_SagaID g'" "sg_Email g = e"
      "saga_token (ndb s') g t" unfolding confirms_def by blast
    then have "sg_Email g' = e" "saga_token (ndb s') g' t"
      using saga_ID_eq [OF wf' _ g'(1)] by auto
    then show ?thesis
      using sent assms(3) unfolding saga_mailed_def by auto
  qed
qed

lemma net_inv_sys:
  assumes inv: "net_inv mlr s"
    and step: "sys_step (service s) ev t" "ev \<noteq> EvRelay" "\<And>sagaID sub. ev \<noteq> EvSubscribe sagaID sub"
    and ts: "set (answered s) \<subseteq> set ts" "\<And>token. ev = EvConfirm token \<Longrightarrow> token \<in> set ts"
    and sent: "\<And>i. ev = EvEmailSent i \<Longrightarrow> \<exists>msg \<in> set (replies s). msg_subject msg = SubjectEmailSent \<and>
      Unmarshal_EmailSent (msg_data msg) = Some \<lparr>es_SagaID = i\<rparr>"
    and heard: "heard (found s) ev"
  shows "net_inv mlr (s\<lparr>service := t, answered := ts\<rparr>)"
proof -
  let ?s = "s\<lparr>service := t, answered := ts\<rparr>"
  have sys: "sys_inv (service s)" "relay_inv sub_msgID (outbox (ndb s)) (published s)"
      "tables_ok (asked s) (answered s) (found s) (ndb s)" "queue_ok s" "mails_ok mlr s" "settled_ok mlr s" "replies_ok mlr s" "mon_ok s" "discards_ok s"
    using inv by (simp_all add: net_inv_def)
  have "relay_inv sub_msgID (outbox (sdb t)) (published s)"
    using step_outbox [OF step] sys(2) relay_inv_enqueue_all by (elim disjE exE) simp_all
  moreover have "tables_ok (asked s) ts (found s) (sdb t)"
    by (rule tables_ok_step [OF step sys(1,3) ts heard])
  moreover have "events (ndb s) \<subseteq> events (sdb t)"
    using step_events [OF step] by auto
  then have le: "net_le s ?s" using ts(1) by (simp add: net_le_def)
  moreover have "awaiting_ok mlr ?s"
    by (rule awaiting_step [OF inv, where ev = ev]) (use step(1) sent in simp_all)
  ultimately show ?thesis
    using sys_inv_step [OF step(1) sys(1)] keep_mails [OF le sys(5)] keep_settled [OF le sys(6)]
      keep_replies [OF le sys(7)] keep_queue [OF sys(4)] keep_mon [OF sys(8)] keep_discards [OF sys(9)]
    unfolding net_inv_def by simp
qed

lemma net_inv_subscribe:
  assumes inv: "net_inv mlr s" and w: "runs_at w (service s)"
    and s': "s' = s\<lparr>service := (service s)\<lparr>sdb := run_db (createAndEnqueue ttl sagaID sub
        (confirmation_payload sagaID (sb_Email sub) repoName (sb_ConfirmToken sub))) w\<rparr>,
      asked := (sub, repoName) # asked s\<rparr>"
  shows "net_inv mlr s'"
proof -
  let ?p = "confirmation_payload sagaID (sb_Email sub) repoName (sb_ConfirmToken sub)"
  have sys: "sys_inv (service s)" "relay_inv sub_msgID (outbox (ndb s)) (published s)"
      "tables_ok (asked s) (answered s) (found s) (ndb s)" "queue_ok s" "mails_ok mlr s" "settled_ok mlr s" "replies_ok mlr s" "mon_ok s" "discards_ok s"
    using inv by (simp_all add: net_inv_def)
  have step: "sys_step (service s) (EvSubscribe sagaID sub) (service s')"
    unfolding s' using step_subscribe [OF w] by simp
  obtain now dl where d': "ndb s' = ndb s \<or> creatable (ndb s) sagaID sub \<and> ndb s' = created sagaID sub ?p now dl (ndb s)"
    using wp_createAndEnqueue [OF runs_atD(2) [OF w], of ttl sagaID sub ?p]
    by (auto simp: s' wp_run run_db_world create_post_def Let_def runs_atD [OF w] split: sum.splits)
  then have outbox: "outbox (ndb s') = outbox (ndb s) \<or> outbox (ndb s') = insert_row SubjectConfirmation ?p (outbox (ndb s))"
    by (auto simp: created_def)
  have "relay_inv sub_msgID (outbox (ndb s')) (published s)"
    using outbox sys(2) relay_inv_insert by auto
  moreover have "tables_ok ((sub, repoName) # asked s) (answered s) (found s) (ndb s')"
    by (rule tables_ok_subscribe [OF step sys(1,3) d'])
  moreover have "events (ndb s) \<subseteq> events (ndb s')"
    using outbox by (auto simp: events_def insert_row_def)
  then have le: "net_le s s'" by (auto simp: net_le_def s')
  moreover have "awaiting_ok mlr s'"
    by (rule awaiting_step [OF inv step]) (simp_all add: s')
  ultimately show ?thesis
    using sys_inv_step [OF step sys(1)] keep_mails [OF le sys(5)] keep_settled [OF le sys(6)]
      keep_replies [OF le sys(7)] keep_queue [OF sys(4)] keep_mon [OF sys(8)] keep_discards [OF sys(9)]
    unfolding net_inv_def by (simp add: s')
qed

section \<open>The relay and the deliveries\<close>

lemma events_mark [simp]: "events (outbox_update (mark_rows ids now) d) = events d"
proof -
  have "map (\<lambda>r. (ob_Subject r, ob_Payload r)) (ob_rows (mark_rows ids now (outbox d))) =
        map (\<lambda>r. (ob_Subject r, ob_Payload r)) (ob_rows (outbox d))"
    unfolding mark_rows_def by (simp add: map_update_where)
  then show ?thesis
    unfolding events_def list.set_map [symmetric] by simp
qed

lemma relay_tick:
  assumes "runs_at w s" "run_world sub_publishPending w = w'"
    and "relay_inv sub_msgID (outbox (sdb s)) (stream w)"
  shows "relay_inv sub_msgID (outbox (committed w')) (stream w')" "\<exists>new. stream w' = stream w @ new"
    "committed w' = sdb s \<or> (\<exists>ids now. committed w' = outbox_update (mark_rows ids now) (sdb s))"
  using sub_relay.tick_inv [OF runs_atD(2) [OF assms(1)], of sub_msgID]
    sub_relay.tick_post [OF runs_atD(2) [OF assms(1)], of sub_msgID] assms
  by (auto simp: wp_run sub_publishPending_def runs_atD)

lemma net_inv_relay:
  assumes inv: "net_inv mlr s" and w: "runs_at w (service s)" "stream w = published s"
      "run_world sub_publishPending w = w'"
    and s': "s' = store (drop (length (published s)) (stream w'))
      (s\<lparr>service := (service s)\<lparr>sdb := committed w'\<rparr>, published := stream w'\<rparr>)"
  shows "net_inv mlr s'"
proof -
  have sys: "sys_inv (service s)" "relay_inv sub_msgID (outbox (ndb s)) (published s)"
      "tables_ok (asked s) (answered s) (found s) (ndb s)" "queue_ok s" "mails_ok mlr s" "settled_ok mlr s" "replies_ok mlr s" "mon_ok s" "discards_ok s"
    using inv by (simp_all add: net_inv_def)
  have step: "sys_step (service s) EvRelay (service s')"
    using step_relay [OF w(1)] w(3) by (simp add: s' run_db_world)
  note tick = relay_tick [OF w(1,3), unfolded w(2), OF sys(2)]
  obtain new where new: "stream w' = published s @ new" using tick(2) by blast
  have db: "subscriptions (ndb s') = subscriptions (ndb s)" "subscribe_sagas (ndb s') = subscribe_sagas (ndb s)"
    "events (ndb s') = events (ndb s)"
    using tick(3) by (auto simp: s')
  have "tables_ok (asked s) (answered s) (found s) (ndb s')"
    by (rule tables_ok_relay [OF sys(3) db])
  moreover have le: "net_le s s'" using db(3) by (simp add: net_le_def s')
  moreover have "queue_ok s'"
    using sys(4) unfolding queue_ok_def s' new by (auto simp: maxDeliver_def image_Un image_image)
  moreover have "awaiting_ok mlr s'"
    by (rule awaiting_step [OF inv step]) (simp_all add: s')
  ultimately show ?thesis
    using sys_inv_step [OF step sys(1)] keep_mails [OF le sys(5)] keep_settled [OF le sys(6)]
      keep_replies [OF le sys(7)] keep_mon [OF sys(8)] keep_discards [OF sys(9)] tick(1)
    unfolding net_inv_def by (simp add: s')
qed

lemma tables_ok_found: "tables_ok rs ts fs d \<Longrightarrow> set fs \<subseteq> set fs' \<Longrightarrow> tables_ok rs ts fs' d"
  unfolding tables_ok_def row_ok_def by (auto split: prod.splits) (blast dest: consented_mono [OF _ order_refl order_refl])+

text \<open>Steps that leave the subscription service alone.\<close>

lemma net_inv_outside:
  assumes inv: "net_inv mlr s"
    and same: "service s' = service s" "published s' = published s" "asked s' = asked s" "answered s' = answered s"
    and more: "set (accepted s) \<subseteq> set (accepted s')" "set (replies s) \<subseteq> set (replies s')" "set (verifying s) \<subseteq> set (verifying s')"
      "set (found s) \<subseteq> set (found s')"
    and kept: "queue_ok s'" "mon_ok s'" "discards_ok s'"
    and mails: "\<And>y. y \<in> set (accepted s') - set (accepted s) \<Longrightarrow> \<exists>x. smtp_meant mlr x y \<and> justified s' x"
    and new: "\<And>m. m \<in> set (settled s') - set (settled s) \<Longrightarrow> handled mlr s' m"
      "\<And>msg. msg \<in> set (replies s') - set (replies s) \<Longrightarrow> msg_subject msg = SubjectEmailSent \<Longrightarrow> reply_ok mlr s' msg"
  shows "net_inv mlr s'"
proof -
  have sys: "sys_inv (service s)" "relay_inv sub_msgID (outbox (ndb s)) (published s)"
      "tables_ok (asked s) (answered s) (found s) (ndb s)" "mails_ok mlr s" "settled_ok mlr s" "replies_ok mlr s" "awaiting_ok mlr s"
    using inv by (simp_all add: net_inv_def)
  have le: "net_le s s'" using same more by (simp add: net_le_def)
  have "mails_ok mlr s'"
    unfolding mails_ok_def using sys(4) mails justified_mono [OF le] by (metis DiffI mails_ok_def)
  moreover have "settled_ok mlr s'"
    unfolding settled_ok_def using sys(5) new(1) handled_mono [OF le] by (metis DiffI settled_ok_def)
  moreover have "replies_ok mlr s'"
    unfolding replies_ok_def using sys(6) new(2) reply_ok_mono [OF le] by (metis DiffI replies_ok_def)
  moreover have "awaiting_ok mlr s'"
    using sys(7) same(1) more(1) unfolding awaiting_ok_def saga_mailed_def by (metis subsetD)
  ultimately show ?thesis
    using sys(1,2) tables_ok_found [OF sys(3) more(4)] same kept by (simp add: net_inv_def)
qed

lemma remove1_others:
  "m' \<in> fst ` set q \<Longrightarrow> m' \<noteq> m \<Longrightarrow> m' \<in> fst ` set (remove1 (m, k) q)"
  by (erule imageE, rule image_eqI, assumption) (auto simp: in_set_remove1)

lemma queue_ok_take:
  assumes "queue_ok s" "(m, k) \<in> set (queue s)" and q: "queue s' = remove1 (m, k) (queue s) @ rest"
    and "published s' = published s" "verifying s' = verifying s"
    and "set rest \<subseteq> {m} \<times> {..<maxDeliver}"
    and "m \<in> fst ` set rest \<union> set (settled s') \<union> set (exhausted s') \<union> fst ` set (ns_discarded s')"
    and "set (settled s) \<subseteq> set (settled s')" "set (exhausted s) \<subseteq> set (exhausted s')"
    and "set (ns_discarded s) \<subseteq> set (ns_discarded s')"
  shows "queue_ok s'"
proof -
  have old: "\<And>m k. (m, k) \<in> set (queue s) \<Longrightarrow> k < maxDeliver \<and> (m \<in> set (published s) \<or> m \<in> set (verifying s))"
    "\<And>m'. m' \<in> set (published s) \<Longrightarrow> m' \<in> fst ` set (queue s) \<or> m' \<in> set (settled s) \<or> m' \<in> set (exhausted s) \<or>
      m' \<in> fst ` set (ns_discarded s)"
    using assms(1) by (auto simp: queue_ok_def)
  have "j < maxDeliver \<and> (m' \<in> set (published s) \<or> m' \<in> set (verifying s))" if "(m', j) \<in> set (queue s')" for m' j
    using that old(1) [of m' j] old(1) [OF assms(2)] assms(6) set_remove1_subset [of "(m, k)" "queue s"]
    by (auto simp: q)
  moreover have "m' \<in> fst ` set (queue s') \<or> m' \<in> set (settled s') \<or> m' \<in> set (exhausted s') \<or>
      m' \<in> fst ` set (ns_discarded s')" if m': "m' \<in> set (published s)" for m'
  proof (cases "m' = m")
    case True
    then show ?thesis using assms(7) by (auto simp: q)
  next
    case False
    then show ?thesis
      using old(2) [OF m'] remove1_others [of m' "queue s" m k] assms(8-10) by (auto simp: q image_Un)
  qed
  ultimately show ?thesis
    using assms(1,4,5) by (auto simp: queue_ok_def)
qed

lemma queue_ok_again:
  "queue_ok s \<Longrightarrow> (m, k) \<in> set (queue s) \<Longrightarrow> queue_ok (again m k s)"
  by (erule queue_ok_take [where rest = "if Suc k < maxDeliver then [(m, Suc k)] else []"])
    (auto simp: again_def)

lemma queue_ok_settle:
  "queue_ok s \<Longrightarrow> (m, k) \<in> set (queue s) \<Longrightarrow> queue_ok (settle m k s)"
  by (erule queue_ok_take [where rest = "[]"]) (auto simp: settle_def)

lemma queue_ok_discard:
  assumes "queue_ok s"
  shows "queue_ok (discard m t s)"
proof (cases "find (\<lambda>e. fst e = m) (queue s)")
  case None
  have "m' = m \<or> m' \<in> set (remove1 m (exhausted s))" if "m' \<in> set (exhausted s)" for m'
    using that by (cases "m' = m") (simp_all add: in_set_remove1)
  then show ?thesis
    using assms None unfolding queue_ok_def discard_def by auto
next
  case (Some e)
  then obtain k where e: "e = (m, k)" "(m, k) \<in> set (queue s)" using find_SomeD [OF Some] by (cases e) auto
  show ?thesis
    by (rule queue_ok_take [OF assms e(2), where rest = "[]"])
      (use Some e(1) in \<open>auto simp: discard_def Let_def\<close>)
qed

lemma discards_ok_discard:
  "discards_ok s \<Longrightarrow> (m, t) \<in> set (ns_stored s) \<Longrightarrow>
   t + sc_MaxAge notifications_stream \<le> ns_clock s \<or> sc_MaxBytes notifications_stream < held_bytes s \<Longrightarrow>
   discards_ok (discard m t s)"
  by (auto simp: discards_ok_def)

lemma delivery:
  assumes inv: "net_inv mlr s" and m: "(m, k) \<in> set (queue s)"
    and v: "sm_sent (committed v) = accepted s" "stream v = replies s"
    and run: "run_state (consume rfc3339 (smtp_mailer mlr) (msg_subject m) (msg_data m)
      (Some \<lparr>mm_NumDelivered = Suc k, mm_StreamSeq = sq\<rparr>)) v = (verdict, v')"
    and s1: "s1 = s\<lparr>accepted := sm_sent (committed v'), replies := stream v'\<rparr>"
  shows "net_inv mlr s1" "verdict = Ack \<Longrightarrow> handled mlr s1 m"
proof -
  let ?subject = "msg_subject m" and ?data = "msg_data m"
  note post = smtp_sender.consume_sends [of rfc3339 mlr ?subject ?data "Suc k" sq v, unfolded wp_def run prod.case v]
  obtain mails where mails: "sm_sent (committed v') = accepted s @ mails"
      "\<forall>y \<in> set mails. \<exists>x. mail_of ?subject ?data = Some x \<and> smtp_meant mlr x y"
    using conjunct1 [OF post] by (elim exE conjE)
  obtain msgs where msgs: "stream v' = replies s @ msgs"
      "\<forall>msg \<in> set msgs. msg_subject msg = SubjectEmailSent \<longrightarrow>
         msg \<in> set (sent_reply (saga_of ?subject ?data) sq) \<and>
         (\<exists>x. mail_of ?subject ?data = Some x \<and> smtp_mail mlr x \<in> set (sm_sent (committed v')))"
    using conjunct1 [OF conjunct2 [OF post]] by (elim exE conjE)
  note ack = conjunct2 [OF conjunct2 [OF post]]
  show "verdict = Ack \<Longrightarrow> handled mlr s1 m"
    using ack unfolding handled_def s1 by auto
  have reply: "reply_ok mlr s1 msg" if new: "msg \<in> set msgs" "msg_subject msg = SubjectEmailSent" for msg
  proof -
    obtain x where x: "msg \<in> set (sent_reply (saga_of (msg_subject m) (msg_data m)) sq)"
      "mail_of (msg_subject m) (msg_data m) = Some x" "smtp_mail mlr x \<in> set (accepted s1)"
      using msgs(2) new by (auto simp: s1)
    then have "saga_of (msg_subject m) (msg_data m) \<noteq> ''''"
      "msg_data msg = Marshal_EmailSent \<lparr>es_SagaID = saga_of (msg_subject m) (msg_data m)\<rparr>"
      by (auto simp: sent_reply_def split: if_splits)
    then show ?thesis
      using queue_reply [OF inv m x(2)] x(3) unfolding reply_ok_def by (auto simp: s1)
  qed
  show "net_inv mlr s1"
  proof (rule net_inv_outside [OF inv])
    show "queue_ok s1" "mon_ok s1" "discards_ok s1"
      using inv by (simp_all add: net_inv_def s1 queue_ok_def mon_ok_def discards_ok_def)
    have same: "justified s1 x = justified s x" for x by (cases x) (simp_all add: s1)
    show "\<exists>x. smtp_meant mlr x y \<and> justified s1 x" if "y \<in> set (accepted s1) - set (accepted s)" for y
      using that mails queue_mail_justified [OF inv m] unfolding same by (auto simp: s1)
    show "reply_ok mlr s1 msg"
      if "msg \<in> set (replies s1) - set (replies s)" "msg_subject msg = SubjectEmailSent" for msg
      using that reply [of msg] msgs(1) by (auto simp: s1)
  qed (simp_all add: s1 mails(1) msgs(1))
qed

lemma net_inv_take:
  assumes "net_inv mlr s" "(m, k) \<in> set (queue s)"
  shows "net_inv mlr (again m k s)" "handled mlr s m \<Longrightarrow> net_inv mlr (settle m k s)"
proof -
  have q: "queue_ok s" "mon_ok (again m k s)" "mon_ok (settle m k s)" "discards_ok (again m k s)" "discards_ok (settle m k s)"
    using assms(1) by (auto simp: net_inv_def intro: keep_mon keep_discards)
  show "net_inv mlr (again m k s)"
    by (rule net_inv_outside [OF assms(1)]) (simp_all add: queue_ok_again [OF q(1) assms(2)] q)
  show "net_inv mlr (settle m k s)" if "handled mlr s m"
    by (rule net_inv_outside [OF assms(1)])
      (use that in \<open>auto simp: queue_ok_settle [OF q(1) assms(2)] q(3,5) handled_def, simp_all add: settle_def\<close>)
qed

lemma net_inv_discard:
  assumes inv: "net_inv mlr s" and m: "(m, t) \<in> set (ns_stored s)"
    and limit: "t + sc_MaxAge notifications_stream \<le> ns_clock s \<or> sc_MaxBytes notifications_stream < held_bytes s"
  shows "net_inv mlr (discard m t s)"
proof -
  have "queue_ok s" "mon_ok s" "discards_ok s" using inv by (simp_all add: net_inv_def)
  then have "queue_ok (discard m t s)" "mon_ok (discard m t s)" "discards_ok (discard m t s)"
    using queue_ok_discard keep_mon [of s "discard m t s"] discards_ok_discard [OF _ m limit] by simp_all
  then show ?thesis
    by (intro net_inv_outside [OF inv]) simp_all
qed

section \<open>The monitoring service\<close>

lemma Unmarshal_ReleaseFound_same: "Unmarshal_ReleaseFound (Marshal_ReleaseFound ev) = Some rf \<Longrightarrow> rf = ev"
  by (auto simp: Unmarshal_ReleaseFound_def Marshal_ReleaseFound_def json_simps split: if_splits)

lemma announced_heard:
  assumes "mon_ok s" "m \<in> set (announced s)"
  shows "heard (found s) (EvFanout (msg_data m))"
proof -
  obtain row where "row \<in> set (ob_rows (monitoring_outbox (mon s)))" "msg_data m = ob_Payload row"
    using assms unfolding mon_ok_def relay_inv_def stored_enqueued_def by (force simp: msg_of_def)
  then obtain i name r where r: "msg_data m = event_for i name r" "(i, name, r) \<in> set (found s)"
    using assms(1) unfolding mon_ok_def by fastforce
  show ?thesis
    unfolding heard_def
  proof (intro allI impI)
    fix data rf assume "EvFanout (msg_data m) = EvFanout data" "Unmarshal_ReleaseFound data = Some rf"
    then have "rf = \<lparr>rf_RepoID = i, rf_RepoName = name, rf_ReleaseTag = gr_Tag r, rf_ReleaseName = gr_Name r,
        rf_ReleaseURL = gr_URL r\<rparr>"
      using r(1) by (auto simp: event_for_def found_event_def dest: Unmarshal_ReleaseFound_same)
    then show "found_release (found s) rf" using r(2) by (auto simp: found_release_def)
  qed
qed

lemma scanned:
  assumes "mon_ok s" "committed w = mon s" "txn w = None" "(mr_ID repo, mr_FullName repo) \<in> set (tracked s)"
    and "mr_LastSeenTag repo = cursor_of (mon s) (mr_ID repo)"
    and s': "s' = s\<lparr>mon := run_db (processRepository (\<lambda>_. answer)
        (client_UpdateLastSeenTagAtomic UpdateLastSeenTagAtomic) Monitoring.Enqueue repo) w,
      found := (case answer of Inl e \<Rightarrow> [] | Inr r \<Rightarrow> [(mr_ID repo, mr_FullName repo, r)]) @ found s\<rparr>"
  shows "mon_ok s'"
proof -
  let ?d = "mon s" and ?d' = "mon s'"
  have post: "monitoring_outbox ?d' = monitoring_outbox ?d \<or>
      (\<exists>rel. getLatestRelease (\<lambda>_. answer) repo = Inr (Some rel) \<and> monitoring_outbox ?d' =
         insert_row SubjectReleaseFound (event_for (mr_ID repo) (mr_FullName repo) rel) (monitoring_outbox ?d))"
    using mon_cursors.process_post [of w repo "\<lambda>_. answer"] assms(2,3,5)
    by (auto simp: wp_run run_db_world s' event_for_def)
  have more: "set (found s) \<subseteq> set (found s')" "tracked s' = tracked s" "announced s' = announced s"
    by (auto simp: s')
  have old: "\<exists>i name r. ob_Payload row = event_for i name r \<and> (i, name, r) \<in> set (found s')"
    if "row \<in> set (ob_rows (monitoring_outbox ?d))" for row
    using assms(1) that more(1) unfolding mon_ok_def by blast
  have rows: "\<exists>i name r. ob_Payload row = event_for i name r \<and> (i, name, r) \<in> set (found s')"
    if row: "row \<in> set (ob_rows (monitoring_outbox ?d'))" for row
    using post
  proof
    assume "monitoring_outbox ?d' = monitoring_outbox ?d"
    then show ?thesis using old row by simp
  next
    assume "\<exists>rel. getLatestRelease (\<lambda>_. answer) repo = Inr (Some rel) \<and> monitoring_outbox ?d' =
      insert_row SubjectReleaseFound (event_for (mr_ID repo) (mr_FullName repo) rel) (monitoring_outbox ?d)"
    then obtain rel where "answer = Inr rel" "monitoring_outbox ?d' =
      insert_row SubjectReleaseFound (event_for (mr_ID repo) (mr_FullName repo) rel) (monitoring_outbox ?d)"
      by (auto simp: getLatestRelease_def split: sum.splits if_splits)
    then consider "row \<in> set (ob_rows (monitoring_outbox ?d))"
      | "ob_Payload row = event_for (mr_ID repo) (mr_FullName repo) rel"
      using row by (auto simp: insert_row_def)
    then show ?thesis
    proof cases
      case 2
      then show ?thesis
        using \<open>answer = Inr rel\<close>
        by (intro exI [of _ "mr_ID repo"] exI [of _ "mr_FullName repo"] exI [of _ rel]) (simp add: s')
    qed (rule old)
  qed
  have "relay_inv mon_msgID (monitoring_outbox ?d') (announced s')"
    using assms(1) post relay_inv_insert unfolding mon_ok_def more(3) by (elim disjE exE conjE) simp_all
  moreover have "(i, name) \<in> set (tracked s')" if "(i, name, r) \<in> set (found s')" for i name r
    using that assms(1,4) by (auto simp: s' mon_ok_def split: sum.splits)
  ultimately show ?thesis
    using rows unfolding mon_ok_def by blast
qed

lemma mark_rows_payload:
  assumes "row \<in> set (ob_rows (mark_rows ids now t))"
  shows "\<exists>row' \<in> set (ob_rows t). ob_Payload row' = ob_Payload row"
proof -
  have "map ob_Payload (ob_rows (mark_rows ids now t)) = map ob_Payload (ob_rows t)"
    unfolding mark_rows_def by (simp add: map_update_where)
  then have "ob_Payload row \<in> ob_Payload ` set (ob_rows t)"
    using assms by (metis imageI list.set_map)
  then show ?thesis by (auto simp: image_iff)
qed

lemma announcing:
  assumes "mon_ok s" "committed w = mon s" "txn w = None" "stream w = announced s"
    and w': "run_world mon_publishPending w = w'"
  shows "mon_ok (s\<lparr>mon := committed w', announced := stream w'\<rparr>)"
proof -
  have "relay_inv mon_msgID (monitoring_outbox (committed w')) (stream w')"
    using mon_relay.tick_inv [OF assms(3), of mon_msgID] assms(1,2,4) w'
    by (simp add: wp_run mon_publishPending_def mon_ok_def)
  moreover have "\<exists>row' \<in> set (ob_rows (monitoring_outbox (mon s))). ob_Payload row' = ob_Payload row"
    if "row \<in> set (ob_rows (monitoring_outbox (committed w')))" for row
    using mon_relay.tick_post [OF assms(3), of mon_msgID] assms(2) w' that
    by (auto simp: wp_run mon_publishPending_def dest: mark_rows_payload)
  ultimately show ?thesis
    using assms(1) unfolding mon_ok_def by simp metis
qed

section \<open>All steps\<close>

lemma net_inv_step:
  assumes "net_step rfc3339 mlr s s'" "net_inv mlr s"
  shows "net_inv mlr s'"
  using assms(1)
proof (cases rule: net_step.cases)
  case (net_subscribe w sub repoName ttl sagaID)
  then show ?thesis using net_inv_subscribe [OF assms(2)] by blast
next
  case (net_confirm token t)
  then show ?thesis using net_inv_sys [OF assms(2) net_confirm(2), of "token # answered s"] by (auto simp: heard_def)
next
  case (net_internal ev t)
  then have "heard (found s) ev" by (auto simp: heard_def)
  then show ?thesis using net_inv_sys [OF assms(2) net_internal(2), of "answered s"] net_internal by fastforce
next
  case (net_relay w w')
  then show ?thesis using net_inv_relay [OF assms(2)] by blast
next
  case (net_list w repos)
  show ?thesis
    by (rule net_inv_outside [OF assms(2)])
      (use net_list assms(2) in \<open>auto simp: queue_ok_def net_inv_def mon_ok_def discards_ok_def\<close>)
next
  case (net_scan w repo answer)
  have "mon_ok s" "queue_ok s" "discards_ok s" using assms(2) by (simp_all add: net_inv_def)
  note ok = scanned [OF this(1) net_scan(2-5) net_scan(1)] this(2,3)
  show ?thesis
    by (rule net_inv_outside [OF assms(2)]) (use ok in \<open>auto simp: net_scan(1) queue_ok_def discards_ok_def\<close>)
next
  case (net_announce w w')
  have "mon_ok s" "queue_ok s" "discards_ok s" using assms(2) by (simp_all add: net_inv_def)
  note ok = announcing [OF this(1) net_announce(2-5)] this(2,3)
  show ?thesis
    by (rule net_inv_outside [OF assms(2)]) (use ok in \<open>auto simp: net_announce(1) queue_ok_def discards_ok_def\<close>)
next
  case (net_fanout m t)
  have "mon_ok s" using assms(2) by (simp add: net_inv_def)
  then show ?thesis
    using net_inv_sys [OF assms(2) net_fanout(3), of "answered s"] announced_heard [OF _ net_fanout(2)] net_fanout(1)
    by simp
next
  case (net_auth m)
  have q: "queue_ok s" "mon_ok s" "discards_ok s" using assms(2) by (simp_all add: net_inv_def)
  have "discards_ok s'" by (rule keep_discards [OF q(3)]) (auto simp: net_auth(1))
  with q net_auth show ?thesis
    by (intro net_inv_outside [OF assms(2)]) (auto simp: queue_ok_def maxDeliver_def mon_ok_def)
next
  case (net_tick d)
  show ?thesis
    by (rule net_inv_outside [OF assms(2)])
      (use net_tick assms(2) in \<open>auto simp: queue_ok_def net_inv_def mon_ok_def discards_ok_def\<close>)
next
  case (net_aged m t)
  then show ?thesis using net_inv_discard [OF assms(2)] by simp
next
  case (net_overflow m t)
  then show ?thesis using net_inv_discard [OF assms(2), of m t] find_SomeD [OF net_overflow(2)] by simp
next
  case (net_deliver m k v sq verdict v' s1)
  note d = delivery [OF assms(2) net_deliver(1-4,5)]
  have m: "(m, k) \<in> set (queue s1)" using net_deliver(1,5) by simp
  show ?thesis
    using net_deliver(6) net_inv_take [OF d(1) m] d(2) by (auto split: if_splits)
next
  case (net_lost m k)
  then show ?thesis using net_inv_take(1) [OF assms(2)] by blast
next
  case (net_sent msg ev t)
  then show ?thesis using net_inv_sys [OF assms(2) net_sent(5), of "answered s"] by (fastforce simp: heard_def)
next
  case (net_failed msg ev t)
  then show ?thesis using net_inv_sys [OF assms(2) net_failed(5), of "answered s"] by (fastforce simp: heard_def)
qed

lemma net_reachable_inv: "net_reachable rfc3339 mlr s \<Longrightarrow> net_inv mlr s"
  by (induction rule: net_reachable.induct) (auto intro: net_inv_init net_inv_step)

end
