(* ===== verification/Consent.thy ===== *)
theory Consent
  imports NetworkInvariant Journey
begin

text \<open>
  What the services guarantee together, whatever fails and however their steps interleave: nobody is
  mailed who did not ask for it, a saga that awaits its confirmation has been mailed, and no event is
  lost before its fifth delivery unless its stream discards it. A run through the whole system shows that the
  states exist.
\<close>

section \<open>A run\<close>

definition net_repo :: net where
  "net_repo = init_net\<lparr>service := sys_of db_repo\<rparr>"

lemma step_net_repo: "net_step rfc3339 mlr init_net net_repo"
  using net_internal [of init_net "EvRepoCreate ''o/r''" "sys_of db_repo"] repo_step
  by (simp add: net_repo_def init_net_def)

lemmas reach_net_repo = net_next [OF net_start step_net_repo]

definition payload_a :: bytes where
  "payload_a = confirmation_payload ''sa'' ''a@x.y'' ''o/r'' ''ca''"

definition db_asked :: sub_db where
  "db_asked = created ''sa'' sub_a payload_a 0 0 db_repo"

lemma creatable_a: "creatable db_repo ''sa'' sub_a"
  by (simp add: creatable_def db_repo_def empty_sub_db_def sub_a_def varchar255_short token_clash_def pair_taken_def)

lemma db_asked_simps [simp]:
  "subscriptions db_asked = [pending_a]" "subscribe_sagas db_asked = [row_a]"
  "ob_rows (outbox db_asked) = [\<lparr>ob_ID = 1, ob_Subject = SubjectConfirmation, ob_Payload = payload_a, ob_PublishedAt = None\<rparr>]"
  by (simp_all add: db_asked_def created_def db_repo_def empty_sub_db_def new_subscription_row_def sub_a_def
      pending_a_def row_a_def insert_row_def)

definition net_asked :: net where
  "net_asked = net_repo\<lparr>service := sys_of db_asked, asked := [(sub_a, ''o/r'')]\<rparr>"

lemma run_create_a: "run_db (createAndEnqueue 0 ''sa'' sub_a payload_a) (world_of (sys_of db_repo)) = db_asked"
  using calm_create_ok [of "world_of (sys_of db_repo)" "''sa''" sub_a 0 payload_a] creatable_a
  by (simp add: wp_run run_db_world next_drift_def db_asked_def)

lemma step_net_asked: "net_step rfc3339 mlr net_repo net_asked"
  using net_subscribe [where w = "world_of (sys_of db_repo)" and s = net_repo and ttl = 0 and sagaID = "''sa''"
      and sub = sub_a and repoName = "''o/r''"] run_create_a
  by (simp add: net_repo_def net_asked_def payload_a_def sub_a_def init_net_def)

lemmas reach_net_asked = net_next [OF reach_net_repo step_net_asked]

definition msg_a :: js_msg where
  "msg_a = \<lparr>msg_subject = SubjectConfirmation, msg_data = payload_a, msg_id = sub_msgID 1\<rparr>"

definition mail_a :: mail where
  "mail_a = ConfirmationMail ''a@x.y'' ''o/r'' ''ca''"

lemma mail_of_a: "mail_of SubjectConfirmation payload_a = Some mail_a" "saga_of SubjectConfirmation payload_a = ''sa''"
  by (simp_all add: payload_a_def confirmation_payload_def mail_of_def saga_of_def mail_a_def)

definition net_sent_on :: "(outbox_table \<Rightarrow> outbox_table) \<Rightarrow> net" where
  "net_sent_on f = net_asked\<lparr>service := sys_of (outbox_update f db_asked), published := [msg_a], queue := [(msg_a, 0)],
     ns_stored := [(msg_a, 0)]\<rparr>"

lemma step_net_published: "\<exists>f. net_step rfc3339 mlr net_asked (net_sent_on f)"
proof -
  let ?w = "world_of (sys_of db_asked)" and ?row = "\<lparr>ob_ID = 1, ob_Subject = SubjectConfirmation, ob_Payload = payload_a, ob_PublishedAt = None\<rparr>"
  let ?w' = "run_world sub_publishPending ?w"
  have "pending (outbox (committed ?w)) = [?row]" by (simp add: pending_def)
  note relay = calm_relay_single [OF _ this, unfolded wp_run]
  obtain f where f: "committed ?w' = outbox_update f db_asked" "stream ?w' = [msg_a]"
    using relay by (auto simp: msg_of_def OutboxRow.defs msg_a_def world_of_def)
  have "net_step rfc3339 mlr net_asked (store (drop (length (published net_asked)) (stream ?w'))
      (net_asked\<lparr>service := (service net_asked)\<lparr>sdb := committed ?w'\<rparr>, published := stream ?w'\<rparr>))"
    by (rule net_relay) (simp_all add: net_asked_def net_repo_def init_net_def world_of_def runs_at_def)
  then show ?thesis by (auto simp: net_sent_on_def f net_asked_def net_repo_def init_net_def store_def)
qed

text \<open>The mail is accepted and the reply published.\<close>

definition net_mailed :: "Mailer \<Rightarrow> (outbox_table \<Rightarrow> outbox_table) \<Rightarrow> net" where
  "net_mailed mlr f = settle msg_a 0 ((net_sent_on f)\<lparr>accepted := [smtp_mail mlr mail_a], replies := sent_reply ''sa'' 1\<rparr>)"

lemma step_net_mailed: "net_step rfc3339 mlr (net_sent_on f) (net_mailed mlr f)"
proof -
  let ?v = "calm_world (smtp_up []) 0 []" and ?h = "consume rfc3339 (smtp_mailer mlr) SubjectConfirmation payload_a
    (Some \<lparr>mm_NumDelivered = Suc 0, mm_StreamSeq = 1\<rparr>)"
  let ?v' = "run_world ?h ?v"
  have v: "run_result ?h ?v = Ack" "sm_sent (committed ?v') = [smtp_mail mlr mail_a]"
    "stream ?v' = sent_reply ''sa'' 1"
    using calm_consume [of ?v SubjectConfirmation payload_a mail_a rfc3339 mlr "Suc 0" 1] mail_of_a
    by (simp_all add: smtp_up_def wp_run)
  have run: "run_state ?h ?v = (Ack, ?v')" using v(1) by (simp add: run_result_def run_world_def prod_eq_iff)
  show ?thesis
    by (rule net_deliver [where m = msg_a and k = 0 and v = ?v and sq = 1 and verdict = Ack and v' = ?v'
          and ?s1.0 = "(net_sent_on f)\<lparr>accepted := [smtp_mail mlr mail_a], replies := sent_reply ''sa'' 1\<rparr>"])
      (use run v in \<open>simp_all add: net_mailed_def net_sent_on_def msg_a_def net_asked_def net_repo_def init_net_def smtp_up_def\<close>)
qed

text \<open>The saga is advanced by it.\<close>

lemma reach_net_awaiting:
  "\<exists>s. net_reachable rfc3339 mlr s \<and> accepted s = [smtp_mail mlr mail_a] \<and> published s = [msg_a] \<and> settled s = [msg_a] \<and>
     subscriptions (ndb s) = [pending_a] \<and> subscribe_sagas (ndb s) = [row_a\<lparr>sg_State := StateAwaitingConfirmation\<rparr>]"
proof -
  obtain f where "net_step rfc3339 mlr net_asked (net_sent_on f)" using step_net_published by blast
  note r2 = net_next [OF net_next [OF reach_net_asked this] step_net_mailed]
  let ?d = "outbox_update f db_asked" and ?s2 = "net_mailed mlr f"
  have "run_db (HandleEmailSent ''sa'') (world_of (sys_of ?d)) = set_saga_state 1 StateAwaitingConfirmation None ?d"
    using calm_HandleEmailSent [of "world_of (sys_of ?d)" "''sa''" row_a]
    by (simp add: wp_run run_db_world saga_by_id_def) (simp add: row_a_def)
  then have "sys_step (sys_of ?d) (EvEmailSent ''sa'') (sys_of (set_saga_state 1 StateAwaitingConfirmation None ?d))"
    using step_sent [of "world_of (sys_of ?d)" "sys_of ?d" "''sa''"] by simp
  then have "net_step rfc3339 mlr ?s2 (?s2\<lparr>service := sys_of (set_saga_state 1 StateAwaitingConfirmation None ?d)\<rparr>)"
    by (intro net_sent [where msg = "hd (sent_reply ''sa'' 1)" and ev = "\<lparr>es_SagaID = ''sa''\<rparr>"])
      (simp_all add: net_mailed_def net_sent_on_def sent_reply_def)
  note r3 = net_next [OF r2 this]
  show ?thesis
    by (intro exI conjI, rule r3)
      (simp_all add: net_mailed_def net_sent_on_def settle_def set_saga_state_def row_a_def net_asked_def net_repo_def init_net_def)
qed

text \<open>While the notification service is down for a day a message is discarded: its event is marked as
  published, and nobody is mailed or told.\<close>

lemma stale_message_is_discarded:
  "\<exists>s. net_reachable rfc3339 mlr s \<and> published s = [msg_a] \<and> queue s = [] \<and> exhausted s = [] \<and> settled s = [] \<and>
     accepted s = [] \<and> replies s = []"
proof -
  let ?day = "24 * 60 * 60 :: nat"
  obtain f where "net_step rfc3339 mlr net_asked (net_sent_on f)" using step_net_published by blast
  note late = net_next [OF net_next [OF reach_net_asked this] net_tick [where d = ?day]]
  let ?s = "(net_sent_on f)\<lparr>ns_clock := ns_clock (net_sent_on f) + ?day\<rparr>"
  have "net_step rfc3339 mlr ?s (discard msg_a 0 ?s)"
    by (rule net_aged) (simp_all add: held_def net_sent_on_def notifications_stream_def hour_def net_asked_def
        net_repo_def init_net_def)
  from net_next [OF late this] show ?thesis
    by (intro exI conjI, assumption)
      (simp_all add: discard_def net_sent_on_def net_asked_def net_repo_def init_net_def)
qed

section \<open>The properties\<close>

text \<open>C3: nobody is mailed who did not ask for it. In every reachable state of the whole system,
  whatever fails, is repeated or lost, each mail the server has accepted comes from the configured
  sender and is complete or empty, and: a confirmation mail goes to the address somebody asked to
  subscribe with, for this repository and with the token made for this request; a release mail goes to
  the address of a request whose own confirmation token was sent back, with its unsubscribe token, and
  its release is one that GitHub reported for the very repository of this request; a verification mail was published by the auth service.\<close>

theorem mails_were_asked_for:
  assumes "net_reachable rfc3339 mlr s" "(sender, to, text) \<in> set (accepted s)"
  shows "\<exists>x. sender = m_fromEmail mlr \<and> to = mail_to x \<and>
    text \<in> {mail_text mlr to (mail_subject x) (mail_body mlr x), []} \<and>
    (case x of
       ConfirmationMail email repoName token \<Rightarrow>
         \<exists>sub. (sub, repoName) \<in> set (asked s) \<and> sb_Email sub = email \<and> sb_ConfirmToken sub = token
     | ReleaseMail email unsubscribeToken tag name url \<Rightarrow>
         \<exists>(sub, repoName) \<in> set (asked s). sb_Email sub = email \<and> sb_UnsubscribeToken sub = unsubscribeToken \<and>
           sb_ConfirmToken sub \<in> set (answered s) \<and>
           (\<exists>(i, repoName', r) \<in> set (found s). i = sb_RepositoryID sub \<and> (i, repoName') \<in> set (tracked s) \<and>
              tag = gr_Tag r \<and> name = gr_Name r \<and> url = gr_URL r)
     | VerificationMail email token \<Rightarrow>
         \<exists>m \<in> set (verifying s). mail_of (msg_subject m) (msg_data m) = Some (VerificationMail email token))"
proof -
  obtain x where x: "smtp_meant mlr x (sender, to, text)" "justified s x"
    using net_reachable_inv [OF assms(1)] assms(2) by (auto simp: net_inv_def mails_ok_def)
  have "(i, name) \<in> set (tracked s)" if "(i, name, r) \<in> set (found s)" for i name r
    using net_reachable_inv [OF assms(1)] that by (auto simp: net_inv_def mon_ok_def)
  with x show ?thesis
    by (intro exI [of _ x]) (cases x; fastforce simp: smtp_meant_def smtp_mail_def consented_def)
qed

theorem mails_were_asked_for_witness:
  "\<exists>s. net_reachable (\<lambda>_. '''') demo_mailer s \<and> (\<exists>text. (''f@x.y'', ''a@x.y'', text) \<in> set (accepted s)) \<and>
     (asked s \<noteq> [] \<or> verifying s \<noteq> [])"
proof -
  obtain s where s: "net_reachable (\<lambda>_. '''') demo_mailer s" "accepted s = [smtp_mail demo_mailer mail_a]"
    using reach_net_awaiting by blast
  then have a: "(''f@x.y'', ''a@x.y'', snd (snd (smtp_mail demo_mailer mail_a))) \<in> set (accepted s)"
    by (simp add: smtp_mail_def demo_mailer_def NewMailer_def mail_a_def)
  have "asked s \<noteq> [] \<or> verifying s \<noteq> []"
    using mails_were_asked_for [OF s(1) a] by (elim exE conjE) (auto split: mail.split_asm)
  then show ?thesis using s(1) a by blast
qed

text \<open>C20: a saga that awaits its confirmation has been mailed: in every reachable state the mail server
  has accepted the confirmation mail to the address of its subscription, with exactly the token that
  confirms this subscription.\<close>

theorem awaiting_saga_was_mailed:
  assumes "net_reachable rfc3339 mlr s" "g \<in> set (subscribe_sagas (ndb s))" "sg_State g = StateAwaitingConfirmation"
    and "x \<in> set (subscriptions (ndb s))" "sb_ID x = sg_SubscriptionID g"
  shows "\<exists>repoName. smtp_mail mlr (ConfirmationMail (sb_Email x) repoName (sb_ConfirmToken x)) \<in> set (accepted s)"
proof -
  have "saga_mailed mlr s g"
    using net_reachable_inv [OF assms(1)] assms(2,3) by (simp add: net_inv_def awaiting_ok_def)
  then show ?thesis
    using assms(4,5) unfolding saga_mailed_def saga_token_def by auto
qed

theorem awaiting_saga_was_mailed_witness:
  "\<exists>s repoName. net_reachable (\<lambda>_. '''') demo_mailer s \<and>
     smtp_mail demo_mailer (ConfirmationMail ''a@x.y'' repoName ''ca'') \<in> set (accepted s)"
proof -
  obtain s where s: "net_reachable (\<lambda>_. '''') demo_mailer s" "subscriptions (ndb s) = [pending_a]"
    "subscribe_sagas (ndb s) = [row_a\<lparr>sg_State := StateAwaitingConfirmation\<rparr>]"
    using reach_net_awaiting by blast
  show ?thesis
    using awaiting_saga_was_mailed [OF s(1), of "row_a\<lparr>sg_State := StateAwaitingConfirmation\<rparr>" pending_a] s
    by (auto simp: pending_a_def row_a_def)
qed

text \<open>C28: an event is lost on its way only at the limits of its stream or after five deliveries, whatever
  else fails: in every reachable state each row of the outbox of the subscription service decodes to a mail, and
  it is not published yet; or JetStream has stored its message and still holds it for one of its five deliveries;
  or its mail has been accepted; or its dead letter has been published; or five deliveries
  were made without an acknowledgement; or the stream discarded it, as stored at least 24 hours before, or
  when the messages held took more than 512 MB.\<close>

theorem events_are_not_lost:
  assumes "net_reachable rfc3339 mlr s" "row \<in> set (ob_rows (outbox (ndb s)))"
  shows "\<exists>x. mail_of (ob_Subject row) (ob_Payload row) = Some x \<and>
    (ob_PublishedAt row = None \<or>
     (\<exists>m \<in> set (published s). msg_subject m = ob_Subject row \<and> msg_data m = ob_Payload row \<and>
        ((\<exists>k < 5. (m, k) \<in> set (queue s)) \<or> smtp_mail mlr x \<in> set (accepted s) \<or>
         (\<exists>reason n at sq. dead_msg (dead_letter (ob_Subject row) (ob_Payload row) reason n at) sq \<in> set (replies s)) \<or>
         m \<in> set (exhausted s) \<or>
         (\<exists>t now bytes. (m, t, now, bytes) \<in> set (ns_discarded s) \<and> (m, t) \<in> set (ns_stored s) \<and>
            (t + 24 * 60 * 60 \<le> now \<or> 512 * 1024 * 1024 < bytes)))))"
proof -
  have inv: "relay_inv sub_msgID (outbox (ndb s)) (published s)" "queue_ok s" "settled_ok mlr s"
    "\<And>e. e \<in> events (ndb s) \<Longrightarrow> row_ok (asked s) (answered s) (found s) (ndb s) e" "discards_ok s"
    using net_reachable_inv [OF assms(1)] by (simp_all add: net_inv_def tables_ok_def)
  let ?gone = "\<lambda>m. \<exists>t now bytes. (m, t, now, bytes) \<in> set (ns_discarded s) \<and> (m, t) \<in> set (ns_stored s) \<and>
    (t + 24 * 60 * 60 \<le> now \<or> 512 * 1024 * 1024 < bytes)"
  have gone: "?gone m" if "m \<in> fst ` set (ns_discarded s)" for m
    using that inv(5) unfolding discards_ok_def notifications_stream_def hour_def by fastforce
  have "(ob_Subject row, ob_Payload row) \<in> events (ndb s)" using assms(2) by (auto simp: events_def)
  then obtain x where x: "mail_of (ob_Subject row) (ob_Payload row) = Some x"
    using inv(4) by (fastforce simp: row_ok_def mail_of_def confirmation_payload_def)
  show ?thesis
  proof (cases "ob_PublishedAt row = None")
    case True
    then show ?thesis using x by blast
  next
    case False
    then obtain m where m: "m \<in> set (published s)" "msg_subject m = ob_Subject row" "msg_data m = ob_Payload row"
      using inv(1) assms(2) by (force simp: relay_inv_def marked_stored_def msg_of_def)
    have handled: "smtp_mail mlr x \<in> set (accepted s) \<or>
        (\<exists>reason n at sq. dead_msg (dead_letter (ob_Subject row) (ob_Payload row) reason n at) sq \<in> set (replies s))"
      if "handled mlr s m"
      using that x mail_known [OF x] m(2,3) unfolding handled_def by auto
    have "m \<in> fst ` set (queue s) \<or> m \<in> set (settled s) \<or> m \<in> set (exhausted s) \<or> m \<in> fst ` set (ns_discarded s)"
      using inv(2) m(1) by (simp add: queue_ok_def)
    then consider k where "(m, k) \<in> set (queue s)" "k < 5" | "handled mlr s m" | "m \<in> set (exhausted s)"
      | "m \<in> fst ` set (ns_discarded s)"
      using inv(2,3) by (fastforce simp: queue_ok_def settled_ok_def maxDeliver_def)
    then have "(\<exists>k < 5. (m, k) \<in> set (queue s)) \<or> smtp_mail mlr x \<in> set (accepted s) \<or>
        (\<exists>reason n at sq. dead_msg (dead_letter (ob_Subject row) (ob_Payload row) reason n at) sq \<in> set (replies s)) \<or>
        m \<in> set (exhausted s) \<or> ?gone m"
    proof cases
      case 2
      then show ?thesis using handled by (elim meta_impE disjE) simp_all
    next
      case 4
      then show ?thesis using gone by simp
    qed auto
    with m show ?thesis
      by - (rule exI [of _ x], rule conjI [OF x], rule disjI2, rule bexI [of _ m], intro conjI, simp_all)
  qed
qed

theorem events_are_not_lost_witness:
  "net_reachable (\<lambda>_. '''') demo_mailer net_asked \<and> mail_of SubjectConfirmation payload_a = Some mail_a"
  using events_are_not_lost [OF reach_net_asked [of "\<lambda>_. ''''" demo_mailer], of "hd (ob_rows (outbox db_asked))"]
    reach_net_asked mail_of_a(1)
  by (simp add: net_asked_def)

end
