(* ===== verification/Background.thy ===== *)
theory Background
  imports Http
begin

text \<open>
  What runs in the background of the subscription service beside its relay, consumers and reaper: the
  refresh of the signing key (\<^verbatim>\<open>authclient.Run\<close>), the collector of pool statistics
  (\<^verbatim>\<open>metrics.CollectDBStats\<close>), and the metrics a scan reports (\<^verbatim>\<open>observeScan\<close>). A loop
  is given by what its ticks find until the context ends. Counts are integers and the waiting time is in
  nanoseconds: the conversion to floating point is not modelled. \<^verbatim>\<open>Counter.Add\<close> panics on a negative
  value; a panic is \<open>None\<close>.
\<close>

section \<open>Refreshing the key\<close>

fun Client_Run :: "key_codec \<Rightarrow> (string + signing_key) list \<Rightarrow> Client \<Rightarrow> Client" where
  "Client_Run kc [] c = c"
| "Client_Run kc (resp # ticks) c = Client_Run kc ticks (snd (Client_Load kc resp c))"

definition loaded_key :: "key_codec \<Rightarrow> string + signing_key \<Rightarrow> string option" where
  "loaded_key kc resp =
     (case resp of
        Inl e \<Rightarrow> None
      | Inr sk \<Rightarrow> (case parsePublicKeyPEM kc (sk_PublicKeyPem sk) of Inl e \<Rightarrow> None | Inr k \<Rightarrow> Some k))"

lemma Client_Load_key:
  "ct_key (snd (Client_Load kc resp c)) = (case loaded_key kc resp of None \<Rightarrow> ct_key c | Some k \<Rightarrow> Some k)"
  by (simp add: Client_Load_def loaded_key_def split: sum.splits)

lemma Client_Load_error: "fst (Client_Load kc resp c) = None \<longleftrightarrow> loaded_key kc resp \<noteq> None"
  by (simp add: Client_Load_def loaded_key_def split: sum.splits)

text \<open>The key is the one of the last refresh that worked: failures keep it.\<close>

lemma Client_Run_key:
  "ct_key (Client_Run kc ticks c) =
     (case List.map_filter (loaded_key kc) ticks of [] \<Rightarrow> ct_key c | ks \<Rightarrow> Some (last ks))"
proof (induction ticks arbitrary: c)
  case (Cons resp ticks)
  then show ?case
    by (cases "loaded_key kc resp") (auto simp: Client_Load_key map_filter_simps split: list.splits)
qed (simp add: map_filter_simps)

lemma refresh_keeps_key: "ct_key c \<noteq> None \<Longrightarrow> Client_Key (Client_Run kc ticks c) \<noteq> Inl e"
  by (auto simp: Client_Key_def Client_Run_key split: option.splits list.splits)

section \<open>Pool statistics\<close>

record pool_stat =
  ps_TotalConns :: int
  ps_AcquiredConns :: int
  ps_IdleConns :: int
  ps_MaxConns :: int
  ps_EmptyAcquireCount :: int
  ps_EmptyAcquireWaitTime :: int
  ps_CanceledAcquireCount :: int

record pool_metrics =
  DBPoolTotalConns :: int
  DBPoolAcquiredConns :: int
  DBPoolIdleConns :: int
  DBPoolMaxConns :: int
  DBPoolEmptyAcquireTotal :: int
  DBPoolEmptyAcquireWaitTotal :: int
  DBPoolCanceledAcquireTotal :: int

definition new_pool_metrics :: pool_metrics where
  "new_pool_metrics = \<lparr>DBPoolTotalConns = 0, DBPoolAcquiredConns = 0, DBPoolIdleConns = 0, DBPoolMaxConns = 0,
     DBPoolEmptyAcquireTotal = 0, DBPoolEmptyAcquireWaitTotal = 0, DBPoolCanceledAcquireTotal = 0\<rparr>"

definition counter_Add :: "int \<Rightarrow> int \<Rightarrow> int option" where
  "counter_Add c v = (if v < 0 then None else Some (c + v))"

text \<open>One tick, with the previous values of the three totals.\<close>

definition collect_tick :: "pool_stat \<Rightarrow> (int \<times> int \<times> int) \<times> pool_metrics \<Rightarrow> ((int \<times> int \<times> int) \<times> pool_metrics) option" where
  "collect_tick stat s =
     (case s of ((prevEmptyAcquire, prevEmptyWait, prevCanceled), m) \<Rightarrow>
        (let m = m\<lparr>DBPoolTotalConns := ps_TotalConns stat, DBPoolAcquiredConns := ps_AcquiredConns stat,
                   DBPoolIdleConns := ps_IdleConns stat, DBPoolMaxConns := ps_MaxConns stat\<rparr> in
         case counter_Add (DBPoolEmptyAcquireTotal m) (ps_EmptyAcquireCount stat - prevEmptyAcquire) of
           None \<Rightarrow> None
         | Some acquires \<Rightarrow>
             (case counter_Add (DBPoolEmptyAcquireWaitTotal m) (ps_EmptyAcquireWaitTime stat - prevEmptyWait) of
                None \<Rightarrow> None
              | Some wait \<Rightarrow>
                  (case counter_Add (DBPoolCanceledAcquireTotal m) (ps_CanceledAcquireCount stat - prevCanceled) of
                     None \<Rightarrow> None
                   | Some canceled \<Rightarrow>
                       Some ((ps_EmptyAcquireCount stat, ps_EmptyAcquireWaitTime stat, ps_CanceledAcquireCount stat),
                             m\<lparr>DBPoolEmptyAcquireTotal := acquires, DBPoolEmptyAcquireWaitTotal := wait,
                               DBPoolCanceledAcquireTotal := canceled\<rparr>)))))"

fun collect_ticks :: "pool_stat list \<Rightarrow> (int \<times> int \<times> int) \<times> pool_metrics \<Rightarrow> ((int \<times> int \<times> int) \<times> pool_metrics) option" where
  "collect_ticks [] s = Some s"
| "collect_ticks (stat # stats) s = (case collect_tick stat s of None \<Rightarrow> None | Some s \<Rightarrow> collect_ticks stats s)"

definition CollectDBStats :: "pool_stat list \<Rightarrow> pool_metrics option" where
  "CollectDBStats stats = map_option snd (collect_ticks stats ((0, 0, 0), new_pool_metrics))"

text \<open>The metrics of a pool whose totals are these.\<close>

definition metrics_of :: "pool_stat \<Rightarrow> pool_metrics" where
  "metrics_of stat = \<lparr>DBPoolTotalConns = ps_TotalConns stat, DBPoolAcquiredConns = ps_AcquiredConns stat,
     DBPoolIdleConns = ps_IdleConns stat, DBPoolMaxConns = ps_MaxConns stat,
     DBPoolEmptyAcquireTotal = ps_EmptyAcquireCount stat, DBPoolEmptyAcquireWaitTotal = ps_EmptyAcquireWaitTime stat,
     DBPoolCanceledAcquireTotal = ps_CanceledAcquireCount stat\<rparr>"

definition totals :: "pool_stat \<Rightarrow> int \<times> int \<times> int" where
  "totals stat = (ps_EmptyAcquireCount stat, ps_EmptyAcquireWaitTime stat, ps_CanceledAcquireCount stat)"

definition grows :: "int \<times> int \<times> int \<Rightarrow> pool_stat \<Rightarrow> bool" where
  "grows p stat = (case p of (a, b, c) \<Rightarrow>
     a \<le> ps_EmptyAcquireCount stat \<and> b \<le> ps_EmptyAcquireWaitTime stat \<and> c \<le> ps_CanceledAcquireCount stat)"

fun growing :: "int \<times> int \<times> int \<Rightarrow> pool_stat list \<Rightarrow> bool" where
  "growing p [] \<longleftrightarrow> True"
| "growing p (stat # stats) \<longleftrightarrow> grows p stat \<and> growing (totals stat) stats"

text \<open>The counters carry the same totals as the previous values.\<close>

definition in_step :: "(int \<times> int \<times> int) \<times> pool_metrics \<Rightarrow> bool" where
  "in_step s = (fst s = (DBPoolEmptyAcquireTotal (snd s), DBPoolEmptyAcquireWaitTotal (snd s),
     DBPoolCanceledAcquireTotal (snd s)))"

lemma collect_tick_latest:
  "in_step s \<Longrightarrow> collect_tick stat s = (if grows (fst s) stat then Some (totals stat, metrics_of stat) else None)"
  by (cases s) (auto simp: collect_tick_def in_step_def grows_def counter_Add_def totals_def metrics_of_def Let_def)

lemma in_step_latest: "in_step (totals stat, metrics_of stat)"
  by (simp add: in_step_def totals_def metrics_of_def)

text \<open>As long as the totals of the pool grow, every tick leaves the metrics at its latest statistics;
  the collector panics at the first that shrinks.\<close>

lemma collect_ticks_latest:
  "in_step s \<Longrightarrow> collect_ticks stats s =
     (if growing (fst s) stats then Some (if stats = [] then s else (totals (last stats), metrics_of (last stats))) else None)"
  by (induction stats arbitrary: s) (simp_all add: collect_tick_latest in_step_latest)

lemma CollectDBStats_latest:
  "stats \<noteq> [] \<Longrightarrow> CollectDBStats stats = (if growing (0, 0, 0) stats then Some (metrics_of (last stats)) else None)"
  by (simp add: CollectDBStats_def collect_ticks_latest in_step_def new_pool_metrics_def)

section \<open>Metrics of a scan\<close>

record scan_metrics =
  WatcherScanDuration :: "int list"
  WatcherScansTotal :: "string \<Rightarrow> nat"

definition ObserveScanDuration :: "int \<Rightarrow> scan_metrics \<Rightarrow> scan_metrics" where
  "ObserveScanDuration d m = m\<lparr>WatcherScanDuration := WatcherScanDuration m @ [d]\<rparr>"

definition IncScanResult :: "string \<Rightarrow> scan_metrics \<Rightarrow> scan_metrics" where
  "IncScanResult result m = m\<lparr>WatcherScansTotal := (WatcherScansTotal m)(result := Suc (WatcherScansTotal m result))\<rparr>"

definition observeScan :: "int \<Rightarrow> string \<Rightarrow> scan_metrics option \<Rightarrow> scan_metrics option" where
  "observeScan d result metrics =
     (case metrics of None \<Rightarrow> None | Some m \<Rightarrow> Some (IncScanResult result (ObserveScanDuration d m)))"

text \<open>The monitoring service passes no metrics, so its scans are never counted.\<close>

lemma scans_are_not_counted: "fold (\<lambda>(d, result). observeScan d result) scans None = None"
  by (induction scans) (auto simp: observeScan_def)

lemma counted_scans:
  "fold (\<lambda>(d, result). observeScan d result) scans (Some m) =
     Some (m\<lparr>WatcherScanDuration := WatcherScanDuration m @ map fst scans,
             WatcherScansTotal := (\<lambda>r. WatcherScansTotal m r + count_list (map snd scans) r)\<rparr>)"
  by (induction scans arbitrary: m)
    (auto simp: observeScan_def ObserveScanDuration_def IncScanResult_def fun_eq_iff intro!: scan_metrics.equality)

end
