(* ===== verification/Router.thy ===== *)
theory Router
  imports Http
begin

text \<open>
  The HTTP front of the services: route tables (\<^verbatim>\<open>transport/http/router\<close>), the middleware
  around the handlers (\<^verbatim>\<open>skip.go\<close>, \<^verbatim>\<open>logging.go\<close>, \<^verbatim>\<open>metrics.go\<close>), the health
  checks (the handlers of the routers, \<^verbatim>\<open>internal/health\<close>) and the probe that calls them
  (\<^verbatim>\<open>cmd/healthcheck\<close>). Finding the route of a request is the router library's: the
  parameter \<open>find_route\<close> gives, for a miss, the status and the pattern it got to, or a route of
  the table with the value of its URL parameter; \<open>routes_well\<close> states what its documentation
  promises. Subrouters and groups are flattened into full patterns. A database or NATS ping is given
  by the error it returned. Handlers of the model do not panic, so \<^verbatim>\<open>Recoverer\<close> does nothing.
\<close>

section \<open>Health\<close>

type_synonym ping = "string option"

definition checkDep :: "ping \<Rightarrow> string" where
  "checkDep p = (case p of Some e \<Rightarrow> e | None \<Rightarrow> ''ok'')"

definition health_response :: "int \<Rightarrow> string \<Rightarrow> (string \<times> string) list \<Rightarrow> http_resp" where
  "health_response status overall checks =
     respond_JSON status
       (JObj [(''checks'', JObj (map (\<lambda>(name, v). (name, JStr v)) checks)), (''status'', JStr overall)])"

text \<open>The loop over the results stops at the first that is not \<^verbatim>\<open>ok\<close>.\<close>

fun first_unhealthy :: "(string \<times> string) list \<Rightarrow> int \<times> string" where
  "first_unhealthy [] = (200, ''ok'')"
| "first_unhealthy ((name, v) # checks) = (if v \<noteq> ''ok'' then (503, ''unhealthy'') else first_unhealthy checks)"

definition healthHandler :: "ping \<Rightarrow> ping \<Rightarrow> http_resp" where
  "healthHandler db nats =
     (let checks = [(''db'', checkDep db), (''nats'', checkDep nats)];
          (status, overall) = first_unhealthy checks in
      health_response status overall checks)"

text \<open>The health handler of the monitoring and notification services visits every check.\<close>

fun check_all :: "(string \<times> ping) list \<Rightarrow> int \<times> string \<times> (string \<times> string) list" where
  "check_all [] = (200, ''ok'', [])"
| "check_all ((name, p) # checks) =
     (case check_all checks of (status, overall, results) \<Rightarrow>
        (case p of
           Some e \<Rightarrow> (503, ''unhealthy'', (name, e) # results)
         | None \<Rightarrow> (status, overall, (name, ''ok'') # results)))"

definition health_Handler :: "(string \<times> ping) list \<Rightarrow> http_resp" where
  "health_Handler checks =
     (case check_all checks of (status, overall, results) \<Rightarrow> health_response status overall results)"

text \<open>
  \<^verbatim>\<open>cmd/healthcheck\<close>: the exit code, from the port in the environment and the answer of
  \<^verbatim>\<open>http.Get\<close> (an error, or a status and whether the body could be closed).
\<close>

definition healthcheck_url :: "string \<Rightarrow> string" where
  "healthcheck_url port = ''http://localhost:'' @ (if port = '''' then ''8080'' else port) @ ''/health''"

definition healthcheck_main :: "(string \<Rightarrow> string + int \<times> bool) \<Rightarrow> string \<Rightarrow> nat" where
  "healthcheck_main get port =
     (case get (healthcheck_url port) of
        Inl e \<Rightarrow> 1
      | Inr (status, closed) \<Rightarrow> if \<not> closed then 1 else if status \<noteq> 200 then 1 else 0)"

section \<open>Requests and routes\<close>

text \<open>The path is the decoded one; the raw one is set only when encoding differs from the default.\<close>

record request =
  rq_Method :: string
  rq_Path :: string
  rq_RawPath :: string
  rq_Authorization :: string
  rq_ContentType :: string
  rq_Body :: bytes
  rq_Form :: "string + (string \<Rightarrow> string)"

text \<open>A route: method (any for \<^verbatim>\<open>Handle\<close>), pattern, whether it is in the group behind
  \<^verbatim>\<open>AuthJWT\<close>, handler.\<close>

record 'ep route =
  ro_Method :: "string option"
  ro_Pattern :: string
  ro_AuthJWT :: bool
  ro_Endpoint :: 'ep

type_synonym 'ep router = "'ep route list \<Rightarrow> request \<Rightarrow> int \<times> string + 'ep route \<times> string"

definition open_route :: "string \<Rightarrow> string \<Rightarrow> 'ep \<Rightarrow> 'ep route" where
  "open_route m p ep = \<lparr>ro_Method = Some m, ro_Pattern = p, ro_AuthJWT = False, ro_Endpoint = ep\<rparr>"

definition protected_route :: "string \<Rightarrow> string \<Rightarrow> 'ep \<Rightarrow> 'ep route" where
  "protected_route m p ep = \<lparr>ro_Method = Some m, ro_Pattern = p, ro_AuthJWT = True, ro_Endpoint = ep\<rparr>"

section \<open>Subscription service\<close>

datatype sub_endpoint = EpMetrics | EpHealth | EpSubscribe | EpListSubscriptions | EpUnsubscribe | EpConfirm

definition sub_routes :: "sub_endpoint route list" where
  "sub_routes =
     [\<lparr>ro_Method = None, ro_Pattern = ''/metrics'', ro_AuthJWT = False, ro_Endpoint = EpMetrics\<rparr>,
      open_route ''GET'' ''/health'' EpHealth,
      protected_route ''POST'' ''/api/subscribe'' EpSubscribe,
      protected_route ''GET'' ''/api/subscriptions'' EpListSubscriptions,
      open_route ''GET'' ''/api/unsubscribe/{token}'' EpUnsubscribe,
      open_route ''GET'' ''/api/confirm/{token}'' EpConfirm]"

record 'db use_cases =
  uc_Subscribe :: "string \<Rightarrow> string \<Rightarrow> ('db, sentinel, unit) io"
  uc_Confirm :: "string \<Rightarrow> ('db, sentinel, unit) io"
  uc_Unsubscribe :: "string \<Rightarrow> ('db, sentinel, unit) io"
  uc_List :: "string \<Rightarrow> ('db, sentinel, SubscriptionDetails list) io"

text \<open>The use cases the service wires into its handler (\<^verbatim>\<open>app.go\<close>).\<close>

definition sub_use_cases :: "(string \<Rightarrow> bool) \<Rightarrow> (string \<Rightarrow> go_error option) \<Rightarrow> int \<Rightarrow> sub_db use_cases" where
  "sub_use_cases parse_ok check_repo sagaTTL =
     \<lparr>uc_Subscribe = Subscribe_Execute parse_ok check_repo sagaTTL, uc_Confirm = Confirm_Execute,
      uc_Unsubscribe = Unsubscribe_Execute, uc_List = ByEmail parse_ok\<rparr>"

text \<open>What the process knows around a request: the parser of tokens, the key, the clock, the answers
  of the pings, the metrics page, the texts of decoder errors.\<close>

record surroundings =
  su_parse :: "string \<Rightarrow> int \<Rightarrow> string \<Rightarrow> (string \<Rightarrow> json option) option"
  su_key :: "go_error + string"
  su_now :: int
  su_db :: ping
  su_nats :: ping
  su_metrics :: json
  su_decode_error :: "bytes \<Rightarrow> string"

definition run_endpoint ::
  "surroundings \<Rightarrow> 'db use_cases \<Rightarrow> sub_endpoint \<Rightarrow> string \<Rightarrow> string \<Rightarrow> request \<Rightarrow> ('db, http_resp) run" where
  "run_endpoint su uc ep param email rq =
     (case ep of
        EpMetrics \<Rightarrow> ret \<lparr>hr_Status = 200, hr_Body = Some (su_metrics su)\<rparr>
      | EpHealth \<Rightarrow> ret (healthHandler (su_db su) (su_nats su))
      | EpSubscribe \<Rightarrow> Handler_Subscribe (su_decode_error su) (uc_Subscribe uc)
          \<lparr>sq_Email = email, sq_ContentType = rq_ContentType rq, sq_Body = rq_Body rq, sq_Form = rq_Form rq\<rparr>
      | EpListSubscriptions \<Rightarrow> Handler_ListSubscriptions (uc_List uc) email
      | EpUnsubscribe \<Rightarrow> Handler_Unsubscribe (uc_Unsubscribe uc) param
      | EpConfirm \<Rightarrow> Handler_Confirm (uc_Confirm uc) param)"

definition authenticate :: "surroundings \<Rightarrow> request \<Rightarrow> http_resp + string" where
  "authenticate su rq = AuthJWT (su_parse su) (su_key su) (su_now su) (rq_Authorization rq)"

text \<open>The address is in the context only behind \<^verbatim>\<open>AuthJWT\<close>.\<close>

definition run_route ::
  "surroundings \<Rightarrow> 'db use_cases \<Rightarrow> sub_endpoint route \<Rightarrow> string \<Rightarrow> request \<Rightarrow> ('db, http_resp) run" where
  "run_route su uc ro param rq =
     (if ro_AuthJWT ro
      then (case authenticate su rq of
              Inl resp \<Rightarrow> ret resp
            | Inr email \<Rightarrow> run_endpoint su uc (ro_Endpoint ro) param email rq)
      else run_endpoint su uc (ro_Endpoint ro) param '''' rq)"

definition sub_serve ::
  "sub_endpoint router \<Rightarrow> surroundings \<Rightarrow> 'db use_cases \<Rightarrow> request \<Rightarrow> ('db, http_resp) run" where
  "sub_serve find_route su uc rq =
     (case find_route sub_routes rq of
        Inl (status, _) \<Rightarrow> ret \<lparr>hr_Status = status, hr_Body = None\<rparr>
      | Inr (ro, param) \<Rightarrow> run_route su uc ro param rq)"

section \<open>Auth service\<close>

datatype auth_endpoint = EpAuthHealth | EpRegister | EpVerifyEmail | EpLogin | EpRefresh | EpLogout

definition auth_routes :: "auth_endpoint route list" where
  "auth_routes =
     [open_route ''GET'' ''/health'' EpAuthHealth,
      open_route ''POST'' ''/register'' EpRegister,
      open_route ''GET'' ''/verify-email/{token}'' EpVerifyEmail,
      open_route ''POST'' ''/login'' EpLogin,
      open_route ''POST'' ''/refresh'' EpRefresh,
      open_route ''POST'' ''/logout'' EpLogout]"

definition run_auth_endpoint ::
  "crypto \<Rightarrow> Signer \<Rightarrow> int \<Rightarrow> int \<Rightarrow> ping \<Rightarrow> ping \<Rightarrow> auth_endpoint \<Rightarrow> string \<Rightarrow> request \<Rightarrow>
     (auth_db, http_resp) run" where
  "run_auth_endpoint cy issuer verifyTTL refreshTTL db nats ep param rq =
     (case ep of
        EpAuthHealth \<Rightarrow> ret (healthHandler db nats)
      | EpRegister \<Rightarrow> Handler_Register (Register_Execute cy verifyTTL) (rq_Body rq)
      | EpVerifyEmail \<Rightarrow> Handler_VerifyEmail VerifyEmail_Execute param
      | EpLogin \<Rightarrow> Handler_Login (Login_Execute cy issuer refreshTTL) (rq_Body rq)
      | EpRefresh \<Rightarrow> Handler_Refresh (Refresh_Execute cy issuer refreshTTL) (rq_Body rq)
      | EpLogout \<Rightarrow> Handler_Logout (Logout_Execute cy) (rq_Body rq))"

definition auth_serve ::
  "auth_endpoint router \<Rightarrow> crypto \<Rightarrow> Signer \<Rightarrow> int \<Rightarrow> int \<Rightarrow> ping \<Rightarrow> ping \<Rightarrow> request \<Rightarrow> (auth_db, http_resp) run" where
  "auth_serve find_route cy issuer verifyTTL refreshTTL db nats rq =
     (case find_route auth_routes rq of
        Inl (status, _) \<Rightarrow> ret \<lparr>hr_Status = status, hr_Body = None\<rparr>
      | Inr (ro, param) \<Rightarrow> run_auth_endpoint cy issuer verifyTTL refreshTTL db nats (ro_Endpoint ro) param rq)"

section \<open>Logging and metrics\<close>

record observed =
  ov_Method :: string
  ov_Path :: string
  ov_Status :: int

definition unmatchedRoute :: string where "unmatchedRoute = ''unmatched''"

definition route_pattern :: "sub_endpoint router \<Rightarrow> request \<Rightarrow> string" where
  "route_pattern find_route rq =
     (case find_route sub_routes rq of Inl (_, pattern) \<Rightarrow> pattern | Inr (ro, _) \<Rightarrow> ro_Pattern ro)"

definition SkipRoutes :: "string list \<Rightarrow> request \<Rightarrow> 'a list \<Rightarrow> 'a list" where
  "SkipRoutes paths rq entries = (if rq_Path rq \<in> set paths then [] else entries)"

definition Logger :: "sub_endpoint router \<Rightarrow> request \<Rightarrow> http_resp \<Rightarrow> observed list" where
  "Logger find_route rq resp =
     [\<lparr>ov_Method = rq_Method rq,
       ov_Path = (let p = route_pattern find_route rq in if p \<noteq> '''' then p else rq_Path rq),
       ov_Status = hr_Status resp\<rparr>]"

definition MetricsMiddleware :: "sub_endpoint router \<Rightarrow> request \<Rightarrow> http_resp \<Rightarrow> observed list" where
  "MetricsMiddleware find_route rq resp =
     (if rq_Path rq = ''/metrics'' then []
      else [\<lparr>ov_Method = rq_Method rq,
             ov_Path = (let p = route_pattern find_route rq in if p \<noteq> '''' then p else unmatchedRoute),
             ov_Status = hr_Status resp\<rparr>])"

text \<open>What one request adds to the log and to the request counter.\<close>

definition observe_request :: "sub_endpoint router \<Rightarrow> request \<Rightarrow> http_resp \<Rightarrow> observed list \<times> observed list" where
  "observe_request find_route rq resp =
     (SkipRoutes [''/metrics'', ''/health''] rq (Logger find_route rq resp),
      SkipRoutes [''/metrics''] rq (MetricsMiddleware find_route rq resp))"

section \<open>What the router library promises\<close>

text \<open>
  A pattern is a path in which \<open>{...}\<close> stands for a non-empty text without a slash
  (\<open>fit pattern path\<close> is that text, or the empty one). A hit is a route of the table that fits the
  path and the method; a route that fits is found; a miss is answered with 404 or 405, whatever pattern
  it got to.
\<close>

fun fit :: "string \<Rightarrow> string \<Rightarrow> string option" where
  "fit [] path = (if path = [] then Some [] else None)"
| "fit (c # pat) path =
     (if c = CHR ''{''
      then (let rest = tl (dropWhile (\<lambda>x. x \<noteq> CHR ''}'') pat);
                n = length path - length rest;
                p = take n path in
            if p \<noteq> [] \<and> CHR ''/'' \<notin> set p \<and> drop n path = rest then Some p else None)
      else (case path of [] \<Rightarrow> None | x # xs \<Rightarrow> if x = c then fit pat xs else None))"

definition takes :: "request \<Rightarrow> 'ep route \<Rightarrow> string option" where
  "takes rq ro =
     (if (case ro_Method ro of None \<Rightarrow> True | Some m \<Rightarrow> rq_Method rq = m)
      then fit (ro_Pattern ro) (if rq_RawPath rq = '''' then rq_Path rq else rq_RawPath rq)
      else None)"

definition routes_well :: "'ep router \<Rightarrow> bool" where
  "routes_well find_route \<longleftrightarrow> (\<forall>table rq. case find_route table rq of
       Inl (status, pattern) \<Rightarrow> status \<in> {404, 405} \<and> (\<forall>ro \<in> set table. takes rq ro = None)
     | Inr (ro, param) \<Rightarrow> ro \<in> set table \<and> takes rq ro = Some param)"

text \<open>One such router tries the routes in their order.\<close>

definition first_fit :: "'ep router" where
  "first_fit table rq =
     (case find (\<lambda>ro. takes rq ro \<noteq> None) table of
        None \<Rightarrow> Inl (404, '''')
      | Some ro \<Rightarrow> Inr (ro, the (takes rq ro)))"

lemma first_fit_routes_well: "routes_well first_fit"
  by (auto simp: routes_well_def first_fit_def find_None_iff dest: find_Some_iff [THEN iffD1] split: option.splits)

lemma routes_hit:
  "routes_well find_route \<Longrightarrow> find_route table rq = Inr (ro, param) \<Longrightarrow> ro \<in> set table \<and> takes rq ro = Some param"
  by (auto simp: routes_well_def dest!: spec [where x = table] spec [where x = rq])

lemma routes_miss:
  "routes_well find_route \<Longrightarrow> find_route table rq = Inl (status, pattern) \<Longrightarrow>
     status \<in> {404, 405} \<and> (\<forall>ro \<in> set table. takes rq ro = None)"
  by (auto simp: routes_well_def dest!: spec [where x = table] spec [where x = rq])

text \<open>A request that only one route of the table takes goes there.\<close>

lemma routes_unique:
  assumes "routes_well find_route" "ro \<in> set table" "takes rq ro = Some param"
    and "\<And>r. r \<in> set table \<Longrightarrow> takes rq r \<noteq> None \<Longrightarrow> r = ro"
  shows "find_route table rq = Inr (ro, param)"
proof (cases "find_route table rq")
  case (Inl p)
  then show ?thesis using routes_miss [OF assms(1)] assms(2,3) by (cases p) fastforce
next
  case (Inr p)
  then show ?thesis using routes_hit [OF assms(1)] assms(3,4) by (cases p) fastforce
qed

definition plain_request :: "string \<Rightarrow> string \<Rightarrow> request \<Rightarrow> bool" where
  "plain_request m path rq \<longleftrightarrow> rq_Method rq = m \<and> rq_Path rq = path \<and> rq_RawPath rq = ''''"

lemma plain_takes:
  "plain_request m path rq \<Longrightarrow> takes rq ro =
     (if ro_Method ro = None \<or> ro_Method ro = Some m then fit (ro_Pattern ro) path else None)"
  by (auto simp: plain_request_def takes_def split: option.splits)

lemma route_simps [simp]:
  "ro_Method (open_route m p ep) = Some m" "ro_Pattern (open_route m p ep) = p"
  "ro_AuthJWT (open_route m p ep) = False" "ro_Endpoint (open_route m p ep) = ep"
  "ro_Method (protected_route m p ep) = Some m" "ro_Pattern (protected_route m p ep) = p"
  "ro_AuthJWT (protected_route m p ep) = True" "ro_Endpoint (protected_route m p ep) = ep"
  by (simp_all add: open_route_def protected_route_def)

lemma sub_route_hits:
  assumes "routes_well find_route"
  shows "plain_request ''POST'' ''/api/subscribe'' rq \<Longrightarrow>
      find_route sub_routes rq = Inr (protected_route ''POST'' ''/api/subscribe'' EpSubscribe, '''')"
    and "plain_request ''GET'' ''/api/subscriptions'' rq \<Longrightarrow>
      find_route sub_routes rq = Inr (protected_route ''GET'' ''/api/subscriptions'' EpListSubscriptions, '''')"
    and "plain_request ''GET'' ''/health'' rq \<Longrightarrow>
      find_route sub_routes rq = Inr (open_route ''GET'' ''/health'' EpHealth, '''')"
  by (rule routes_unique [OF assms]; auto simp: plain_takes sub_routes_def split: if_splits)+

end
