(* ===== verification/Requests.thy ===== *)
theory Requests
  imports Router
begin

text \<open>
  Whole requests, from the router through the middleware, the handler and the use case to the
  database: what a protected route does for whom, what the health probe concludes, and which labels
  a request can leave in the metrics.
\<close>

section \<open>Protected routes\<close>

lemma AuthJWT_refuses: "AuthJWT parse key now a = Inl resp \<Longrightarrow> hr_Status resp = 401"
  by (auto simp: AuthJWT_def Let_def split: if_splits prod.splits sum.splits option.splits json.splits)

lemma AuthJWT_address: "AuthJWT parse key now a = Inr email \<Longrightarrow> email \<noteq> ''''"
  by (auto simp: AuthJWT_def Let_def split: if_splits prod.splits sum.splits option.splits json.splits)

definition subscription_input :: "surroundings \<Rightarrow> string \<Rightarrow> request \<Rightarrow> string + subscriptionRequest" where
  "subscription_input su email rq = decodeSubscriptionRequest (su_decode_error su)
     \<lparr>sq_Email = email, sq_ContentType = rq_ContentType rq, sq_Body = rq_Body rq, sq_Form = rq_Form rq\<rparr>"

text \<open>The confirmed subscriptions of an address, with what the tables say of their repositories.\<close>

definition confirmed_details :: "string \<Rightarrow> sub_db \<Rightarrow> SubscriptionDetails list" where
  "confirmed_details email d =
     [\<lparr>sd_Email = sb_Email s, sd_Repo = rp_FullName r, sd_Confirmed = sb_Confirmed s, sd_LastSeenTag = rp_LastSeenTag r\<rparr>.
        s \<leftarrow> subscriptions d, sb_Email s = email, sb_Confirmed s,
        r \<leftarrow> repositories d, sb_RepositoryID s = rp_ID r]"

lemma concat_map_filter: "concat (map f (filter P xs)) = concat (map (\<lambda>x. if P x then f x else []) xs)"
  by (induction xs) simp_all

lemma listDetails_confirmed:
  "listSubscriptionDetailsByEmailQuery email now d = Inr (confirmed_details email d, d)"
proof -
  have "map f (filter P xs) = concat (map (\<lambda>x. if P x then [f x] else []) xs)"
    for f :: "Repository \<Rightarrow> SubscriptionDetails" and P xs
    by (induction xs) simp_all
  then show ?thesis
    by (auto simp: listSubscriptionDetailsByEmailQuery_def confirmed_details_def concat_map_filter
        intro!: arg_cong [where f = concat] map_cong)
qed

lemma wp_ByEmail:
  assumes "txn w = None"
  shows "wp (ByEmail parse_ok email) (\<lambda>x w'. committed w' = committed w \<and>
    (\<forall>details. x = Inr details \<longrightarrow> details = confirmed_details (TrimSpace email) (committed w))) w"
  by (auto simp: ByEmail_def ListSubscriptionDetailsByEmail_def wp_simps Let_def listDetails_confirmed assms
      split: option.splits fault.splits)

lemma wp_list_request:
  assumes "txn w = None" "email \<noteq> ''''"
  shows "wp (Handler_ListSubscriptions (ByEmail parse_ok) email) (\<lambda>resp w'. committed w' = committed w \<and>
    (hr_Status resp = 200 \<longrightarrow>
       hr_Body resp = Some (toResponseSlice (confirmed_details (TrimSpace email) (committed w))))) w"
proof -
  have ok: "hr_Status (sub_handleError e) \<noteq> 200" for e
    using sub_handleError_failure [of e] by simp
  show ?thesis
    using assms(2)
    by (auto simp: Handler_ListSubscriptions_def wp_bind wp_return ok respond_JSON_def split: sum.splits
        intro!: wp_mono [OF wp_ByEmail [OF assms(1)]])
qed

lemma wp_subscribe_request:
  assumes "txn w = None"
  shows "wp (Handler_Subscribe (su_decode_error su) (Subscribe_Execute parse_ok check_repo ttl)
      \<lparr>sq_Email = email, sq_ContentType = rq_ContentType rq, sq_Body = rq_Body rq, sq_Form = rq_Form rq\<rparr>)
    (\<lambda>resp w'. hr_Status resp = 200 \<longrightarrow>
       (\<exists>req d rid. subscription_input su email rq = Inr req \<and>
          (TrimSpace (sr_Repo req), rid) \<in> repo_names d \<and> same_rest (committed w) d \<and>
          subscribed (TrimSpace email) (TrimSpace (sr_Repo req)) rid d (committed w'))) w"
proof (cases "subscription_input su email rq")
  case (Inl e)
  then show ?thesis by (simp add: Handler_Subscribe_def subscription_input_def wp_return)
next
  case (Inr req)
  show ?thesis
    by (rule wp_Handler_Subscribe [where repo = "sr_Repo req"])
      (use Inr in \<open>auto simp: subscription_input_def intro!: wp_mono [OF wp_Subscribe [OF assms]]\<close>)
qed

text \<open>C12: a request to a protected route acts for the address of its token and for nobody else.
  Without a token that the parser accepts under the key it is answered with 401 and changes nothing.
  A subscription request answered with 200 has created, for this address and the repository it
  names, a pending subscription with its saga and its confirmation event. A request for the list
  changes nothing and is answered, if with 200, with the confirmed subscriptions of this address.\<close>

theorem requests_act_for_token_address:
  assumes "routes_well find_route" "txn w = None"
    and "plain_request ''POST'' ''/api/subscribe'' p" "plain_request ''GET'' ''/api/subscriptions'' q"
  shows "wp (sub_serve find_route su (sub_use_cases parse_ok check_repo ttl) p) (\<lambda>resp w'.
      case authenticate su p of
        Inl _ \<Rightarrow> hr_Status resp = 401 \<and> w' = w
      | Inr email \<Rightarrow> hr_Status resp = 200 \<longrightarrow>
          (\<exists>req d rid. subscription_input su email p = Inr req \<and>
             (TrimSpace (sr_Repo req), rid) \<in> repo_names d \<and> same_rest (committed w) d \<and>
             subscribed (TrimSpace email) (TrimSpace (sr_Repo req)) rid d (committed w'))) w \<and>
    wp (sub_serve find_route su (sub_use_cases parse_ok check_repo ttl) q) (\<lambda>resp w'.
      case authenticate su q of
        Inl _ \<Rightarrow> hr_Status resp = 401 \<and> w' = w
      | Inr email \<Rightarrow> committed w' = committed w \<and>
          (hr_Status resp = 200 \<longrightarrow>
             hr_Body resp = Some (toResponseSlice (confirmed_details (TrimSpace email) (committed w))))) w"
proof -
  note serve = sub_serve_def run_route_def run_endpoint_def sub_use_cases_def authenticate_def
  note hits = sub_route_hits(1) [OF assms(1,3)] sub_route_hits(2) [OF assms(1,4)]
  show ?thesis
    using wp_subscribe_request [OF assms(2)] wp_list_request [OF assms(2)]
    by (auto simp: serve hits wp_return AuthJWT_refuses AuthJWT_address split: sum.splits)
qed


definition demo_surroundings :: surroundings where
  "demo_surroundings = \<lparr>su_parse = (\<lambda>key now raw. if raw = ''jwt'' then Some [''email'' \<mapsto> JStr ''a@x.y''] else None),
     su_key = Inr ''pem'', su_now = 0, su_db = None, su_nats = None, su_metrics = JObj [], su_decode_error = (\<lambda>_. '''')\<rparr>"

definition demo_request :: "string \<Rightarrow> string \<Rightarrow> string \<Rightarrow> request" where
  "demo_request m path authorization = \<lparr>rq_Method = m, rq_Path = path, rq_RawPath = '''', rq_Authorization = authorization,
     rq_ContentType = '''', rq_Body = NotJson '''', rq_Form = Inr (\<lambda>_. ''o/r'')\<rparr>"

lemma demo_plain: "plain_request m path (demo_request m path authorization)"
  by (simp add: plain_request_def demo_request_def)

lemma demo_authenticate:
  "authenticate demo_surroundings (demo_request m path ''Bearer bad'') = Inl \<lparr>hr_Status = 401, hr_Body = None\<rparr>"
  "authenticate demo_surroundings (demo_request m path ''Bearer jwt'') = Inr ''a@x.y''"
  by (simp_all add: authenticate_def AuthJWT_def CutPrefix_def HasPrefix_def demo_surroundings_def demo_request_def)

theorem requests_act_for_token_address_witness:
  "let serve = sub_serve first_fit demo_surroundings (sub_use_cases (\<lambda>_. True) (\<lambda>_. None) 60);
       w = calm_world empty_sub_db 0 [''g'', ''a'', ''b''] in
   hr_Status (run_result (serve (demo_request ''POST'' ''/api/subscribe'' ''Bearer bad'')) w) = 401 \<and>
   committed (run_world (serve (demo_request ''GET'' ''/api/subscriptions'' ''Bearer jwt'')) w) = empty_sub_db"
  using requests_act_for_token_address [OF first_fit_routes_well _ demo_plain demo_plain,
      of "calm_world empty_sub_db 0 [''g'', ''a'', ''b'']" demo_surroundings "\<lambda>_. True" "\<lambda>_. None" 60
        "''Bearer bad''" "''Bearer jwt''"]
  by (simp add: demo_authenticate wp_run)

section \<open>Health\<close>

lemma checkDep_ok: "checkDep p = ''ok'' \<longleftrightarrow> p \<in> {None, Some ''ok''}"
  by (simp add: checkDep_def split: option.splits)

text \<open>The verdict does not depend on the order in which the loop visits the checks.\<close>

lemma first_unhealthy_iff:
  "first_unhealthy checks = (if \<forall>(name, v) \<in> set checks. v = ''ok'' then (200, ''ok'') else (503, ''unhealthy''))"
  by (induction checks rule: first_unhealthy.induct) auto

lemma healthHandler_status:
  "hr_Status (healthHandler db nats) = (if {db, nats} \<subseteq> {None, Some ''ok''} then 200 else 503)"
  by (auto simp: healthHandler_def first_unhealthy_iff health_response_def checkDep_ok Let_def)

lemma check_all_verdict:
  "check_all checks =
     (if \<forall>c \<in> set checks. snd c = None then (200, ''ok'', map (\<lambda>c. (fst c, checkDep (snd c))) checks)
      else (503, ''unhealthy'', map (\<lambda>c. (fst c, checkDep (snd c))) checks))"
  by (induction checks rule: check_all.induct) (auto simp: checkDep_def split: option.splits)

lemma health_Handler_status:
  "hr_Status (health_Handler checks) = (if \<forall>c \<in> set checks. snd c = None then 200 else 503)"
  by (simp add: health_Handler_def health_response_def check_all_verdict)

text \<open>The probe of the container succeeds exactly when the service answers that it is healthy.\<close>

lemma probe_verdict:
  assumes "routes_well find_route" "plain_request ''GET'' ''/health'' rq"
    and "get (healthcheck_url port) = Inr (hr_Status (run_result (sub_serve find_route su uc rq) w), True)"
  shows "healthcheck_main get port = 0 \<longleftrightarrow> {su_db su, su_nats su} \<subseteq> {None, Some ''ok''}"
  using assms by (simp add: healthcheck_main_def sub_serve_def sub_route_hits run_route_def run_endpoint_def
      healthHandler_status run_result_def)

end
