(* ===== verification/Metrics.thy ===== *)
theory Metrics
  imports Background Requests
begin

text \<open>
  The metrics of the subscription service: what \<^verbatim>\<open>metrics.New\<close> declares and registers, and what
  requests and the pool collector add to it. The client library is a parameter: whether
  \<^verbatim>\<open>MustRegister\<close> returns for these metrics, whether \<^verbatim>\<open>WithLabelValues\<close> returns for
  these values, and the collectors and default buckets it brings; \<open>prometheus_well\<close> states what its
  documentation promises. A panic is \<open>None\<close>. Durations are in nanoseconds.
\<close>

section \<open>Declarations\<close>

datatype metric_kind = Counter | Gauge | Histogram "int list"

record metric =
  mt_Name :: string
  mt_Kind :: metric_kind
  mt_Labels :: "string list"

record prometheus =
  registers :: "metric list \<Rightarrow> bool"
  accepts :: "metric \<Rightarrow> string list \<Rightarrow> bool"
  GoCollector :: "metric list"
  ProcessCollector :: "metric list"
  DefBuckets :: "int list"

definition HTTPRequestsTotal_vec :: metric where
  "HTTPRequestsTotal_vec =
     \<lparr>mt_Name = ''http_requests_total'', mt_Kind = Counter, mt_Labels = [''method'', ''path'', ''status'']\<rparr>"

definition HTTPRequestDuration_vec :: "prometheus \<Rightarrow> metric" where
  "HTTPRequestDuration_vec p =
     \<lparr>mt_Name = ''http_request_duration_seconds'', mt_Kind = Histogram (DefBuckets p), mt_Labels = [''method'', ''path'']\<rparr>"

definition plain :: "string \<Rightarrow> metric_kind \<Rightarrow> metric" where
  "plain name kind = \<lparr>mt_Name = name, mt_Kind = kind, mt_Labels = []\<rparr>"

definition pool_gauges :: "metric list" where
  "pool_gauges =
     [plain ''db_pool_total_connections'' Gauge, plain ''db_pool_acquired_connections'' Gauge,
      plain ''db_pool_idle_connections'' Gauge, plain ''db_pool_max_connections'' Gauge]"

definition pool_counters :: "metric list" where
  "pool_counters =
     [plain ''db_pool_empty_acquire_total'' Counter, plain ''db_pool_empty_acquire_wait_seconds_total'' Counter,
      plain ''db_pool_canceled_acquire_total'' Counter]"

definition WatcherScansTotal_vec :: metric where
  "WatcherScansTotal_vec = \<lparr>mt_Name = ''watcher_scans_total'', mt_Kind = Counter, mt_Labels = [''result'']\<rparr>"

definition WatcherScanDuration_hist :: metric where
  "WatcherScanDuration_hist = plain ''watcher_scan_duration_seconds''
     (Histogram (map (\<lambda>s. s * 1000000000) [1, 5, 10, 30, 60]))"

text \<open>The arguments of \<^verbatim>\<open>MustRegister\<close>, in their order.\<close>

definition registered_metrics :: "prometheus \<Rightarrow> metric list" where
  "registered_metrics p =
     [HTTPRequestsTotal_vec, HTTPRequestDuration_vec p] @ pool_gauges @ pool_counters @
     [WatcherScansTotal_vec, WatcherScanDuration_hist] @ GoCollector p @ ProcessCollector p"

text \<open>The values, by the label values of a vector; \<open>collector\<close> holds the pool metrics with the
  previous totals, the local variables of the collector.\<close>

record app_metrics =
  HTTPRequestsTotal :: "string list \<Rightarrow> nat"
  HTTPRequestDuration :: "string list \<Rightarrow> int list"
  collector :: "(int \<times> int \<times> int) \<times> pool_metrics"
  scan_counts :: scan_metrics

definition metrics_New :: "prometheus \<Rightarrow> app_metrics option" where
  "metrics_New p =
     (if registers p (registered_metrics p)
      then Some \<lparr>HTTPRequestsTotal = \<lambda>_. 0, HTTPRequestDuration = \<lambda>_. [], collector = ((0, 0, 0), new_pool_metrics),
                 scan_counts = \<lparr>WatcherScanDuration = [], WatcherScansTotal = \<lambda>_. 0\<rparr>\<rparr>
      else None)"

section \<open>Operations\<close>

definition inc_HTTPRequestsTotal :: "prometheus \<Rightarrow> string list \<Rightarrow> app_metrics \<Rightarrow> app_metrics option" where
  "inc_HTTPRequestsTotal p vs m =
     (if accepts p HTTPRequestsTotal_vec vs
      then Some (m\<lparr>HTTPRequestsTotal := (HTTPRequestsTotal m)(vs := Suc (HTTPRequestsTotal m vs))\<rparr>)
      else None)"

definition observe_HTTPRequestDuration :: "prometheus \<Rightarrow> string list \<Rightarrow> int \<Rightarrow> app_metrics \<Rightarrow> app_metrics option" where
  "observe_HTTPRequestDuration p vs d m =
     (if accepts p (HTTPRequestDuration_vec p) vs
      then Some (m\<lparr>HTTPRequestDuration := (HTTPRequestDuration m)(vs := HTTPRequestDuration m vs @ [d])\<rparr>)
      else None)"

text \<open>What the middleware records of a request, after the handler has returned.\<close>

definition count_request :: "prometheus \<Rightarrow> int \<Rightarrow> observed \<Rightarrow> app_metrics \<Rightarrow> app_metrics option" where
  "count_request p elapsed ob m =
     (case inc_HTTPRequestsTotal p [ov_Method ob, ov_Path ob, FormatInt (ov_Status ob)] m of
        None \<Rightarrow> None
      | Some m \<Rightarrow> observe_HTTPRequestDuration p [ov_Method ob, ov_Path ob] elapsed m)"

definition collect_pool :: "pool_stat \<Rightarrow> app_metrics \<Rightarrow> app_metrics option" where
  "collect_pool stat m = map_option (\<lambda>c. m\<lparr>collector := c\<rparr>) (collect_tick stat (collector m))"

text \<open>Scans report to it, if they are given it.\<close>

definition count_scan :: "prometheus \<Rightarrow> int \<Rightarrow> string \<Rightarrow> app_metrics \<Rightarrow> app_metrics option" where
  "count_scan p d result m =
     (if accepts p WatcherScansTotal_vec [result]
      then map_option (\<lambda>s. m\<lparr>scan_counts := s\<rparr>) (observeScan d result (Some (scan_counts m)))
      else None)"

datatype metric_event = Served request http_resp int | PoolTick pool_stat | Scanned int string

fun metric_step :: "prometheus \<Rightarrow> sub_endpoint router \<Rightarrow> metric_event \<Rightarrow> app_metrics \<Rightarrow> app_metrics option" where
  "metric_step p find_route (Served rq resp elapsed) m =
     (case snd (observe_request find_route rq resp) of
        [] \<Rightarrow> Some m
      | ob # _ \<Rightarrow> count_request p elapsed ob m)"
| "metric_step p find_route (PoolTick stat) m = collect_pool stat m"
| "metric_step p find_route (Scanned d result) m = count_scan p d result m"

fun metric_steps :: "prometheus \<Rightarrow> sub_endpoint router \<Rightarrow> metric_event list \<Rightarrow> app_metrics \<Rightarrow> app_metrics option" where
  "metric_steps p find_route [] m = Some m"
| "metric_steps p find_route (e # es) m = (case metric_step p find_route e m of None \<Rightarrow> None | Some m \<Rightarrow> metric_steps p find_route es m)"

section \<open>What the library promises\<close>

definition letter :: "char \<Rightarrow> bool" where
  "letter c \<longleftrightarrow> c \<in> set ''abcdefghijklmnopqrstuvwxyzABCDEFGHIJKLMNOPQRSTUVWXYZ_''"

definition valid_name :: "string \<Rightarrow> bool" where
  "valid_name s \<longleftrightarrow> s \<noteq> '''' \<and> letter (hd s) \<and> list_all (\<lambda>c. letter c \<or> c \<in> set ''0123456789'') s"

definition valid_metric :: "metric \<Rightarrow> bool" where
  "valid_metric m \<longleftrightarrow> valid_name (mt_Name m) \<and> list_all valid_name (mt_Labels m) \<and> distinct (mt_Labels m) \<and>
     (case mt_Kind m of Histogram bs \<Rightarrow> sorted_wrt (<) bs \<and> ''le'' \<notin> set (mt_Labels m) | _ \<Rightarrow> True)"

definition ascii :: "string \<Rightarrow> bool" where
  "ascii s \<longleftrightarrow> list_all (\<lambda>c. of_char c < (128 :: nat)) s"

text \<open>
  Valid metrics with different names can be registered; as many values as labels are accepted when
  they are UTF-8, as ASCII is; the collectors of the library are valid and keep to their prefixes.
\<close>

definition library_metrics :: "string \<Rightarrow> metric list \<Rightarrow> bool" where
  "library_metrics start ms \<longleftrightarrow> list_all valid_metric ms \<and> distinct (map mt_Name ms) \<and>
     list_all (\<lambda>m. HasPrefix (mt_Name m) start) ms"

definition prometheus_well :: "prometheus \<Rightarrow> bool" where
  "prometheus_well p \<longleftrightarrow>
     (\<forall>ms. list_all valid_metric ms \<and> distinct (map mt_Name ms) \<longrightarrow> registers p ms) \<and>
     (\<forall>m vs. length vs = length (mt_Labels m) \<and> list_all ascii vs \<longrightarrow> accepts p m vs) \<and>
     sorted_wrt (<) (DefBuckets p) \<and> library_metrics ''go_'' (GoCollector p) \<and>
     library_metrics ''process_'' (ProcessCollector p)"

section \<open>Registration\<close>

definition own_metrics :: "prometheus \<Rightarrow> metric list" where
  "own_metrics p = [HTTPRequestsTotal_vec, HTTPRequestDuration_vec p] @ pool_gauges @ pool_counters @
     [WatcherScansTotal_vec, WatcherScanDuration_hist]"

lemmas own_defs = own_metrics_def HTTPRequestsTotal_vec_def HTTPRequestDuration_vec_def pool_gauges_def
  pool_counters_def WatcherScansTotal_vec_def WatcherScanDuration_hist_def plain_def

lemma own_names: "distinct (map mt_Name (own_metrics p))"
  "list_all (\<lambda>m. \<not> HasPrefix (mt_Name m) ''go_'' \<and> \<not> HasPrefix (mt_Name m) ''process_'') (own_metrics p)"
  by (simp_all add: own_defs HasPrefix_def)

lemma own_valid: "sorted_wrt (<) (DefBuckets p) \<Longrightarrow> list_all valid_metric (own_metrics p)"
  by (simp add: own_defs valid_metric_def valid_name_def letter_def)

lemma other_prefix: "HasPrefix s ''go_'' \<Longrightarrow> \<not> HasPrefix s ''process_''"
  by (cases s) (auto simp: HasPrefix_def)

lemma registered_ok: "prometheus_well p \<Longrightarrow> registers p (registered_metrics p)"
proof -
  assume p: "prometheus_well p"
  then have lib: "library_metrics ''go_'' (GoCollector p)" "library_metrics ''process_'' (ProcessCollector p)"
    and own: "list_all valid_metric (own_metrics p)"
    by (simp_all add: prometheus_well_def own_valid)
  have eq: "registered_metrics p = own_metrics p @ GoCollector p @ ProcessCollector p"
    by (simp add: registered_metrics_def own_metrics_def)
  have "distinct (map mt_Name (registered_metrics p))"
    using own_names [of p] lib other_prefix unfolding eq
    by (fastforce simp: library_metrics_def list_all_iff)
  moreover have "list_all valid_metric (registered_metrics p)"
    using lib own unfolding eq by (simp add: library_metrics_def)
  ultimately show ?thesis using p unfolding prometheus_well_def by blast
qed

section \<open>Label values\<close>

lemma ascii_FormatInt: "ascii (FormatInt i)"
proof -
  have "of_char c < (128 :: nat)" if "c \<in> set (FormatInt i)" for c
  proof -
    have "c = CHR ''-'' \<or> (\<exists>d < 10. c = digit_char d)"
      using that show_nat_digits by (auto simp: FormatInt_def split: if_splits)
    then show ?thesis by auto
  qed
  then show ?thesis by (simp add: ascii_def list_all_iff)
qed

text \<open>The patterns the router reports for requests no route takes are made of registered ones.\<close>

definition ascii_misses :: "sub_endpoint router \<Rightarrow> bool" where
  "ascii_misses find_route \<longleftrightarrow> (\<forall>rq status pattern. find_route sub_routes rq = Inl (status, pattern) \<longrightarrow> ascii pattern)"

text \<open>The pattern of the route a request takes, or what the router reports.\<close>

definition path_label :: "sub_endpoint router \<Rightarrow> request \<Rightarrow> string" where
  "path_label find_route rq =
     (case find_route sub_routes rq of
        Inl (_, pattern) \<Rightarrow> if pattern = '''' then ''unmatched'' else pattern
      | Inr (ro, _) \<Rightarrow> ro_Pattern ro)"

lemma sub_pattern: "ro \<in> set sub_routes \<Longrightarrow> ascii (ro_Pattern ro) \<and> ro_Pattern ro \<noteq> ''''"
  by (auto simp: sub_routes_def open_route_def protected_route_def ascii_def)

lemma ascii_path:
  assumes "routes_well find_route" "ascii_misses find_route"
  shows "ascii (path_label find_route rq)"
proof (cases "find_route sub_routes rq")
  case (Inl miss)
  then show ?thesis using assms(2) by (cases miss) (auto simp: path_label_def ascii_misses_def, simp add: ascii_def)
next
  case (Inr hit)
  then show ?thesis
    using routes_hit [OF assms(1)] sub_pattern by (cases hit) (fastforce simp: path_label_def)
qed

lemma observe_request_label:
  assumes "routes_well find_route"
  shows "snd (observe_request find_route rq resp) =
     (if rq_Path rq = ''/metrics'' then []
      else [\<lparr>ov_Method = rq_Method rq, ov_Path = path_label find_route rq, ov_Status = hr_Status resp\<rparr>])"
proof (cases "find_route sub_routes rq")
  case (Inr hit)
  then have "ro_Pattern (fst hit) \<noteq> ''''"
    using routes_hit [OF assms, of sub_routes rq "fst hit" "snd hit"] sub_pattern by simp
  then show ?thesis
    using Inr by (cases hit) (simp add: observe_request_def SkipRoutes_def MetricsMiddleware_def path_label_def
        route_pattern_def Let_def)
qed (auto simp: observe_request_def SkipRoutes_def MetricsMiddleware_def path_label_def route_pattern_def
    unmatchedRoute_def Let_def)

lemma observed_labels:
  assumes "routes_well find_route" "ascii_misses find_route" "ob \<in> set (snd (observe_request find_route rq resp))"
  shows "ov_Method ob = rq_Method rq" "ascii (ov_Path ob)"
  using assms(3) ascii_path [OF assms(1,2)] by (simp_all add: observe_request_label [OF assms(1)] split: if_splits)

section \<open>Everything that was counted\<close>

fun requests :: "sub_endpoint router \<Rightarrow> metric_event list \<Rightarrow> (observed \<times> int) list" where
  "requests find_route [] = []"
| "requests find_route (Served rq resp elapsed # es) =
     map (\<lambda>ob. (ob, elapsed)) (snd (observe_request find_route rq resp)) @ requests find_route es"
| "requests find_route (e # es) = requests find_route es"

fun ticks :: "metric_event list \<Rightarrow> pool_stat list" where
  "ticks [] = []"
| "ticks (PoolTick stat # es) = stat # ticks es"
| "ticks (e # es) = ticks es"

fun scan_events :: "metric_event list \<Rightarrow> (int \<times> string) list" where
  "scan_events [] = []"
| "scan_events (Scanned d result # es) = (d, result) # scan_events es"
| "scan_events (e # es) = scan_events es"

fun sane :: "metric_event \<Rightarrow> bool" where
  "sane (Served rq resp elapsed) = ascii (rq_Method rq)"
| "sane (PoolTick stat) = True"
| "sane (Scanned d result) = ascii result"

definition total_labels :: "observed \<Rightarrow> string list" where
  "total_labels ob = [ov_Method ob, ov_Path ob, FormatInt (ov_Status ob)]"

definition duration_labels :: "observed \<Rightarrow> string list" where
  "duration_labels ob = [ov_Method ob, ov_Path ob]"

lemma observe_request_cases:
  obtains (skipped) "snd (observe_request find_route rq resp) = []"
  | (counted) ob where "snd (observe_request find_route rq resp) = [ob]"
  by (cases "rq_Path rq = ''/metrics''") (auto simp: observe_request_def SkipRoutes_def MetricsMiddleware_def)

lemma count_request_ok:
  assumes "prometheus_well p" "ascii (ov_Method ob)" "ascii (ov_Path ob)"
  shows "count_request p d ob m = Some (m\<lparr>
     HTTPRequestsTotal := (HTTPRequestsTotal m)(total_labels ob := Suc (HTTPRequestsTotal m (total_labels ob))),
     HTTPRequestDuration := (HTTPRequestDuration m)(duration_labels ob := HTTPRequestDuration m (duration_labels ob) @ [d])\<rparr>)"
proof -
  have "accepts p HTTPRequestsTotal_vec (total_labels ob)" "accepts p (HTTPRequestDuration_vec p) (duration_labels ob)"
    using assms ascii_FormatInt
    by (auto simp: prometheus_well_def total_labels_def duration_labels_def HTTPRequestsTotal_vec_def HTTPRequestDuration_vec_def)
  then show ?thesis
    by (simp add: count_request_def inc_HTTPRequestsTotal_def observe_HTTPRequestDuration_def total_labels_def duration_labels_def)
qed

lemma count_scan_ok:
  assumes "prometheus_well p" "ascii result"
  shows "count_scan p d result m = Some (m\<lparr>scan_counts := IncScanResult result (ObserveScanDuration d (scan_counts m))\<rparr>)"
  using assms by (simp add: count_scan_def observeScan_def prometheus_well_def WatcherScansTotal_vec_def)

lemma metric_steps_sum:
  assumes "prometheus_well p" "routes_well find_route" "ascii_misses find_route" "list_all sane es"
    and "in_step (collector m)" "growing (fst (collector m)) (ticks es)"
  shows "metric_steps p find_route es m = Some \<lparr>
     HTTPRequestsTotal = \<lambda>vs. HTTPRequestsTotal m vs + count_list (map (total_labels \<circ> fst) (requests find_route es)) vs,
     HTTPRequestDuration = \<lambda>vs. HTTPRequestDuration m vs @
       map snd (filter (\<lambda>(ob, d). duration_labels ob = vs) (requests find_route es)),
     collector = (if ticks es = [] then collector m else (totals (last (ticks es)), metrics_of (last (ticks es)))),
     scan_counts = (scan_counts m)\<lparr>WatcherScanDuration := WatcherScanDuration (scan_counts m) @ map fst (scan_events es),
       WatcherScansTotal := (\<lambda>r. WatcherScansTotal (scan_counts m) r + count_list (map snd (scan_events es)) r)\<rparr>\<rparr>"
  using assms(4-)
proof (induction es arbitrary: m)
  case Nil
  then show ?case by (auto intro!: app_metrics.equality scan_metrics.equality)
next
  case (Cons e es)
  show ?case
  proof (cases e)
    case (Served rq resp d)
    show ?thesis
    proof (cases find_route rq resp rule: observe_request_cases)
      case skipped
      then show ?thesis using Cons Served by simp
    next
      case (counted ob)
      then have "count_request p d ob m = Some (m\<lparr>
         HTTPRequestsTotal := (HTTPRequestsTotal m)(total_labels ob := Suc (HTTPRequestsTotal m (total_labels ob))),
         HTTPRequestDuration := (HTTPRequestDuration m)(duration_labels ob := HTTPRequestDuration m (duration_labels ob) @ [d])\<rparr>)"
        using count_request_ok [OF assms(1)] observed_labels [OF assms(2,3), of ob rq resp] Cons.prems(1) Served by simp
      then show ?thesis
        using Cons Served counted by (simp add: fun_eq_iff)
    qed
  next
    case (PoolTick stat)
    then show ?thesis
      using Cons by (auto simp: collect_pool_def collect_tick_latest in_step_latest)
  next
    case (Scanned d result)
    then show ?thesis
      using Cons count_scan_ok [OF assms(1)] by (simp add: IncScanResult_def ObserveScanDuration_def fun_eq_iff)
  qed
qed

section \<open>What the page shows\<close>

text \<open>The requests that one time series counts: all but those for the page itself.\<close>

fun labelled :: "sub_endpoint router \<Rightarrow> string \<Rightarrow> string \<Rightarrow> int \<Rightarrow> metric_event \<Rightarrow> bool" where
  "labelled find_route method path status (Served rq resp d) \<longleftrightarrow> rq_Path rq \<noteq> ''/metrics'' \<and> rq_Method rq = method \<and>
     path_label find_route rq = path \<and> hr_Status resp = status"
| "labelled find_route method path status (PoolTick stat) \<longleftrightarrow> False"
| "labelled find_route method path status (Scanned d result) \<longleftrightarrow> False"

lemma count_total:
  "routes_well find_route \<Longrightarrow> count_list (map (total_labels \<circ> fst) (requests find_route es)) [method, path, FormatInt status] =
     length (filter (labelled find_route method path status) es)"
  by (induction es rule: requests.induct)
    (auto simp: observe_request_label total_labels_def dest: FormatInt_inj)

lemma count_duration:
  "routes_well find_route \<Longrightarrow> length (filter (\<lambda>(ob, d). duration_labels ob = [method, path]) (requests find_route es)) =
     length (filter (\<lambda>e. \<exists>status. labelled find_route method path status e) es)"
  by (induction es rule: requests.induct) (auto simp: observe_request_label duration_labels_def)

text \<open>A request, not for the page itself, that the series with this path label counts.\<close>

definition counted_under :: "sub_endpoint router \<Rightarrow> metric_event list \<Rightarrow> string \<Rightarrow> bool" where
  "counted_under find_route es path \<longleftrightarrow> (\<exists>rq resp d. Served rq resp d \<in> set es \<and> rq_Path rq \<noteq> ''/metrics'' \<and>
     path = (case find_route sub_routes rq of
       Inl (_, pattern) \<Rightarrow> if pattern = '''' then ''unmatched'' else pattern
     | Inr (ro, _) \<Rightarrow> ro_Pattern ro))"

lemma requests_labels:
  "routes_well find_route \<Longrightarrow> (ob, d) \<in> set (requests find_route es) \<Longrightarrow> counted_under find_route es (ov_Path ob)"
  by (induction es rule: requests.induct)
    (force simp: observe_request_label counted_under_def path_label_def split: if_splits)+

text \<open>C31: the metrics of the subscription service are well typed and complete. When the client library
  keeps its promises, the methods of the requests and the results of the scans are ASCII, as the methods
  \<^verbatim>\<open>net/http\<close> lets through are, and the totals of the pool do not shrink: registering them succeeds, and however requests, ticks of the pool collector and scans
  follow each other, no call with label values panics: every time series has as many values as its vector
  has labels, and its path label is the pattern of the route that took one of the requests, or, for a
  request no route takes, the pattern the router reports, or \<^verbatim>\<open>unmatched\<close> where it reports none. The request counter
  for a method, path and status is the number of such requests, those for the metrics page left out, the
  latency histogram has one observation for each of them, and the pool metrics are those of the latest
  statistics.\<close>

theorem requests_are_measured:
  assumes "prometheus_well p" "routes_well find_route" "ascii_misses find_route"
    and "list_all sane es" "growing (0, 0, 0) (ticks es)"
  shows "\<exists>m0 m. metrics_New p = Some m0 \<and> metric_steps p find_route es m0 = Some m \<and>
    (\<forall>vs. HTTPRequestsTotal m vs \<noteq> 0 \<longrightarrow> length vs = length (mt_Labels HTTPRequestsTotal_vec) \<and>
       counted_under find_route es (vs ! 1)) \<and>
    (\<forall>vs. HTTPRequestDuration m vs \<noteq> [] \<longrightarrow>
       length vs = length (mt_Labels (HTTPRequestDuration_vec p)) \<and> counted_under find_route es (vs ! 1)) \<and>
    (\<forall>method path status. HTTPRequestsTotal m [method, path, FormatInt status] =
       length (filter (labelled find_route method path status) es)) \<and>
    (\<forall>method path. length (HTTPRequestDuration m [method, path]) =
       length (filter (\<lambda>e. \<exists>status. labelled find_route method path status e) es)) \<and>
    (ticks es \<noteq> [] \<longrightarrow> snd (collector m) = metrics_of (last (ticks es)))"
proof -
  obtain m0 where m0: "metrics_New p = Some m0" "HTTPRequestsTotal m0 = (\<lambda>_. 0)" "HTTPRequestDuration m0 = (\<lambda>_. [])"
    "collector m0 = ((0, 0, 0), new_pool_metrics)"
    using registered_ok [OF assms(1)] by (simp add: metrics_New_def)
  have "in_step (collector m0)" "growing (fst (collector m0)) (ticks es)"
    using m0(4) assms(5) by (simp_all add: in_step_def new_pool_metrics_def)
  note run = metric_steps_sum [OF assms(1-4) this, unfolded m0(2,3)]
  have series: "\<exists>(ob, d) \<in> set (requests find_route es). total_labels ob = vs"
    if "count_list (map (total_labels \<circ> fst) (requests find_route es)) vs \<noteq> 0" for vs
  proof -
    have "vs \<in> set (map (total_labels \<circ> fst) (requests find_route es))" using that count_notin by metis
    then show ?thesis by force
  qed
  show ?thesis
    by (intro exI conjI, rule m0(1), rule run)
      (use requests_labels [OF assms(2)] series in
        \<open>fastforce simp: total_labels_def HTTPRequestsTotal_vec_def,
         fastforce simp: duration_labels_def HTTPRequestDuration_vec_def filter_empty_conv,
         simp_all add: count_total [OF assms(2)] count_duration [OF assms(2)]\<close>)
qed

definition demo_prometheus :: prometheus where
  "demo_prometheus = \<lparr>registers = \<lambda>ms. list_all valid_metric ms \<and> distinct (map mt_Name ms),
     accepts = \<lambda>m vs. length vs = length (mt_Labels m) \<and> list_all ascii vs,
     GoCollector = [plain ''go_goroutines'' Gauge], ProcessCollector = [plain ''process_open_fds'' Gauge],
     DefBuckets = [5, 10]\<rparr>"

lemma demo_prometheus_well: "prometheus_well demo_prometheus"
  by (simp add: prometheus_well_def demo_prometheus_def library_metrics_def plain_def valid_metric_def valid_name_def
      letter_def HasPrefix_def)

definition get_health :: request where
  "get_health = \<lparr>rq_Method = ''GET'', rq_Path = ''/health'', rq_RawPath = '''', rq_Authorization = '''',
     rq_ContentType = '''', rq_Body = NotJson '''', rq_Form = Inl ''''\<rparr>"

theorem requests_are_measured_witness:
  "\<exists>m0 m. metric_steps demo_prometheus first_fit [Served get_health \<lparr>hr_Status = 200, hr_Body = None\<rparr> 3] m0 = Some m \<and>
     HTTPRequestsTotal m [''GET'', ''/health'', ''200''] = 1"
proof -
  let ?es = "[Served get_health \<lparr>hr_Status = 200, hr_Body = None\<rparr> 3]"
  have "list_all sane ?es" "growing (0, 0, 0) (ticks ?es)" by (simp_all add: ascii_def get_health_def)
  moreover have "ascii_misses first_fit" by (simp add: ascii_misses_def first_fit_def ascii_def split: option.splits)
  ultimately have "\<exists>m0 m. metrics_New demo_prometheus = Some m0 \<and> metric_steps demo_prometheus first_fit ?es m0 = Some m \<and>
      (\<forall>method path status. HTTPRequestsTotal m [method, path, FormatInt status] =
         length (filter (labelled first_fit method path status) ?es))"
    using requests_are_measured [OF demo_prometheus_well first_fit_routes_well, of ?es] by blast
  then
  obtain m0 m where m: "metric_steps demo_prometheus first_fit ?es m0 = Some m"
    "\<forall>method path status. HTTPRequestsTotal m [method, path, FormatInt status] =
      length (filter (labelled first_fit method path status) ?es)" by (elim exE conjE)
  have "labelled first_fit ''GET'' ''/health'' 200 (hd ?es)"
    by (simp add: path_label_def route_pattern_def first_fit_def sub_routes_def takes_def open_route_def get_health_def)
  moreover have "FormatInt 200 = ''200''" by code_simp
  ultimately have "HTTPRequestsTotal m [''GET'', ''/health'', ''200''] = 1"
    using m(2) [rule_format, of "''GET''" "''/health''" 200] by simp
  with m(1) show ?thesis by blast
qed

end
