(* ===== verification/Tls.thy ===== *)
theory Tls
  imports Config Github
begin

text \<open>
  The TLS configurations of the gRPC connections: \<^verbatim>\<open>contract/tlsutil\<close> and \<^verbatim>\<open>tls.go\<close> of
  the subscription, auth and monitoring services. Files, key pairs and PEM are the library's: \<open>read_file\<close>
  is \<^verbatim>\<open>os.ReadFile\<close>, \<open>key_pair\<close> is \<^verbatim>\<open>tls.LoadX509KeyPair\<close>, \<open>pem_certs\<close> gives the
  certificates \<^verbatim>\<open>AppendCertsFromPEM\<close> adds to a pool (it reports whether there were any). So is the
  handshake: \<open>handshake_well\<close> states what the documentation of \<^verbatim>\<open>crypto/tls\<close> promises of it.
\<close>

section \<open>Loading\<close>

type_synonym certificate = string

record tls_files =
  read_file :: "string \<Rightarrow> string + string"
  key_pair :: "string \<Rightarrow> string \<Rightarrow> string + certificate"
  pem_certs :: "string \<Rightarrow> certificate list"

definition LoadCertPool ::
  "tls_files \<Rightarrow> string \<Rightarrow> string \<Rightarrow> string \<Rightarrow> go_error + certificate \<times> certificate list" where
  "LoadCertPool fs certPath keyPath caCertPath =
     (case key_pair fs certPath keyPath of
        Inl e \<Rightarrow> Inl (Wrap ''load cert'' (Opaque e))
      | Inr cert \<Rightarrow>
          (case read_file fs caCertPath of
             Inl e \<Rightarrow> Inl (Wrap ''read ca cert'' (Opaque e))
           | Inr caPEM \<Rightarrow>
               (case pem_certs fs caPEM of
                  [] \<Rightarrow> Inl (Opaque ''parse ca cert: invalid PEM'')
                | caPool \<Rightarrow> Inr (cert, caPool))))"

section \<open>Configurations\<close>

datatype client_auth = NoClientCert | RequireAndVerifyClientCert

datatype tls_version = VersionTLS10 | VersionTLS12

text \<open>A pool that is not set is \<open>None\<close>; the zero values are \<open>NoClientCert\<close> and the version the library
  allows at least, written \<open>VersionTLS10\<close> here.\<close>

record tls_config =
  tc_Certificates :: "certificate list"
  tc_RootCAs :: "certificate list option"
  tc_ClientCAs :: "certificate list option"
  tc_ClientAuth :: client_auth
  tc_MinVersion :: tls_version

definition server_config :: "certificate \<times> certificate list \<Rightarrow> tls_config" where
  "server_config loaded = \<lparr>tc_Certificates = [fst loaded], tc_RootCAs = None, tc_ClientCAs = Some (snd loaded),
     tc_ClientAuth = RequireAndVerifyClientCert, tc_MinVersion = VersionTLS12\<rparr>"

definition client_config :: "certificate \<times> certificate list \<Rightarrow> tls_config" where
  "client_config loaded = \<lparr>tc_Certificates = [fst loaded], tc_RootCAs = Some (snd loaded), tc_ClientCAs = None,
     tc_ClientAuth = NoClientCert, tc_MinVersion = VersionTLS12\<rparr>"

definition sub_newGRPCServerTLSConfig :: "tls_files \<Rightarrow> sub_config \<Rightarrow> go_error + tls_config" where
  "sub_newGRPCServerTLSConfig fs cfg =
     map_sum (Wrap ''grpc server tls'') server_config
       (LoadCertPool fs (sc_GRPCTLSCert cfg) (sc_GRPCTLSKey cfg) (sc_GRPCTLSCACert cfg))"

definition sub_newGRPCClientTLSConfig :: "tls_files \<Rightarrow> sub_config \<Rightarrow> go_error + tls_config" where
  "sub_newGRPCClientTLSConfig fs cfg =
     map_sum (Wrap ''grpc client tls'') client_config
       (LoadCertPool fs (sc_GRPCTLSCert cfg) (sc_GRPCTLSKey cfg) (sc_GRPCTLSCACert cfg))"

definition auth_newGRPCServerTLSConfig :: "tls_files \<Rightarrow> auth_config \<Rightarrow> go_error + tls_config" where
  "auth_newGRPCServerTLSConfig fs cfg =
     map_sum (Wrap ''grpc server tls'') server_config
       (LoadCertPool fs (ac_GRPCTLSCert cfg) (ac_GRPCTLSKey cfg) (ac_GRPCTLSCACert cfg))"

definition mon_newGRPCClientTLSConfig :: "tls_files \<Rightarrow> mon_config \<Rightarrow> go_error + tls_config" where
  "mon_newGRPCClientTLSConfig fs cfg =
     map_sum (Wrap ''grpc client tls'') client_config
       (LoadCertPool fs (mc_GRPCTLSCert cfg) (mc_GRPCTLSKey cfg) (mc_GRPCTLSCACert cfg))"

section \<open>Facts\<close>

lemma LoadCertPool_Inr:
  "LoadCertPool fs certPath keyPath caCertPath = Inr (cert, pool) \<longleftrightarrow>
     key_pair fs certPath keyPath = Inr cert \<and> pool \<noteq> [] \<and>
     (\<exists>pem. read_file fs caCertPath = Inr pem \<and> pem_certs fs pem = pool)"
  by (auto simp: LoadCertPool_def split: sum.splits list.splits)

text \<open>No error of loading is one the callers look for.\<close>

lemma LoadCertPool_error:
  "LoadCertPool fs certPath keyPath caCertPath = Inl e \<Longrightarrow> \<not> errors_Is e (Sentinel x)"
  by (auto simp: LoadCertPool_def split: sum.splits list.splits)

text \<open>The two configurations of the subscription service load or fail together.\<close>

lemma sub_configs_together:
  "(\<exists>c. sub_newGRPCServerTLSConfig fs cfg = Inr c) \<longleftrightarrow> (\<exists>c. sub_newGRPCClientTLSConfig fs cfg = Inr c)"
  unfolding sub_newGRPCServerTLSConfig_def sub_newGRPCClientTLSConfig_def
  by (cases "LoadCertPool fs (sc_GRPCTLSCert cfg) (sc_GRPCTLSKey cfg) (sc_GRPCTLSCACert cfg)") simp_all

text \<open>
  A handshake of a client and a server configuration, where \<open>signed pool cert\<close> is the verification of a
  certificate: the server's certificate is verified against the roots of the client, if they are set, and
  a server that requires one verifies the client's against its own pool.
\<close>

definition handshake_well ::
  "(certificate list \<Rightarrow> certificate \<Rightarrow> bool) \<Rightarrow> (tls_config \<Rightarrow> tls_config \<Rightarrow> bool) \<Rightarrow> bool" where
  "handshake_well signed handshake \<longleftrightarrow> (\<forall>client server. handshake client server \<longrightarrow>
     (case tc_RootCAs client of None \<Rightarrow> True | Some pool \<Rightarrow> \<exists>cert \<in> set (tc_Certificates server). signed pool cert) \<and>
     (tc_ClientAuth server = RequireAndVerifyClientCert \<longrightarrow> (\<exists>pool. tc_ClientCAs server = Some pool \<and>
        (\<exists>cert \<in> set (tc_Certificates client). signed pool cert))))"

lemma handshake_mutual:
  assumes "handshake_well signed handshake" "handshake c s" "c = client_config (cert, pool)" "s = server_config (cert', pool')"
  shows "signed pool cert'" "signed pool' cert"
  using assms(1) [unfolded handshake_well_def, rule_format, OF assms(2)] assms(3,4)
  by (auto simp: client_config_def server_config_def)

lemma server_refuses_strangers:
  assumes "handshake_well signed handshake" "\<And>cert. cert \<in> set (tc_Certificates c) \<Longrightarrow> \<not> signed pool cert"
  shows "\<not> handshake c (server_config (cert', pool))"
proof
  assume "handshake c (server_config (cert', pool))"
  from assms(1) [unfolded handshake_well_def, rule_format, OF this] assms(2) show False
    by (auto simp: server_config_def)
qed

text \<open>Both internal APIs, the catalog the monitoring service calls and the signing key the subscription
  service calls, are mutually authenticated with the files of the two services.\<close>

lemma catalog_mutually_authenticated:
  assumes "handshake_well signed handshake" "handshake c s"
    and "mon_newGRPCClientTLSConfig fs mcfg = Inr c" "sub_newGRPCServerTLSConfig fs' scfg = Inr s"
  obtains cert pool cert' pool' where
    "LoadCertPool fs (mc_GRPCTLSCert mcfg) (mc_GRPCTLSKey mcfg) (mc_GRPCTLSCACert mcfg) = Inr (cert, pool)"
    "LoadCertPool fs' (sc_GRPCTLSCert scfg) (sc_GRPCTLSKey scfg) (sc_GRPCTLSCACert scfg) = Inr (cert', pool')"
    "signed pool cert'" "signed pool' cert"
proof -
  obtain cert pool cert' pool' where
    l: "LoadCertPool fs (mc_GRPCTLSCert mcfg) (mc_GRPCTLSKey mcfg) (mc_GRPCTLSCACert mcfg) = Inr (cert, pool)"
    "LoadCertPool fs' (sc_GRPCTLSCert scfg) (sc_GRPCTLSKey scfg) (sc_GRPCTLSCACert scfg) = Inr (cert', pool')"
    "c = client_config (cert, pool)" "s = server_config (cert', pool')"
    using assms(3,4) unfolding mon_newGRPCClientTLSConfig_def sub_newGRPCServerTLSConfig_def
    by (auto simp: map_sum_def split: sum.splits)
  then show thesis using that handshake_mutual [OF assms(1,2) l(3,4)] by blast
qed

end
