(* ===== verification/Wiring.thy ===== *)
theory Wiring
  imports Tls Requests Accounts Scan Startup
begin

text \<open>
  What each service makes of its configuration once everything is connected: the second half of
  \<^verbatim>\<open>Build\<close> (\<^verbatim>\<open>app.go\<close>) and of \<^verbatim>\<open>run\<close> (\<^verbatim>\<open>cmd/monitoring\<close>,
  \<^verbatim>\<open>cmd/notification\<close>), with the adapters for the pings. A component is the handler the other theories
  define, applied to what it is given. The database ping is the error of \<^verbatim>\<open>pool.Ping\<close>.
\<close>

section \<open>Pings\<close>

datatype nats_status = DISCONNECTED | CONNECTED | CLOSED | RECONNECTING | CONNECTING | DRAINING_SUBS | DRAINING_PUBS

definition natsPinger :: "nats_status \<Rightarrow> ping" where
  "natsPinger status = (if status \<noteq> CONNECTED then Some ''not connected'' else None)"

definition dbPinger :: "string option \<Rightarrow> ping" where
  "dbPinger pool = pool"

section \<open>Subscription service\<close>

record sub_app =
  sa_Addr :: string
  sa_httpServer :: "request \<Rightarrow> (sub_db, http_resp) run"
  sa_grpcCreds :: tls_config
  sa_ListTrackedRepos :: "(sub_db, (grpc_code \<times> go_error) + TrackedRepo list) run"
  sa_relay :: "unit sub_io"
  sa_fanout :: "bytes \<Rightarrow> (sub_db, verdict) run"
  sa_sagaCons :: "string \<Rightarrow> bytes \<Rightarrow> (sub_db, verdict) run"
  sa_sagaReaper :: "unit sub_io"

definition wire_sub ::
  "sub_endpoint router \<Rightarrow> surroundings \<Rightarrow> (string \<Rightarrow> bool) \<Rightarrow> http_transport \<Rightarrow> tls_config \<Rightarrow>
   string option \<Rightarrow> nats_status \<Rightarrow> sub_config \<Rightarrow> sub_app" where
  "wire_sub find_route su parse_ok net grpcTLSConfig dbPool nc cfg =
     (let githubClient = NewGithubClient (Some (sc_GithubToken cfg)) in
      \<lparr>sa_Addr = '':'' @ sc_Port cfg,
       sa_httpServer = sub_serve find_route (su\<lparr>su_db := dbPinger dbPool, su_nats := natsPinger nc\<rparr>)
         (sub_use_cases parse_ok (CheckRepo net githubClient) (sc_SagaConfirmTTL cfg)),
       sa_grpcCreds = grpcTLSConfig,
       sa_ListTrackedRepos = ListTrackedRepos (ListTracked (store_ListTracked Pool)),
       sa_relay = sub_publishPending,
       sa_fanout = fanout_Consume recipient_lister,
       sa_sagaCons = saga_Consume orchestrator,
       sa_sagaReaper = reap orchestrator\<rparr>)"

section \<open>Auth service\<close>

record auth_app =
  aa_Addr :: string
  aa_httpServer :: "request \<Rightarrow> (auth_db, http_resp) run"
  aa_grpcCreds :: tls_config
  aa_GetSigningKey :: signing_key
  aa_relay :: "unit auth_io"

definition wire_auth ::
  "auth_endpoint router \<Rightarrow> crypto \<Rightarrow> Signer \<Rightarrow> tls_config \<Rightarrow> string option \<Rightarrow> nats_status \<Rightarrow> auth_config \<Rightarrow> auth_app" where
  "wire_auth find_route cy signer grpcTLSConfig dbPool nc cfg =
     \<lparr>aa_Addr = '':'' @ ac_Port cfg,
      aa_httpServer = auth_serve find_route cy signer (ac_VerifyTokenTTL cfg) (ac_RefreshTokenTTL cfg)
        (dbPinger dbPool) (natsPinger nc),
      aa_grpcCreds = grpcTLSConfig,
      aa_GetSigningKey = GetSigningKey signer,
      aa_relay = auth_publishPending\<rparr>"

section \<open>Monitoring service\<close>

text \<open>The worker is given no metrics.\<close>

record mon_app =
  ma_Addr :: string
  ma_health :: http_resp
  ma_grpcCreds :: tls_config
  ma_processRepository :: "mon_TrackedRepo \<Rightarrow> unit mon_io"
  ma_relay :: "unit mon_io"

definition wire_mon :: "http_transport \<Rightarrow> tls_config \<Rightarrow> string option \<Rightarrow> nats_status \<Rightarrow> mon_config \<Rightarrow> mon_app" where
  "wire_mon net grpcTLSConfig pool nc cfg =
     (let githubClient = NewGithubClient (Some (mc_GithubToken cfg)) in
      \<lparr>ma_Addr = '':'' @ mc_Port cfg,
       ma_health = health_Handler [(''db'', dbPinger pool), (''nats'', natsPinger nc)],
       ma_grpcCreds = grpcTLSConfig,
       ma_processRepository = processRepository (GetLatestTag net githubClient)
         (client_UpdateLastSeenTagAtomic UpdateLastSeenTagAtomic) Monitoring.Enqueue,
       ma_relay = mon_publishPending\<rparr>)"

section \<open>Notification service\<close>

record ntf_app =
  na_Addr :: string
  na_health :: http_resp
  na_consumer :: "(int \<Rightarrow> string) \<Rightarrow> string \<Rightarrow> bytes \<Rightarrow> MsgMetadata option \<Rightarrow> (smtp, verdict) run"

definition wire_ntf :: "nats_status \<Rightarrow> ntf_config \<Rightarrow> ntf_app" where
  "wire_ntf nc cfg =
     (let m = NewMailer (nc_SMTPHost cfg) (nc_SMTPPort cfg) (nc_SMTPUser cfg) (nc_SMTPPass cfg) (nc_FromEmail cfg)
              (nc_AppBaseURL cfg) in
      \<lparr>na_Addr = '':'' @ nc_Port cfg,
       na_health = health_Handler [(''nats'', natsPinger nc)],
       na_consumer = (\<lambda>rfc3339. consume rfc3339 (smtp_mailer m))\<rparr>)"

text \<open>\<^verbatim>\<open>main\<close>: the exit code of the process.\<close>

definition main_exit :: "unit error + unit \<Rightarrow> nat" where
  "main_exit result = (case result of Inl e \<Rightarrow> 1 | Inr () \<Rightarrow> 0)"

section \<open>GitHub\<close>

text \<open>How the answer of GitHub to the check of a repository becomes the error of the use case.\<close>

lemma github_check_outcomes:
  "verifyRepo (CheckRepo net s) repo =
     (case doGet net s 10 (''/repos/'' @ TrimSpace repo) of
        Inl e \<Rightarrow> Some (Wrap ''github repo check failed'' e)
      | Inr resp \<Rightarrow>
          if rs_StatusCode resp = 200 then None
          else if rs_StatusCode resp = 404 then Some (Sentinel sub_ErrRepoNotFound)
          else if rate_limited resp then Some (Sentinel sub_ErrTooMuchRequests)
          else if rs_StatusCode resp = 401 then Some (Sentinel sub_ErrGitHubUnauthorized)
          else Some (Wrap ''github repo check failed'' (unexpected_status resp)))"
  by (auto simp: verifyRepo_def CheckRepo_def determineResponse_def Let_def gh_ErrNotFound_def
      unexpected_status_def rate_limited_def dest: doGet_error split: sum.splits)

text \<open>The request the service sends for a repository, with the token of its environment if there is one.\<close>

definition check_request :: "getenv \<Rightarrow> string \<Rightarrow> http_request" where
  "check_request env repo = \<lparr>rq_URL = ''https://api.github.com/repos/'' @ repo,
     rq_Header = [(''Accept'', ''application/vnd.github+json''), (''X-Github-Api-Version'', ''2022-11-28''),
       (''User-Agent'', ''GithubReleaseNotificationAPI'')] @
       (if env ''GITHUB_TOKEN'' = '''' then [] else [(''Authorization'', ''Bearer '' @ env ''GITHUB_TOKEN'')]),
     rq_Timeout = 10\<rparr>"

lemma sub_Load_token: "sub_Load duration env = Inr cfg \<Longrightarrow> sc_GithubToken cfg = env ''GITHUB_TOKEN''"
  by (auto simp: sub_Load_def sub_applyDefaults_def sub_loadFromEnv_def Let_def split: option.splits)

lemma doGet_check:
  assumes "sub_Load duration env = Inr cfg" "url_ok net (rq_URL (check_request env repo))"
  shows "doGet net (NewGithubClient (Some (sc_GithubToken cfg))) 10 (''/repos/'' @ repo) =
    (case client_Do net (check_request env repo) of
       Inl e \<Rightarrow> Inl (Wrap ''perform github request'' (Opaque e))
     | Inr resp \<Rightarrow> Inr resp)"
  using assms(2) unfolding doGet_def check_request_def
  by (simp add: NewGithubClient_def GithubAPI_def request_headers_def githubAPIVersion_def userAgent_def
      sub_Load_token [OF assms(1)])

definition refusal :: "http_response \<Rightarrow> int" where
  "refusal answer =
     (if rs_StatusCode answer = 404 then 404
      else if rs_StatusCode answer \<in> {403, 429} \<and>
        (rs_Header answer ''X-Ratelimit-Remaining'' = ''0'' \<or> rs_Header answer ''Retry-After'' \<noteq> '''') then 429
      else if rs_StatusCode answer = 401 then 502
      else 500)"

lemma sub_handleError_status:
  "hr_Status (sub_handleError (Sentinel sub_ErrRepoNotFound)) = 404"
  "hr_Status (sub_handleError (Sentinel sub_ErrTooMuchRequests)) = 429"
  "hr_Status (sub_handleError (Sentinel sub_ErrGitHubUnauthorized)) = 502"
  "hr_Status (sub_handleError (Wrap t (Wrap t' (Opaque e)))) = 500"
  "hr_Status (sub_handleError (Wrap t (unexpected_status answer))) = 500"
  by (simp_all add: sub_handleError_def unexpected_status_def)

text \<open>C40: what GitHub answers to the check of a repository reaches the client. In the service as it is
  wired from its configuration, a well-formed request to subscribe, with a token, asks GitHub for the
  repository, with the access token of the environment if there is one. When the answer at the end of
  its redirects (at most nine) is anything but 200, when there are more redirects or one cannot be
  followed, or GitHub cannot be reached, nothing is written, and the client is told: 404 for an unknown
  repository, 429 when the rate limit is hit, 502 when GitHub refuses the service's own token, 500
  otherwise.\<close>

theorem github_verdict_reaches_client:
  assumes "routes_well find_route" "sub_Load duration env = Inr cfg"
    and "plain_request ''POST'' ''/api/subscribe'' p" "authenticate su p = Inr email"
    and "subscription_input su email p = Inr req" "sr_Repo req \<noteq> ''''"
    and "normalizeSubscribeInput parse_ok email (sr_Repo req) = Inr (address, repo)"
    and "url_ok net (rq_URL (check_request env repo))"
  shows "wp (sa_httpServer (wire_sub find_route su parse_ok net creds pool nc cfg) p) (\<lambda>resp w'.
    case client_Do net (check_request env repo) of
      Inl e \<Rightarrow> w' = w \<and> hr_Status resp = 500
    | Inr answer \<Rightarrow> rs_StatusCode answer \<noteq> 200 \<longrightarrow> w' = w \<and> hr_Status resp = refusal answer) w"
proof -
  have email: "email \<noteq> ''''" and auth: "AuthJWT (su_parse su) (su_key su) (su_now su) (rq_Authorization p) = Inr email"
    using assms(4) AuthJWT_address by (auto simp: authenticate_def)
  let ?check = "CheckRepo net (NewGithubClient (Some (sc_GithubToken cfg)))"
  have repo: "TrimSpace repo = repo" using normalize_ok [OF assms(7)] by simp
  have handler: "sa_httpServer (wire_sub find_route su parse_ok net creds pool nc cfg) p =
      do { x \<leftarrow> Subscribe_Execute parse_ok ?check (sc_SagaConfirmTTL cfg) email (sr_Repo req);
           ret (case x of Inl e \<Rightarrow> sub_handleError e
             | Inr _ \<Rightarrow> respond_JSON 200 (message ''Subscription successful. Confirmation email sent'')) }"
    using assms(5,6) email
    by (simp add: wire_sub_def Let_def sub_serve_def sub_route_hits(1) [OF assms(1,3)] run_route_def authenticate_def
        auth run_endpoint_def sub_use_cases_def Handler_Subscribe_def subscription_input_def)
  have refused: "wp (sa_httpServer (wire_sub find_route su parse_ok net creds pool nc cfg) p)
      (\<lambda>resp w'. w' = w \<and> resp = sub_handleError e) w" if "verifyRepo ?check repo = Some e" for e
    unfolding handler by (simp add: Subscribe_Execute_def assms(7) that wp_bind wp_return)
  note verdict = github_check_outcomes [of net "NewGithubClient (Some (sc_GithubToken cfg))" repo,
      unfolded repo doGet_check [OF assms(2,8)]]
  show ?thesis
  proof (cases "client_Do net (check_request env repo)")
    case (Inl e)
    then show ?thesis
      using wp_mono [OF refused] verdict by (simp add: sub_handleError_status)
  next
    case (Inr answer)
    show ?thesis
    proof (cases "rs_StatusCode answer = 200")
      case False
      then obtain e where "verifyRepo ?check repo = Some e" "hr_Status (sub_handleError e) = refusal answer"
        using verdict Inr by (auto simp: refusal_def rate_limited_def sub_handleError_status split: if_splits)
      then show ?thesis using wp_mono [OF refused] Inr by simp
    qed (simp add: Inr wp_def split: prod.splits)
  qed
qed

text \<open>GitHub redirects once, to a repository that is gone.\<close>

definition moved_repo :: http_transport where
  "moved_repo = \<lparr>url_ok = \<lambda>_. True,
     RoundTrip = \<lambda>rq. Inr (if rq_URL rq = ''https://api.github.com/repos/o/r''
       then \<lparr>rs_StatusCode = 301, rs_Header = (\<lambda>_. '''')(''Location'' := ''/repositories/7''), rs_Body = NotJson ''''\<rparr>
       else \<lparr>rs_StatusCode = 404, rs_Header = \<lambda>_. '''', rs_Body = NotJson ''''\<rparr>),
     url_Parse = \<lambda>_ loc. Some (''https://api.github.com'' @ loc), url_referer = \<lambda>last _. last, same_site = \<lambda>_ _. True,
     time_ok = \<lambda>_. True\<rparr>"

lemma moved_repo_answer:
  "client_Do moved_repo (check_request env ''o/r'') =
     Inr \<lparr>rs_StatusCode = 404, rs_Header = \<lambda>_. '''', rs_Body = NotJson ''''\<rparr>"
  by (simp add: client_Do_def follow.simps moved_repo_def check_request_def redirects_def redirected_def Let_def
      split: nat.split)

definition demo_env :: getenv where
  "demo_env = (\<lambda>v. if v = ''PORT'' then ''80'' else if v = ''GRPC_PORT'' then ''81'' else ''set'')"

definition demo_cfg :: sub_config where
  "demo_cfg = sub_applyDefaults (sub_loadFromEnv (\<lambda>_. None) demo_env)"

lemma demo_cfg_loads: "sub_Load (\<lambda>_. None) demo_env = Inr demo_cfg"
proof -
  have "Atoi ''80'' = Some 80" "Atoi ''81'' = Some 81" by code_simp+
  then show ?thesis
    by (simp add: sub_Load_valid demo_cfg_def sub_applyDefaults_def sub_loadFromEnv_def demo_env_def or_default_def
        tcp_port_def)
qed

theorem github_verdict_reaches_client_witness:
  "hr_Status (run_result (sa_httpServer (wire_sub first_fit demo_surroundings (\<lambda>_. True) moved_repo (server_config (''cert'', [])) None CONNECTED demo_cfg)
     (demo_request ''POST'' ''/api/subscribe'' ''Bearer jwt'')) (calm_world empty_sub_db 0 [])) = 404"
proof -
  have input: "subscription_input demo_surroundings ''a@x.y'' (demo_request ''POST'' ''/api/subscribe'' ''Bearer jwt'') =
      Inr \<lparr>sr_Repo = ''o/r''\<rparr>"
    by (simp add: subscription_input_def decodeSubscriptionRequest_def demo_request_def HasPrefix_def)
  have norm: "normalizeSubscribeInput (\<lambda>_. True) ''a@x.y'' (sr_Repo \<lparr>sr_Repo = ''o/r''\<rparr>) = Inr (''a@x.y'', ''o/r'')"
    by code_simp
  show ?thesis
    using github_verdict_reaches_client [OF first_fit_routes_well demo_cfg_loads demo_plain demo_authenticate(2) input _ norm,
        of moved_repo "server_config (''cert'', [])" None CONNECTED "calm_world empty_sub_db 0 []"]
    by (simp add: moved_repo_answer wp_run refusal_def) (simp add: moved_repo_def)
qed

section \<open>Health\<close>

text \<open>A probe of the container, when the service listens at its address and answers a request for
  \<^verbatim>\<open>/health\<close> with this status, and nobody else listens on the host.\<close>

definition listening :: "string \<Rightarrow> int \<Rightarrow> string \<Rightarrow> string + int \<times> bool" where
  "listening addr status url =
     (if url = ''http://localhost'' @ addr @ ''/health'' then Inr (status, True) else Inl ''connection refused'')"

lemma probe_listening:
  "healthcheck_main (listening (CHR '':'' # or_default port ''8080'') status) port = (if status = 200 then 0 else 1)"
  by (simp add: healthcheck_main_def healthcheck_url_def listening_def or_default_def)

lemma ports:
  "sub_Load duration env = Inr scfg \<Longrightarrow> sc_Port scfg = or_default (env ''PORT'') ''8080''"
  "auth_Load duration env = Inr acfg \<Longrightarrow> ac_Port acfg = or_default (env ''PORT'') ''8080''"
  "mon_Load duration env = (mcfg, None) \<Longrightarrow> mc_Port mcfg = or_default (env ''PORT'') ''8080''"
  "ntf_Load uri env = Inr ncfg \<Longrightarrow> nc_Port ncfg = or_default (env ''PORT'') ''8080''"
  by (auto simp: sub_Load_def sub_applyDefaults_def sub_loadFromEnv_def auth_Load_def auth_applyDefaults_def
      auth_loadFromEnv_def mon_Load_def mon_applyDefaults_def mon_loadFromEnv_def ntf_Load_def ntf_applyDefaults_def
      ntf_loadFromEnv_def Let_def split: option.splits)

text \<open>The probe of each container succeeds exactly when the database answers the ping of the service (the
  notification service has none) and its NATS connection is up.\<close>

lemma sub_probe:
  assumes "routes_well find_route" "sub_Load duration env = Inr cfg" "plain_request ''GET'' ''/health'' rq"
    and "pool \<noteq> Some ''ok''"
  shows "let app = wire_sub find_route su parse_ok net creds pool nc cfg in
    healthcheck_main (listening (sa_Addr app) (hr_Status (run_result (sa_httpServer app rq) w))) (env ''PORT'') = 0
      \<longleftrightarrow> pool = None \<and> nc = CONNECTED"
  using assms(4)
  by (auto simp: wire_sub_def Let_def ports(1) [OF assms(2)] probe_listening sub_serve_def
      sub_route_hits(3) [OF assms(1,3)] run_route_def run_endpoint_def run_result_def healthHandler_status
      dbPinger_def natsPinger_def)

lemma auth_probe:
  assumes "routes_well find_route" "auth_Load duration env = Inr cfg" "plain_request ''GET'' ''/health'' rq"
    and "pool \<noteq> Some ''ok''"
  shows "let app = wire_auth find_route cy signer creds pool nc cfg in
    healthcheck_main (listening (aa_Addr app) (hr_Status (run_result (aa_httpServer app rq) w))) (env ''PORT'') = 0
      \<longleftrightarrow> pool = None \<and> nc = CONNECTED"
proof -
  have "find_route auth_routes rq = Inr (open_route ''GET'' ''/health'' EpAuthHealth, '''')"
    by (rule routes_unique [OF assms(1)]; auto simp: plain_takes [OF assms(3)] auth_routes_def split: if_splits)
  then show ?thesis
    using assms(4)
    by (auto simp: wire_auth_def Let_def ports(2) [OF assms(2)] probe_listening auth_serve_def run_auth_endpoint_def
        run_result_def healthHandler_status dbPinger_def natsPinger_def)
qed

lemma mon_probe:
  assumes "mon_Load duration env = (cfg, None)"
  shows "let app = wire_mon net creds pool nc cfg in
    healthcheck_main (listening (ma_Addr app) (hr_Status (ma_health app))) (env ''PORT'') = 0
      \<longleftrightarrow> pool = None \<and> nc = CONNECTED"
  by (auto simp: wire_mon_def Let_def ports(3) [OF assms] probe_listening health_Handler_status dbPinger_def natsPinger_def)

lemma ntf_probe:
  assumes "ntf_Load uri env = Inr cfg"
  shows "let app = wire_ntf nc cfg in
    healthcheck_main (listening (na_Addr app) (hr_Status (na_health app))) (env ''PORT'') = 0 \<longleftrightarrow> nc = CONNECTED"
  by (auto simp: wire_ntf_def Let_def ports(4) [OF assms] probe_listening health_Handler_status natsPinger_def)

text \<open>A process that exits with 0 has closed what it opened.\<close>

lemma clean_exit:
  assumes "bt_open (committed w) = []" "main_exit (run_result (service_run s e) w) = 0"
  shows "bt_open (committed (run_world (service_run s e) w)) = []"
proof -
  have "always_ends (service_run s e) (\<lambda>r b'. r = Inr () \<longrightarrow> bt_open b' = []) (committed w)"
    using outcome_mono [OF sub_run_open [OF assms(1)]] outcome_mono [OF auth_run_open [OF assms(1)]]
      outcome_mono [OF mon_run_open [OF assms(1)]] outcome_mono [OF ntf_run_open [OF assms(1)]]
    by (cases s) (simp_all add: service_run_def)
  moreover have "run_result (service_run s e) w = Inr ()"
    using assms(2) by (auto simp: main_exit_def split: sum.splits)
  ultimately show ?thesis by (simp add: always_ends_def wp_run)
qed

end
