(* ===== verification/Copies.thy ===== *)
theory Copies
  imports Wiring "HOL-Library.List_Lexorder" "HOL-Library.Char_ord"
begin

text \<open>
  The services keep copies of some packages: the GitHub client, the health checks, the pings and the
  JSON responses. Here each copy is translated from its own file, and proved to be the function the
  other theories use. The health handlers run through a Go map, in an order that changes from run to
  run: here this order is a parameter, and the answer does not depend on it.
\<close>

section \<open>The GitHub client of the monitoring service\<close>

definition mon_NewGithubClient :: "string option \<Rightarrow> Service" where
  "mon_NewGithubClient token = \<lparr>githubToken = token, baseURL = ''https://api.github.com''\<rparr>"

definition mon_doGet :: "http_transport \<Rightarrow> Service \<Rightarrow> nat \<Rightarrow> string \<Rightarrow> go_error + http_response" where
  "mon_doGet net s timeout path =
     (if \<not> url_ok net (baseURL s @ path) then Inl (Wrap ''build github request'' (Opaque ''invalid URL''))
      else
        (let header = [(''Accept'', ''application/vnd.github+json''), (''X-Github-Api-Version'', ''2022-11-28''),
               (''User-Agent'', ''GithubReleaseNotificationAPI'')];
             header = (case githubToken s of
               None \<Rightarrow> header
             | Some t \<Rightarrow> if t = '''' then header else header @ [(''Authorization'', ''Bearer '' @ t)]) in
         case client_Do net \<lparr>rq_URL = baseURL s @ path, rq_Header = header, rq_Timeout = timeout\<rparr> of
           Inl e \<Rightarrow> Inl (Wrap ''perform github request'' (Opaque e))
         | Inr resp \<Rightarrow> Inr resp))"

definition mon_determineResponse :: "http_response \<Rightarrow> go_error option" where
  "mon_determineResponse resp =
     (let status = rs_StatusCode resp;
          unexpected = WrapEnd (Sentinel gh_ErrUnexpectedResponse) (''status '' @ FormatInt status) in
      if status = 200 then None
      else if status = 404 then Some gh_ErrNotFound
      else if status = 401 then Some (Sentinel gh_ErrUnauthorized)
      else if status \<in> {403, 429} then
        (if rs_Header resp ''X-Ratelimit-Remaining'' = ''0'' \<or> rs_Header resp ''Retry-After'' \<noteq> ''''
         then Some (Sentinel gh_ErrRateLimited) else Some unexpected)
      else if status = 301 then Some unexpected
      else Some unexpected)"

definition mon_CheckRepo :: "http_transport \<Rightarrow> Service \<Rightarrow> string \<Rightarrow> go_error option" where
  "mon_CheckRepo net s fullName =
     (case mon_doGet net s 10 (''/repos/'' @ TrimSpace fullName) of
        Inl e \<Rightarrow> Some e
      | Inr resp \<Rightarrow> mon_determineResponse resp)"

text \<open>The subscription service does not call its copy of \<^verbatim>\<open>GetLatestTag\<close>.\<close>

definition sub_GetLatestTag :: "http_transport \<Rightarrow> Service \<Rightarrow> string \<Rightarrow> go_error + Release" where
  "sub_GetLatestTag net s fullName =
     (case doGet net s 5 (''/repos/'' @ TrimSpace fullName @ ''/releases/latest'') of
        Inl e \<Rightarrow> Inl e
      | Inr resp \<Rightarrow>
          (case determineResponse resp of
             Some e \<Rightarrow> Inl e
           | None \<Rightarrow>
               (case decode_release (time_ok net) (rs_Body resp) of
                  None \<Rightarrow> Inl (Wrap ''decode latest github release response'' (Opaque ''invalid JSON''))
                | Some r \<Rightarrow> Inr \<lparr>gr_Tag = lr_TagName r, gr_Name = lr_Name r, gr_URL = lr_HTMLURL r,
                                  gr_PublishedAt = lr_PublishedAt r\<rparr>)))"

lemma determineResponse_copy: "mon_determineResponse = determineResponse"
  by (rule ext) (simp add: mon_determineResponse_def determineResponse_def unexpected_status_def Let_def)

lemma doGet_copy: "mon_doGet = doGet"
  by (intro ext) (simp add: mon_doGet_def doGet_def request_headers_def githubAPIVersion_def userAgent_def Let_def
      split: option.splits)

lemma github_copies_agree:
  "mon_NewGithubClient token = NewGithubClient token" "mon_CheckRepo net s fullName = CheckRepo net s fullName"
  "sub_GetLatestTag net s fullName = GetLatestTag net s fullName"
  by (simp_all add: mon_NewGithubClient_def NewGithubClient_def GithubAPI_def mon_CheckRepo_def CheckRepo_def
      doGet_copy determineResponse_copy sub_GetLatestTag_def GetLatestTag_def toDomain_def cong: sum.case_cong option.case_cong)

section \<open>Pings and responses\<close>

definition auth_dbPinger :: "string option \<Rightarrow> ping" where
  "auth_dbPinger pool = pool"

definition auth_natsPinger :: "nats_status \<Rightarrow> ping" where
  "auth_natsPinger status = (if status \<noteq> CONNECTED then Some ''not connected'' else None)"

definition mon_dbPinger :: "string option \<Rightarrow> ping" where
  "mon_dbPinger pool = pool"

definition mon_natsPinger :: "nats_status \<Rightarrow> ping" where
  "mon_natsPinger status = (if status \<noteq> CONNECTED then Some ''not connected'' else None)"

definition ntf_natsPinger :: "nats_status \<Rightarrow> ping" where
  "ntf_natsPinger status = (if status \<noteq> CONNECTED then Some ''not connected'' else None)"

lemma pings_agree:
  "auth_dbPinger = dbPinger" "mon_dbPinger = dbPinger"
  "auth_natsPinger = natsPinger" "mon_natsPinger = natsPinger" "ntf_natsPinger = natsPinger"
  by (intro ext; simp add: auth_dbPinger_def mon_dbPinger_def dbPinger_def auth_natsPinger_def mon_natsPinger_def
      ntf_natsPinger_def natsPinger_def)+

definition auth_respond_JSON :: "int \<Rightarrow> json \<Rightarrow> http_resp" where
  "auth_respond_JSON statusCode body = \<lparr>hr_Status = statusCode, hr_Body = Some body\<rparr>"

definition auth_respond_Error :: "int \<Rightarrow> string \<Rightarrow> http_resp" where
  "auth_respond_Error statusCode msg = auth_respond_JSON statusCode (JObj [(''error'', JStr msg)])"

lemma responses_agree: "auth_respond_JSON = respond_JSON" "auth_respond_Error = respond_Error"
  by (intro ext; simp add: auth_respond_Error_def respond_Error_def auth_respond_JSON_def respond_JSON_def)+

section \<open>Health\<close>

text \<open>The members of a map are encoded in the order of their names.\<close>

definition map_json :: "(string \<times> string) list \<Rightarrow> json" where
  "map_json ms = JObj (map (\<lambda>(name, v). (name, JStr v)) (sort_key fst ms))"

text \<open>The health handler of the notification service visits its checks in the order \<open>checks\<close>.\<close>

fun visit_checks ::
  "(string \<times> ping) list \<Rightarrow> (string \<times> string) list \<Rightarrow> int \<Rightarrow> string \<Rightarrow> (string \<times> string) list \<times> int \<times> string" where
  "visit_checks [] results status overall = (results, status, overall)"
| "visit_checks ((name, p) # checks) results status overall =
     (case p of
        Some e \<Rightarrow> visit_checks checks (results @ [(name, e)]) 503 ''unhealthy''
      | None \<Rightarrow> visit_checks checks (results @ [(name, ''ok'')]) status overall)"

definition ntf_health_Handler :: "(string \<times> ping) list \<Rightarrow> http_resp" where
  "ntf_health_Handler checks =
     (let (results, status, overall) = visit_checks checks [] 200 ''ok'' in
      \<lparr>hr_Status = status, hr_Body = Some (JObj [(''checks'', map_json results), (''status'', JStr overall)])\<rparr>)"

text \<open>The health handler of the auth service looks at the results in the order of the names \<open>order\<close>.\<close>

definition auth_checkDep :: "ping \<Rightarrow> string" where
  "auth_checkDep p = (case p of Some e \<Rightarrow> e | None \<Rightarrow> ''ok'')"

fun auth_verdict :: "(string \<rightharpoonup> string) \<Rightarrow> string list \<Rightarrow> int \<times> string" where
  "auth_verdict checks [] = (200, ''ok'')"
| "auth_verdict checks (name # order) =
     (if checks name \<noteq> Some ''ok'' then (503, ''unhealthy'') else auth_verdict checks order)"

definition auth_healthHandler :: "string list \<Rightarrow> ping \<Rightarrow> ping \<Rightarrow> http_resp" where
  "auth_healthHandler order db nats =
     (let checks = [(''db'', auth_checkDep db), (''nats'', auth_checkDep nats)];
          (status, overall) = auth_verdict (map_of checks) order in
      \<lparr>hr_Status = status, hr_Body = Some (JObj [(''checks'', map_json checks), (''status'', JStr overall)])\<rparr>)"

lemma visit_checks_verdict:
  "visit_checks checks results status overall =
     (results @ map (\<lambda>c. (fst c, checkDep (snd c))) checks,
      if \<forall>c \<in> set checks. snd c = None then (status, overall) else (503, ''unhealthy''))"
  by (induction checks results status overall rule: visit_checks.induct) (auto simp: checkDep_def split: option.splits)

lemma sort_key_mset:
  assumes "distinct (map f xs)" "sorted (map f xs)" "mset ys = mset xs"
  shows "sort_key f ys = xs"
proof (rule map_sorted_distinct_set_unique)
  have "set ys = set xs" "distinct ys" using assms by (auto dest: mset_eq_setD mset_eq_imp_distinct_iff simp: distinct_map)
  then show "inj_on f (set (sort_key f ys) \<union> set xs)" "distinct (map f (sort_key f ys))" "set (sort_key f ys) = set xs"
    using assms(1) by (simp_all add: distinct_map)
qed (use assms in simp_all)

lemma map_json_mset:
  assumes "distinct (map fst ms)" "sorted (map fst ms)" "mset ms' = mset ms"
  shows "map_json ms' = JObj (map (\<lambda>(name, v). (name, JStr v)) ms)"
  using sort_key_mset [OF assms] by (simp add: map_json_def)

lemma health_ignores_map_order:
  assumes "distinct (map fst checks)" "sorted (map fst checks)" "mset order = mset checks"
  shows "ntf_health_Handler order = health_Handler checks"
proof -
  let ?g = "\<lambda>c. (fst c, checkDep (snd c))"
  have "map_json (map ?g order) = JObj (map (\<lambda>(name, v). (name, JStr v)) (map ?g checks))"
    using assms by (intro map_json_mset) (simp_all add: comp_def)
  moreover have "set order = set checks" using assms(3) by (rule mset_eq_setD)
  ultimately show ?thesis
    by (simp add: ntf_health_Handler_def visit_checks_verdict health_Handler_def check_all_verdict health_response_def
        respond_JSON_def Let_def)
qed

lemma auth_verdict_all:
  "auth_verdict checks order = (if \<forall>name \<in> set order. checks name = Some ''ok'' then (200, ''ok'') else (503, ''unhealthy''))"
  by (induction order) auto

lemma auth_health_ignores_map_order:
  assumes "set order = {''db'', ''nats''}"
  shows "auth_healthHandler order db nats = healthHandler db nats"
proof -
  have "map_json [(''db'', a), (''nats'', b)] = JObj [(''db'', JStr a), (''nats'', JStr b)]" for a b
    by (subst map_json_mset [where ms = "[(''db'', a), (''nats'', b)]"]) simp_all
  then show ?thesis
    using assms by (simp add: auth_healthHandler_def healthHandler_def auth_verdict_all health_response_def respond_JSON_def
        auth_checkDep_def checkDep_def Let_def)
qed

end
