(* ===== verification/Identity.thy ===== *)
theory Identity
  imports Consent Accounts
begin

text \<open>
  The auth service joined to the system of \<open>Network\<close>: people sign up, verify their address, log in and
  refresh; its relay publishes the events that mail the verification tokens; and a subscription is only
  asked for by a request that carries an access token of the service. A request with any other token is
  answered with 401 (\<open>Requests\<close>): nobody else has the signing key. About JWT it is assumed that a token
  parses to the claims it was signed for.
\<close>

section \<open>The joined system\<close>

record full =
  net :: net
  acc :: auth_db
  notified :: "js_msg list"                     \<comment> \<open>stored by JetStream for the auth service\<close>
  logging_in :: "(string \<times> string) list"       \<comment> \<open>logins whose session is not inserted yet: user, access token\<close>
  signed :: "string list"                       \<comment> \<open>access tokens handed out\<close>

definition init_full :: "(js_msg \<Rightarrow> nat) \<Rightarrow> (nat \<Rightarrow> string) \<Rightarrow> full" where
  "init_full sz uuids = \<lparr>net = init_net\<lparr>ns_size := sz\<rparr>, acc = empty_auth_db uuids, notified = [], logging_in = [], signed = []\<rparr>"

definition notify :: "js_msg \<Rightarrow> net \<Rightarrow> net" where
  "notify m n = store [m] (n\<lparr>verifying := m # verifying n\<rparr>)"

text \<open>A step of \<open>Network\<close> that neither asks for a subscription nor publishes for the auth service.\<close>

definition quiet_step :: "(int \<Rightarrow> string) \<Rightarrow> Mailer \<Rightarrow> net \<Rightarrow> net \<Rightarrow> bool" where
  "quiet_step rfc3339 mlr n n' \<longleftrightarrow> net_step rfc3339 mlr n n' \<and> asked n' = asked n \<and> verifying n' = verifying n"

definition handed_out :: "auth_error + TokenPair \<Rightarrow> string list" where
  "handed_out r = (case r of Inl e \<Rightarrow> [] | Inr p \<Rightarrow> [tp_AccessToken p])"

inductive full_step ::
  "(int \<Rightarrow> string) \<Rightarrow> Mailer \<Rightarrow> crypto \<Rightarrow> Signer \<Rightarrow> (string \<Rightarrow> int \<Rightarrow> string \<Rightarrow> (string \<Rightarrow> json option) option) \<Rightarrow> string \<Rightarrow>
   full \<Rightarrow> full \<Rightarrow> bool"
  for rfc3339 mlr cy issuer parse key where
  full_account: "txn w = None \<Longrightarrow> committed w = acc s \<Longrightarrow>
    op \<in> {Register_Execute cy ttl email password, VerifyEmail_Execute token, Logout_Execute cy raw} \<Longrightarrow>
    full_step rfc3339 mlr cy issuer parse key s (s\<lparr>acc := run_db op w\<rparr>)"
| full_login: "txn w = None \<Longrightarrow> committed w = acc s \<Longrightarrow> run_state (Login_Execute cy issuer ttl email password) w = (r, w') \<Longrightarrow>
    full_step rfc3339 mlr cy issuer parse key s (s\<lparr>acc := committed w', signed := handed_out r @ signed s\<rparr>)"
\<comment> \<open>the insert that ends a login may come after steps of others\<close>
| full_login_reads: "logs_in cy email password u (acc s) \<Longrightarrow> access_token cy issuer (us_ID u) (us_Email u) now tok \<Longrightarrow>
    full_step rfc3339 mlr cy issuer parse key s (s\<lparr>logging_in := (us_ID u, tok) # logging_in s\<rparr>)"
| full_login_ends: "(userID, tok) \<in> set (logging_in s) \<Longrightarrow> txn w = None \<Longrightarrow> committed w = acc s \<Longrightarrow>
    run_state (InsertRefreshToken Pool userID (hashToken cy refreshToken) expiresAt) w = (r, w') \<Longrightarrow>
    full_step rfc3339 mlr cy issuer parse key s
      (s\<lparr>acc := committed w', signed := (case r of Inl e \<Rightarrow> [] | Inr _ \<Rightarrow> [tok]) @ signed s\<rparr>)"
| full_refresh: "txn w = None \<Longrightarrow> committed w = acc s \<Longrightarrow> run_state (Refresh_Execute cy issuer ttl raw) w = (r, w') \<Longrightarrow>
    full_step rfc3339 mlr cy issuer parse key s (s\<lparr>acc := committed w', signed := handed_out r @ signed s\<rparr>)"
| full_relay: "txn w = None \<Longrightarrow> committed w = acc s \<Longrightarrow> stream w = notified s \<Longrightarrow> run_world auth_publishPending w = w' \<Longrightarrow>
    full_step rfc3339 mlr cy issuer parse key s (s\<lparr>acc := committed w', notified := stream w',
      net := fold notify (drop (length (notified s)) (stream w')) (net s)\<rparr>)"
| full_subscribe: "tok \<in> set (signed s) \<Longrightarrow> AuthJWT parse (Inr key) now (''Bearer '' @ tok) = Inr email \<Longrightarrow>
    runs_at w (service (net s)) \<Longrightarrow> sb_Email sub = TrimSpace email \<Longrightarrow>
    full_step rfc3339 mlr cy issuer parse key s (s\<lparr>net := (net s)\<lparr>service := (service (net s))\<lparr>sdb :=
        run_db (createAndEnqueue ttl sagaID sub
          (confirmation_payload sagaID (sb_Email sub) repoName (sb_ConfirmToken sub))) w\<rparr>,
      asked := (sub, repoName) # asked (net s)\<rparr>\<rparr>)"
| full_net: "quiet_step rfc3339 mlr (net s) n \<Longrightarrow> full_step rfc3339 mlr cy issuer parse key s (s\<lparr>net := n\<rparr>)"

inductive full_reachable ::
  "(int \<Rightarrow> string) \<Rightarrow> Mailer \<Rightarrow> crypto \<Rightarrow> Signer \<Rightarrow> (string \<Rightarrow> int \<Rightarrow> string \<Rightarrow> (string \<Rightarrow> json option) option) \<Rightarrow> string \<Rightarrow>
   full \<Rightarrow> bool"
  for rfc3339 mlr cy issuer parse key where
  full_init: "full_reachable rfc3339 mlr cy issuer parse key (init_full sz uuids)"
| full_next: "full_reachable rfc3339 mlr cy issuer parse key s \<Longrightarrow> full_step rfc3339 mlr cy issuer parse key s s' \<Longrightarrow>
    full_reachable rfc3339 mlr cy issuer parse key s'"

text \<open>A token that parses does so to the claims it was signed for.\<close>

definition jwt_sound ::
  "crypto \<Rightarrow> Signer \<Rightarrow> (string \<Rightarrow> int \<Rightarrow> string \<Rightarrow> (string \<Rightarrow> json option) option) \<Rightarrow> string \<Rightarrow> bool" where
  "jwt_sound cy issuer parse key \<longleftrightarrow> (\<forall>cl tok now claim.
     cy_SignedString cy (si_key issuer) (si_kid issuer) cl = Some tok \<longrightarrow> parse key now tok = Some claim \<longrightarrow>
     claim ''email'' = Some (JStr (cl_email cl)))"


section \<open>What every step of the auth service keeps\<close>

definition verified_user :: "auth_db \<Rightarrow> string \<Rightarrow> string \<Rightarrow> bool" where
  "verified_user d i e \<longleftrightarrow> (\<exists>u \<in> set (users d). us_ID u = i \<and> us_Email u = e \<and> us_EmailVerified u)"

text \<open>Every event of the outbox mails a token to the address of a user.\<close>

definition tells_users :: "auth_db \<Rightarrow> bool" where
  "tells_users d \<longleftrightarrow> (\<forall>row \<in> set (ob_rows (auth_outbox d)). ob_Subject row = SubjectVerifyEmail \<and>
     (\<exists>u \<in> set (users d). \<exists>token. ob_Payload row = verification_event (us_Email u) token))"

definition sessions_ok :: "auth_db \<Rightarrow> bool" where
  "sessions_ok d \<longleftrightarrow> (\<forall>r \<in> set (refresh_tokens d). \<exists>e. verified_user d (rr_UserID r) e)"

definition acc_inv :: "auth_db \<Rightarrow> bool" where
  "acc_inv d \<longleftrightarrow> auth_wf d \<and> owned d \<and> tells_users d \<and> sessions_ok d"

lemma acc_inv_empty: "acc_inv (empty_auth_db uuids)"
  by (simp add: acc_inv_def tells_users_def sessions_ok_def) (simp add: empty_auth_db_def)

lemma verified_user_stmts:
  "stmt_keeps (\<lambda>d. verified_user d i e) (insertUserQuery email hash)"
  "stmt_keeps (\<lambda>d. verified_user d i e) (insertVerificationQuery token userID x)"
  "stmt_keeps (\<lambda>d. verified_user d i e) (insertOutboxQuery auth_outbox_update subject payload)"
  "stmt_keeps (\<lambda>d. verified_user d i e) (markVerificationUsedQuery token)"
  "stmt_keeps (\<lambda>d. verified_user d i e) (markUserVerifiedQuery userID)"
  "stmt_keeps (\<lambda>d. verified_user d i e) (insertRefreshTokenQuery userID h x)"
  "stmt_keeps (\<lambda>d. verified_user d i e) (revokeRefreshTokenQuery h)"
  "stmt_keeps (\<lambda>d. verified_user d i e) (markOutboxPublishedQuery auth_outbox auth_outbox_update ids)"
  by (rule stmt_keepsI, force simp: auth_queries insertOutboxQuery_def markOutboxPublishedQuery_def verified_user_def
      insert_user_def insert_refresh_def use_verification_def verify_user_def revoke_refresh_def split: if_splits)+

lemma verified_user_step: "auth_step cy s d d' \<Longrightarrow> verified_user d i e \<Longrightarrow> verified_user d' i e"
  by (erule auth_step_keeps) (rule verified_user_stmts | assumption)+

lemma auth_relay_inv_stmts:
  "stmt_keeps (\<lambda>d. relay_inv auth_msgID (auth_outbox d) ms) (insertUserQuery email hash)"
  "stmt_keeps (\<lambda>d. relay_inv auth_msgID (auth_outbox d) ms) (insertVerificationQuery token userID x)"
  "stmt_keeps (\<lambda>d. relay_inv auth_msgID (auth_outbox d) ms) (insertOutboxQuery auth_outbox_update subject payload)"
  "stmt_keeps (\<lambda>d. relay_inv auth_msgID (auth_outbox d) ms) (markVerificationUsedQuery token)"
  "stmt_keeps (\<lambda>d. relay_inv auth_msgID (auth_outbox d) ms) (markUserVerifiedQuery userID)"
  "stmt_keeps (\<lambda>d. relay_inv auth_msgID (auth_outbox d) ms) (insertRefreshTokenQuery userID h x)"
  "stmt_keeps (\<lambda>d. relay_inv auth_msgID (auth_outbox d) ms) (revokeRefreshTokenQuery h)"
  by (rule stmt_keepsI, force simp: auth_queries insertOutboxQuery_def relay_inv_insert
      insert_user_def insert_refresh_def use_verification_def verify_user_def revoke_refresh_def split: if_splits)+

lemma tells_users_same:
  assumes "tells_users d" "\<And>u. u \<in> set (users d) \<Longrightarrow> \<exists>u' \<in> set (users d'). us_Email u' = us_Email u"
    and "\<And>row'. row' \<in> set (ob_rows (auth_outbox d')) \<Longrightarrow>
      \<exists>row \<in> set (ob_rows (auth_outbox d)). ob_Subject row' = ob_Subject row \<and> ob_Payload row' = ob_Payload row"
  shows "tells_users d'"
  using assms unfolding tells_users_def by metis

lemma sessions_ok_same:
  assumes "sessions_ok d" "\<And>i e. verified_user d i e \<Longrightarrow> verified_user d' i e"
    and "\<And>r'. r' \<in> set (refresh_tokens d') \<Longrightarrow> \<exists>r \<in> set (refresh_tokens d). rr_UserID r' = rr_UserID r"
  shows "sessions_ok d'"
  using assms unfolding sessions_ok_def by metis

lemma tells_users_signed_up: "signed_up email hash token x d d' \<Longrightarrow> tells_users d \<Longrightarrow> tells_users d'"
  unfolding tells_users_def signed_up_def registered_def insert_user_def insert_row_def by fastforce

lemma verified_emails: "u \<in> set (users d) \<Longrightarrow> \<exists>u' \<in> set (users (verified v now d)). us_Email u' = us_Email u"
  by (rule bexI [of _ "if us_ID u = ve_UserID v then u\<lparr>us_EmailVerified := True\<rparr> else u"])
    (auto simp: verified_def verify_user_def use_verification_def in_set_update_where)

lemma tells_users_verified: "tells_users d \<Longrightarrow> tells_users (verified v now d)"
  by (erule tells_users_same [OF _ verified_emails])
    (auto simp: verified_def verify_user_def use_verification_def)

text \<open>The operations on sessions leave users and events alone.\<close>

definition same_accounts :: "auth_db \<Rightarrow> auth_db \<Rightarrow> bool" where
  "same_accounts d d' \<longleftrightarrow> users d' = users d \<and> auth_outbox d' = auth_outbox d"

lemma same_accounts_simps [simp]:
  "same_accounts d d" "same_accounts d (insert_refresh i h x d') = same_accounts d d'"
  "same_accounts d (revoke_refresh h now d') = same_accounts d d'"
  by (simp_all add: same_accounts_def insert_refresh_def revoke_refresh_def)

lemma sessions_ok_insert: "sessions_ok d \<Longrightarrow> verified_user d i e \<Longrightarrow> sessions_ok (insert_refresh i h x d)"
  by (auto simp: sessions_ok_def insert_refresh_def verified_user_def)

lemma sessions_ok_revoke: "sessions_ok d \<Longrightarrow> sessions_ok (revoke_refresh h now d)"
  by (erule sessions_ok_same) (auto simp: revoke_refresh_def verified_user_def in_set_update_where split: if_splits)

lemma acc_inv_session:
  assumes "acc_inv d" "auth_step cy s d d'" "same_accounts d d'" "sessions_ok d'"
  shows "acc_inv d'"
  using assms auth_step_wf auth_step_owned
  by (auto simp: acc_inv_def same_accounts_def tells_users_def)


lemma acc_inv_account:
  assumes inv: "acc_inv (committed w)" and w: "txn w = None"
    and op: "op \<in> {Register_Execute cy ttl email password, VerifyEmail_Execute token, Logout_Execute cy raw}"
  shows "acc_inv (run_db op w)" "auth_step cy issuer (committed w) (run_db op w)"
proof -
  show step: "auth_step cy issuer (committed w) (run_db op w)"
    using op w by (auto intro: auth_register auth_verify auth_logout)
  have d: "tells_users (committed w)" "sessions_ok (committed w)" using inv by (simp_all add: acc_inv_def)
  note mono = verified_user_step [OF step]
  have "tells_users (run_db op w) \<and> (refresh_tokens (run_db op w) = refresh_tokens (committed w) \<or> sessions_ok (run_db op w))"
    using op
  proof (elim insertE emptyE)
    assume eq: "op = Register_Execute cy ttl email password"
    obtain e h t x where "run_db op w = committed w \<or> signed_up e h t x (committed w) (run_db op w)"
      using wp_Register [OF w, of cy ttl email password] by (auto simp: eq wp_run run_db_world)
    then show ?thesis
      using d tells_users_signed_up by (auto simp: signed_up_def registered_def insert_user_def)
  next
    assume eq: "op = VerifyEmail_Execute token"
    obtain v now where "run_db op w = committed w \<or> run_db op w = verified v now (committed w)"
      using wp_VerifyEmail [OF w, of token] by (auto simp: eq wp_run run_db_world)
    then show ?thesis
      using d tells_users_verified by (auto simp: verified_def verify_user_def use_verification_def)
  next
    assume eq: "op = Logout_Execute cy raw"
    obtain h now where "run_db op w = committed w \<or> run_db op w = revoke_refresh h now (committed w)"
      using wp_Logout [OF w, of cy raw] by (auto simp: eq wp_run run_db_world)
    then show ?thesis
      using d sessions_ok_revoke by (auto simp: tells_users_def revoke_refresh_def)
  qed
  then have "tells_users (run_db op w) \<and> sessions_ok (run_db op w)"
    using sessions_ok_same [OF d(2) mono] by metis
  then show "acc_inv (run_db op w)"
    using inv auth_step_wf [OF step] auth_step_owned [OF step] by (simp add: acc_inv_def)
qed

text \<open>A token handed out was signed for a verified user.\<close>

definition token_ok :: "crypto \<Rightarrow> Signer \<Rightarrow> auth_db \<Rightarrow> string \<Rightarrow> bool" where
  "token_ok cy issuer d tok \<longleftrightarrow> (\<exists>i e now. verified_user d i e \<and> access_token cy issuer i e now tok)"

lemma acc_inv_login:
  assumes inv: "acc_inv (committed w)" and w: "txn w = None"
    and run: "run_state (Login_Execute cy issuer ttl email password) w = (r, w')"
  shows "acc_inv (committed w')" "auth_step cy issuer (committed w) (committed w')"
    "tok \<in> set (handed_out r) \<Longrightarrow> token_ok cy issuer (committed w') tok"
proof -
  have step: "auth_step cy issuer (committed w) (committed w')"
    using auth_login [OF w, of cy issuer ttl email password] run by (simp add: run_db_def)
  then show "auth_step cy issuer (committed w) (committed w')" .
  have post: "r \<in> range Inl \<and> committed w' = committed w
     \<or> (\<exists>u t x. logs_in cy email password u (committed w) \<and>
          committed w' = insert_refresh (us_ID u) (hashToken cy t) x (committed w) \<and>
          (\<forall>p. r = Inr p \<longrightarrow> issued_since (go_clock w) cy issuer (us_ID u) (us_Email u) (tp_AccessToken p)))"
    using wp_Login [OF w, of cy issuer ttl email password] run by (fastforce simp: wp_def)
  have user: "verified_user (committed w) (us_ID u) (us_Email u)" if "logs_in cy email password u (committed w)" for u
    using that by (auto simp: logs_in_def verified_user_def)
  show "acc_inv (committed w')"
    using post inv sessions_ok_insert [OF _ user] by (intro acc_inv_session [OF inv step]) (auto simp: acc_inv_def)
  show "token_ok cy issuer (committed w') tok" if "tok \<in> set (handed_out r)"
    using that post user verified_user_step [OF step]
    by (auto simp: handed_out_def token_ok_def issued_since_def split: sum.splits) blast
qed

lemma acc_inv_refresh:
  assumes inv: "acc_inv (committed w)" and w: "txn w = None"
    and run: "run_state (Refresh_Execute cy issuer ttl raw) w = (r, w')"
  shows "acc_inv (committed w')" "auth_step cy issuer (committed w) (committed w')"
    "tok \<in> set (handed_out r) \<Longrightarrow> token_ok cy issuer (committed w') tok"
proof -
  have step: "auth_step cy issuer (committed w) (committed w')"
    using auth_refresh [OF w, of cy issuer ttl raw] run by (simp add: run_db_def)
  then show "auth_step cy issuer (committed w) (committed w')" .
  have post: "r \<in> range Inl \<and> committed w' = committed w \<or> refreshed cy issuer raw w r (committed w')"
    using wp_Refresh [OF w, of cy issuer ttl raw] run by (fastforce simp: wp_def)
  have user: "verified_user (committed w) (us_ID u) (us_Email u)"
    if "exchanged cy raw old u t x now (committed w) d'" for old u t x now d'
  proof -
    have u: "u \<in> set (users (committed w))" "us_ID u = rr_UserID old" "old \<in> set (refresh_tokens (committed w))"
      using that by (simp_all add: exchanged_def)
    then obtain u' where u': "u' \<in> set (users (committed w))" "us_ID u' = us_ID u" "us_EmailVerified u'"
      using inv by (fastforce simp: acc_inv_def sessions_ok_def verified_user_def)
    moreover have "distinct (map us_ID (users (committed w)))" using inv by (simp add: acc_inv_def auth_wf_def)
    ultimately have "u' = u" using u(1) by (metis distinct_map_eqD)
    then show ?thesis using u' by (auto simp: verified_user_def)
  qed
  have revoked: "verified_user (revoke_refresh h now (committed w)) i e = verified_user (committed w) i e" for h now i e
    by (simp add: verified_user_def revoke_refresh_def)
  have "sessions_ok (insert_refresh (us_ID u) k x (revoke_refresh h now (committed w)))"
    if "exchanged cy raw old u t x now (committed w) d'" for old u t x now d' h k
    using inv sessions_ok_insert [OF sessions_ok_revoke revoked [THEN iffD2, OF user [OF that]]] by (simp add: acc_inv_def)
  then have "sessions_ok (committed w')"
    using post inv unfolding refreshed_def by (auto simp: acc_inv_def) (metis exchanged_def)
  moreover have "same_accounts (committed w) (committed w')"
    using post by (auto simp: refreshed_def exchanged_def)
  ultimately show "acc_inv (committed w')" using acc_inv_session [OF inv step] by blast
  show "token_ok cy issuer (committed w') tok" if "tok \<in> set (handed_out r)"
    using that post user verified_user_step [OF step]
    by (fastforce simp: handed_out_def token_ok_def refreshed_def split: sum.splits)
qed


lemma acc_inv_login_end:
  assumes inv: "acc_inv (committed w)" and w: "txn w = None" and i: "verified_user (committed w) i e"
    and run: "run_state (InsertRefreshToken Pool i (hashToken cy raw) x) w = (r, w')"
  shows "acc_inv (committed w')" "auth_step cy issuer (committed w) (committed w')"
proof -
  show step: "auth_step cy issuer (committed w) (committed w')"
    using auth_login_end [OF w, of cy issuer i raw x] run by (simp add: run_db_def)
  have "wp (InsertRefreshToken Pool i (hashToken cy raw) x) (\<lambda>_ w'. committed w' = committed w \<or>
      committed w' = insert_refresh i (hashToken cy raw) x (committed w)) w"
    using w by (auto simp: InsertRefreshToken_def insertRefreshTokenQuery_def wp_simps Let_def split: fault.splits)
  then have "committed w' = committed w \<or> committed w' = insert_refresh i (hashToken cy raw) x (committed w)"
    using run by (simp add: wp_def)
  then show "acc_inv (committed w')"
    using inv sessions_ok_insert [OF _ i] by (intro acc_inv_session [OF inv step]) (auto simp: acc_inv_def)
qed

lemma acc_inv_relay:
  assumes inv: "acc_inv (committed w)" "relay_inv auth_msgID (auth_outbox (committed w)) (stream w)"
    and w: "txn w = None" "run_world auth_publishPending w = w'"
  shows "acc_inv (committed w')" "relay_inv auth_msgID (auth_outbox (committed w')) (stream w')"
    "auth_step cy issuer (committed w) (committed w')" "\<exists>new. stream w' = stream w @ new"
proof -
  show step: "auth_step cy issuer (committed w) (committed w')" for cy issuer
    using auth_tick [OF w(1), of cy issuer] w(2) by (simp add: run_db_world)
  show "relay_inv auth_msgID (auth_outbox (committed w')) (stream w')" "\<exists>new. stream w' = stream w @ new"
    using auth_relay.tick_inv [OF w(1), of auth_msgID] auth_relay.tick_post [OF w(1), of auth_msgID] inv(2) w(2)
    by (auto simp: wp_run auth_publishPending_def)
  obtain ids now where d: "committed w' = committed w \<or> committed w' = auth_outbox_update (mark_rows ids now) (committed w)"
    using auth_relay.tick_post [OF w(1), of auth_msgID] w(2) by (auto simp: wp_run auth_publishPending_def)
  have "\<exists>r \<in> set (ob_rows t). ob_Subject r' = ob_Subject r \<and> ob_Payload r' = ob_Payload r"
    if "r' \<in> set (ob_rows (mark_rows ids now t))" for r' t
    using that by (auto simp: mark_rows_def in_set_update_where split: if_splits)
  then have "tells_users (auth_outbox_update (mark_rows ids now) (committed w))" if "tells_users (committed w)"
    by (intro tells_users_same [OF that]) auto
  then have "tells_users (committed w')" using d inv(1) by (auto simp: acc_inv_def)
  moreover have "sessions_ok (committed w')"
    using d inv(1) by (auto simp: acc_inv_def sessions_ok_def verified_user_def)
  ultimately show "acc_inv (committed w')"
    using inv(1) auth_step_wf [OF step] auth_step_owned [OF step] by (simp add: acc_inv_def)
qed

section \<open>The invariant of the joined system\<close>

definition full_inv :: "(int \<Rightarrow> string) \<Rightarrow> Mailer \<Rightarrow> crypto \<Rightarrow> Signer \<Rightarrow> full \<Rightarrow> bool" where
  "full_inv rfc3339 mlr cy issuer s \<longleftrightarrow> net_reachable rfc3339 mlr (net s) \<and> acc_inv (acc s) \<and>
     relay_inv auth_msgID (auth_outbox (acc s)) (notified s) \<and> set (verifying (net s)) \<subseteq> set (notified s) \<and>
     (\<forall>(i, tok) \<in> set (logging_in s). \<exists>e now. verified_user (acc s) i e \<and> access_token cy issuer i e now tok) \<and>
     (\<forall>tok \<in> set (signed s). token_ok cy issuer (acc s) tok) \<and>
     (\<forall>(sub, repoName) \<in> set (asked (net s)). \<exists>i e. verified_user (acc s) i e \<and> sb_Email sub = TrimSpace e)"

lemma full_inv_init: "full_inv rfc3339 mlr cy issuer (init_full sz uuids)"
  by (simp add: full_inv_def init_full_def net_init acc_inv_empty)
    (simp add: init_net_def empty_auth_db_def relay_inv_def outbox_wf_def marked_stored_def stored_enqueued_def)

lemma full_inv_next:
  assumes inv: "full_inv rfc3339 mlr cy issuer s"
    and mono: "\<And>i e. verified_user (acc s) i e \<Longrightarrow> verified_user (acc s') i e"
    and acc: "acc_inv (acc s')" "relay_inv auth_msgID (auth_outbox (acc s')) (notified s')"
    and net: "net_reachable rfc3339 mlr (net s')" "set (verifying (net s')) \<subseteq> set (notified s')"
    and new: "\<And>i tok. (i, tok) \<in> set (logging_in s') - set (logging_in s) \<Longrightarrow>
        \<exists>e now. verified_user (acc s') i e \<and> access_token cy issuer i e now tok"
      "\<And>tok. tok \<in> set (signed s') - set (signed s) \<Longrightarrow> token_ok cy issuer (acc s') tok"
      "\<And>sub repoName. (sub, repoName) \<in> set (asked (net s')) - set (asked (net s)) \<Longrightarrow>
        \<exists>i e. verified_user (acc s') i e \<and> sb_Email sub = TrimSpace e"
  shows "full_inv rfc3339 mlr cy issuer s'"
proof -
  have "\<exists>e now. verified_user (acc s') i e \<and> access_token cy issuer i e now tok" if "(i, tok) \<in> set (logging_in s')" for i tok
  proof (cases "(i, tok) \<in> set (logging_in s)")
    case True
    then show ?thesis using inv mono unfolding full_inv_def by fast
  qed (use that new(1) in simp)
  moreover have "token_ok cy issuer (acc s') tok" if "tok \<in> set (signed s')" for tok
  proof (cases "tok \<in> set (signed s)")
    case True
    then show ?thesis using inv mono unfolding full_inv_def token_ok_def by fast
  qed (use that new(2) in simp)
  moreover have "\<exists>i e. verified_user (acc s') i e \<and> sb_Email sub = TrimSpace e"
    if "(sub, repoName) \<in> set (asked (net s'))" for sub repoName
  proof (cases "(sub, repoName) \<in> set (asked (net s))")
    case True
    then show ?thesis using inv mono unfolding full_inv_def by fast
  qed (use that new(3) in simp)
  ultimately show ?thesis
    using acc net unfolding full_inv_def by blast
qed

text \<open>A step of the auth service that publishes nothing.\<close>

lemma full_inv_acc:
  assumes inv: "full_inv rfc3339 mlr cy issuer s" and step: "auth_step cy issuer (acc s) d" "acc_inv d"
    "relay_inv auth_msgID (auth_outbox d) (notified s)"
    and toks: "\<And>tok. tok \<in> set toks \<Longrightarrow> token_ok cy issuer d tok"
  shows "full_inv rfc3339 mlr cy issuer (s\<lparr>acc := d, signed := toks @ signed s\<rparr>)"
  by (rule full_inv_next [OF inv])
    (use inv step verified_user_step [OF step(1)] toks in \<open>auto simp: full_inv_def\<close>)

lemma relay_inv_kept:
  assumes "keeps (\<lambda>d. relay_inv auth_msgID (auth_outbox d) ms) op" "txn w = None"
    "relay_inv auth_msgID (auth_outbox (committed w)) ms"
  shows "relay_inv auth_msgID (auth_outbox (run_db op w)) ms"
  using keeps_run_db [OF assms(1), of w] assms(2,3) by (simp add: idle_def)

lemmas accounts_relay_inv = accounts_keep [OF auth_relay_inv_stmts(1-5)] sessions_keep [OF auth_relay_inv_stmts(6,7)]

lemma notified_net:
  assumes "net_reachable rfc3339 mlr n" "\<And>m. m \<in> set ms \<Longrightarrow> msg_subject m = SubjectVerifyEmail"
  shows "net_reachable rfc3339 mlr (fold notify ms n)" "set (verifying (fold notify ms n)) = set ms \<union> set (verifying n)"
    "asked (fold notify ms n) = asked n"
  using assms
proof (induction ms arbitrary: n)
  case (Cons m ms)
  case 1
  have "net_reachable rfc3339 mlr (notify m n)"
    using net_next [OF 1(1) net_auth [of m]] 1(2) by (simp add: notify_def)
  then show ?case using Cons.IH(1) 1(2) by simp
next
  case (Cons m ms)
  case 2
  have "net_reachable rfc3339 mlr (notify m n)"
    using net_next [OF 2(1) net_auth [of m]] 2(2) by (simp add: notify_def)
  then show ?case using Cons.IH(2) 2(2) by (simp add: notify_def)
next
  case (Cons m ms)
  case 3
  have "net_reachable rfc3339 mlr (notify m n)"
    using net_next [OF 3(1) net_auth [of m]] 3(2) by (simp add: notify_def)
  then show ?case using Cons.IH(3) 3(2) by (simp add: notify_def)
qed simp_all

text \<open>What is published is an event that tells a user.\<close>

lemma notified_event:
  assumes "relay_inv auth_msgID (auth_outbox d) ms" "tells_users d" "m \<in> set ms"
  shows "msg_subject m = SubjectVerifyEmail"
    "\<exists>u \<in> set (users d). \<exists>token. msg_data m = verification_event (us_Email u) token \<and> token_enqueued d (us_Email u) token"
proof -
  obtain row where row: "row \<in> set (ob_rows (auth_outbox d))" "msg_subject m = ob_Subject row" "msg_data m = ob_Payload row"
    using assms(1,3) by (force simp: relay_inv_def stored_enqueued_def msg_of_def)
  then obtain u token where "u \<in> set (users d)" "ob_Subject row = SubjectVerifyEmail"
    "ob_Payload row = verification_event (us_Email u) token"
    using assms(2) by (auto simp: tells_users_def)
  with row show "msg_subject m = SubjectVerifyEmail"
    "\<exists>u \<in> set (users d). \<exists>token. msg_data m = verification_event (us_Email u) token \<and> token_enqueued d (us_Email u) token"
    unfolding token_enqueued_def by auto
qed

lemma AuthJWT_InrD:
  assumes "AuthJWT parse (Inr key) now (''Bearer '' @ tok) = Inr email"
  shows "\<exists>claim. parse key now tok = Some claim \<and> claim ''email'' = Some (JStr email)"
  using assms unfolding AuthJWT_def CutPrefix_append
  by (auto simp: Let_def split: if_splits option.splits json.splits)

lemma authorized_user:
  assumes "jwt_sound cy issuer parse key" "token_ok cy issuer d tok"
    "AuthJWT parse (Inr key) now (''Bearer '' @ tok) = Inr email"
  shows "\<exists>i. verified_user d i email"
proof -
  obtain i e now' where t: "verified_user d i e" "access_token cy issuer i e now' tok"
    using assms(2) by (auto simp: token_ok_def)
  obtain claim where "parse key now tok = Some claim" "claim ''email'' = Some (JStr email)"
    using AuthJWT_InrD [OF assms(3)] by blast
  then have "email = e"
    using assms(1) t(2) unfolding jwt_sound_def access_token_def by fastforce
  then show ?thesis using t(1) by blast
qed

lemma full_inv_step:
  assumes "full_step rfc3339 mlr cy issuer parse key s s'" "full_inv rfc3339 mlr cy issuer s" "jwt_sound cy issuer parse key"
  shows "full_inv rfc3339 mlr cy issuer s'"
proof -
  have inv: "net_reachable rfc3339 mlr (net s)" "acc_inv (acc s)" "relay_inv auth_msgID (auth_outbox (acc s)) (notified s)"
    "set (verifying (net s)) \<subseteq> set (notified s)" "\<And>tok. tok \<in> set (signed s) \<Longrightarrow> token_ok cy issuer (acc s) tok"
    "\<And>i tok. (i, tok) \<in> set (logging_in s) \<Longrightarrow> \<exists>e now. verified_user (acc s) i e \<and> access_token cy issuer i e now tok"
    using assms(2) unfolding full_inv_def by (simp_all, fast)
  note keep = full_inv_acc [OF assms(2)] and outside = full_inv_next [OF assms(2)]
  note kept = relay_inv_kept [where ms = "notified s"]
  show ?thesis
    using assms(1)
  proof (cases rule: full_step.cases)
    case (full_account w op ttl email password token raw)
    note acc = acc_inv_account [OF _ full_account(2,4), unfolded full_account(3), OF inv(2)]
    have "keeps (\<lambda>d. relay_inv auth_msgID (auth_outbox d) (notified s)) op"
      using full_account(4) by (elim insertE emptyE) (simp_all add: accounts_relay_inv)
    then have "relay_inv auth_msgID (auth_outbox (run_db op w)) (notified s)"
      by (rule kept) (use full_account(2,3) inv(3) in simp_all)
    then show ?thesis
      using keep [OF acc(2,1), of "[]"] full_account(1) by simp
  next
    case (full_login w ttl email password r w')
    note acc = acc_inv_login [of w cy issuer ttl email password r w']
    have "relay_inv auth_msgID (auth_outbox (committed w')) (notified s)"
      using kept [OF accounts_relay_inv(3)] full_login inv(3) by (metis run_db_def snd_conv)
    then show ?thesis
      using keep [of "committed w'" "handed_out r"] acc full_login inv(2) by simp
  next
    case (full_login_reads email password u now tok)
    then have "verified_user (acc s) (us_ID u) (us_Email u)" by (auto simp: logs_in_def verified_user_def)
    then show ?thesis
      unfolding full_login_reads(1) by (rule_tac outside) (use inv full_login_reads in auto)
  next
    case (full_login_ends userID tok w refreshToken expiresAt r w')
    obtain e now where e: "verified_user (acc s) userID e" "access_token cy issuer userID e now tok"
      using inv(6) full_login_ends(2) by blast
    note acc = acc_inv_login_end [OF _ full_login_ends(3) _ full_login_ends(5), unfolded full_login_ends(4), OF inv(2) e(1)]
    have "relay_inv auth_msgID (auth_outbox (committed w')) (notified s)"
      using kept [OF accounts_relay_inv(6)] full_login_ends inv(3) by (metis run_db_def snd_conv)
    moreover have "token_ok cy issuer (committed w') tok"
      using e verified_user_step [OF acc(2)] unfolding token_ok_def by blast
    ultimately show ?thesis
      using keep [OF acc(2,1), of "case r of Inl e \<Rightarrow> [] | Inr _ \<Rightarrow> [tok]"] full_login_ends(1)
      by (auto split: sum.splits)
  next
    case (full_refresh w ttl raw r w')
    note acc = acc_inv_refresh [of w cy issuer ttl raw r w']
    have "relay_inv auth_msgID (auth_outbox (committed w')) (notified s)"
      using kept [OF accounts_relay_inv(4)] full_refresh inv(3) by (metis run_db_def snd_conv)
    then show ?thesis
      using keep [of "committed w'" "handed_out r"] acc full_refresh inv(2) by simp
  next
    case (full_relay w w')
    note tick = acc_inv_relay [OF _ _ full_relay(2,5), unfolded full_relay(3,4), OF inv(2,3)]
    obtain new where new: "stream w' = notified s @ new" using tick(4) by blast
    have "msg_subject m = SubjectVerifyEmail" if "m \<in> set new" for m
      using notified_event(1) [OF tick(2)] tick(1) that new by (simp add: acc_inv_def)
    note net = notified_net [OF inv(1) this]
    show ?thesis
      unfolding full_relay(1) using verified_user_step [OF tick(3)] tick(1,2) net inv(4) new
      by (intro outside) auto
  next
    case (full_subscribe tok now email w sub ttl sagaID repoName)
    obtain i where i: "verified_user (acc s) i email"
      using authorized_user [OF assms(3) inv(5) [OF full_subscribe(2)] full_subscribe(3)] by blast
    note net = net_next [OF inv(1) net_subscribe [OF full_subscribe(4), where sub = sub]]
    show ?thesis
      unfolding full_subscribe(1) using net inv(2-4) i full_subscribe(5)
      by (intro outside) auto
  next
    case (full_net n)
    then show ?thesis
      using inv(2-4) net_next [OF inv(1)] by (auto simp: quiet_step_def intro!: outside)
  qed
qed

lemma full_reachable_inv:
  "full_reachable rfc3339 mlr cy issuer parse key s \<Longrightarrow> jwt_sound cy issuer parse key \<Longrightarrow> full_inv rfc3339 mlr cy issuer s"
  by (induction rule: full_reachable.induct) (rule full_inv_init, rule full_inv_step)

section \<open>A run\<close>

text \<open>Signing up, verifying the address, logging in, subscribing, and the confirmation mail.\<close>

definition demo_uuids :: "nat \<Rightarrow> string" where
  "demo_uuids n = replicate (Suc n) CHR ''u''"

definition demo_full :: "net \<Rightarrow> auth_db \<Rightarrow> string list \<Rightarrow> full" where
  "demo_full n d toks = \<lparr>net = n, acc = d, notified = [], logging_in = [], signed = toks\<rparr>"

lemma jwt_sound_demo: "jwt_sound demo_crypto demo_signer demo_parse key"
  by (auto simp: jwt_sound_def demo_crypto_def demo_parse_def)

lemma demo_login:
  "\<exists>r w'. run_state (Login_Execute demo_crypto demo_signer 60 ''a@x.y'' ''password'') (calm_world demo_verified 40 [''r'']) = (r, w') \<and>
     users (committed w') = [demo_user] \<and> handed_out r = [''.a@x.y'']"
proof -
  let ?w = "calm_world demo_verified 40 [''r'']" and ?m = "Login_Execute demo_crypto demo_signer 60 ''a@x.y'' ''password''"
  have u: "logs_in demo_crypto ''a@x.y'' ''password'' demo_user demo_verified"
    by (simp add: logs_in_def demo_verified_users demo_user_def demo_normalizeEmail demo_hash_verifies)
  have "\<exists>p. run_result ?m ?w = Inr p \<and> users (committed (run_world ?m ?w)) = [demo_user]"
    using calm_Login [of ?w demo_crypto "''a@x.y''" "''password''" demo_user "''r''" "[]" demo_signer 60] u demo_verified_wf
    by (auto simp: wp_run demo_crypto_def demo_verified_tokens demo_verified_users insert_refresh_def)
  moreover have "tp_AccessToken p = ''.a@x.y''" if "run_result ?m ?w = Inr p" for p
    using wp_Login [of ?w demo_crypto demo_signer 60 "''a@x.y''" "''password''"] that
    by (auto simp: wp_run issued_since_def access_token_def logs_in_def demo_verified_users demo_user_def demo_crypto_def)
  ultimately show ?thesis
    by (cases "run_state ?m ?w") (auto simp: run_result_def run_world_def handed_out_def)
qed

lemma demo_authorized: "AuthJWT demo_parse (Inr key) 50 (''Bearer '' @ ''.a@x.y'') = Inr ''a@x.y''"
  by (rule AuthJWT_issued [where claim = "[''email'' \<mapsto> JStr ''a@x.y'']"]) (simp_all add: demo_parse_def)

lemma reach_demo_mailed:
  "\<exists>f d toks. full_reachable rfc3339 mlr demo_crypto demo_signer demo_parse key (demo_full (net_mailed mlr f) d toks) \<and>
     users d = [demo_user]"
proof -
  let ?R = "full_reachable rfc3339 mlr demo_crypto demo_signer demo_parse key"
  have quiet: "?R (demo_full n' d toks)"
    if "?R (demo_full n d toks)" "net_step rfc3339 mlr n n'" "asked n' = asked n" "verifying n' = verifying n" for n n' d toks
    using full_next [OF that(1) full_net [where n = n']] that by (simp add: demo_full_def quiet_step_def)
  have account: "?R (demo_full n (run_db op (calm_world d t b)) toks)"
    if "?R (demo_full n d toks)" "op \<in> {Register_Execute demo_crypto ttl email password, VerifyEmail_Execute token,
      Logout_Execute demo_crypto raw}" for n d toks op t b ttl email password token raw
    using full_next [OF that(1) full_account [OF _ _ that(2), of "calm_world d t b"]] by (simp add: demo_full_def)
  have "?R (demo_full init_net empty_auth [])"
    using full_init [where uuids = demo_uuids and sz = "ns_size init_net"] by (simp add: init_full_def demo_full_def empty_auth_def demo_uuids_def [abs_def])
  then have "?R (demo_full net_repo empty_auth [])"
    by (rule quiet [OF _ step_net_repo]) (simp_all add: net_repo_def init_net_def)
  then have "?R (demo_full net_repo demo_signed_up [])"
    unfolding demo_signed_up_def by (rule account) (rule insertI1)
  then have "?R (demo_full net_repo demo_verified [])"
    unfolding demo_verified_def by (rule account) (rule insertI2, rule insertI1)
  moreover obtain r w' where login: "run_state (Login_Execute demo_crypto demo_signer 60 ''a@x.y'' ''password'')
      (calm_world demo_verified 40 [''r'']) = (r, w')" "users (committed w') = [demo_user]" "handed_out r = [''.a@x.y'']"
    using demo_login by blast
  ultimately have "?R (demo_full net_repo (committed w') [''.a@x.y''])"
    using full_next [OF _ full_login [OF _ _ login(1)], where s = "demo_full net_repo demo_verified []"]
    by (simp add: demo_full_def)
  moreover have "sb_Email sub_a = TrimSpace ''a@x.y''" by (simp add: sub_a_def demo_trim)
  ultimately have "?R (demo_full net_asked (committed w') [''.a@x.y''])"
    using full_next [OF _ full_subscribe [OF _ demo_authorized, where sub = sub_a and w = "world_of (sys_of db_repo)"
        and ttl = 0 and sagaID = "''sa''" and repoName = "''o/r''"], where s = "demo_full net_repo (committed w') [''.a@x.y'']"]
      run_create_a
    by (simp add: demo_full_def net_asked_def net_repo_def init_net_def payload_a_def sub_a_def)
  moreover obtain f where "net_step rfc3339 mlr net_asked (net_sent_on f)" using step_net_published by blast
  ultimately have "?R (demo_full (net_sent_on f) (committed w') [''.a@x.y''])"
    by (rule quiet) (simp_all add: net_sent_on_def)
  then have "?R (demo_full (net_mailed mlr f) (committed w') [''.a@x.y''])"
    by (rule quiet [OF _ step_net_mailed]) (simp_all add: net_mailed_def)
  then show ?thesis using login(2) by blast
qed

section \<open>The property\<close>

text \<open>C13: only proven addresses are mailed, across the auth, subscription, monitoring and notification
  services: in every reachable state of the joined system, whatever fails, each mail that the server has
  accepted either carries the verification token that was made for a user to exactly the address of this
  user, or it goes to the address of a verified user, who has sent back a token that was mailed to it.
  About JWT it uses that a token parses to the claims it was signed for.\<close>

theorem mailed_addresses_are_verified:
  assumes "full_reachable rfc3339 mlr cy issuer parse key s" "jwt_sound cy issuer parse key"
    and "(sender, to, text) \<in> set (accepted (net s))"
  shows "\<exists>u \<in> set (users (acc s)).
    to = us_Email u \<and> (\<exists>token. smtp_meant mlr (VerificationMail to token) (sender, to, text) \<and> token_enqueued (acc s) to token)
    \<or> us_EmailVerified u \<and> to = TrimSpace (us_Email u) \<and>
      (\<exists>v \<in> set (email_verifications (acc s)). ve_UserID v = us_ID u \<and> ve_UsedAt v \<noteq> None \<and>
         token_enqueued (acc s) (us_Email u) (ve_Token v))"
proof -
  note inv = full_reachable_inv [OF assms(1,2)]
  have acc: "acc_inv (acc s)" "relay_inv auth_msgID (auth_outbox (acc s)) (notified s)"
    "set (verifying (net s)) \<subseteq> set (notified s)"
    using inv unfolding full_inv_def by blast+
  have asks: "\<exists>i e. verified_user (acc s) i e \<and> sb_Email sub = TrimSpace e" if "(sub, repoName) \<in> set (asked (net s))" for sub repoName
    using inv that unfolding full_inv_def by blast
  obtain x where x: "smtp_meant mlr x (sender, to, text)" "justified (net s) x"
    using net_reachable_inv [of rfc3339 mlr "net s"] inv assms(3) by (auto simp: full_inv_def net_inv_def mails_ok_def)
  then have to: "to = mail_to x" by (auto simp: smtp_meant_def smtp_mail_def)
  consider email token where "x = VerificationMail email token"
    | sub repoName where "(sub, repoName) \<in> set (asked (net s))" "to = sb_Email sub"
    using x(2) to by (cases x) (auto simp: consented_def)
  then show ?thesis
  proof cases
    case 1
    then obtain m where m: "m \<in> set (notified s)" "mail_of (msg_subject m) (msg_data m) = Some x"
      using x(2) acc(3) by auto
    have "msg_subject m = SubjectVerifyEmail" and "\<exists>u \<in> set (users (acc s)). \<exists>t.
        msg_data m = verification_event (us_Email u) t \<and> token_enqueued (acc s) (us_Email u) t"
      using notified_event [OF acc(2) _ m(1)] acc(1) by (simp_all add: acc_inv_def)
    then obtain u t where "u \<in> set (users (acc s))" "x = VerificationMail (us_Email u) t" "token_enqueued (acc s) (us_Email u) t"
      using m(2) by (auto simp: mail_of_def verification_event_def)
    then show ?thesis using x(1) to by auto
  next
    case 2
    then obtain u where u: "u \<in> set (users (acc s))" "us_EmailVerified u" "to = TrimSpace (us_Email u)"
      using asks by (fastforce simp: verified_user_def)
    then show ?thesis using acc(1) verified_owner [of "acc s" u] by (auto simp: acc_inv_def)
  qed
qed

theorem mailed_addresses_are_verified_witness:
  "\<exists>s. full_reachable (\<lambda>_. '''') demo_mailer demo_crypto demo_signer demo_parse ''pem'' s \<and>
     jwt_sound demo_crypto demo_signer demo_parse ''pem'' \<and>
     (\<exists>text. (''f@x.y'', ''a@x.y'', text) \<in> set (accepted (net s))) \<and>
     (\<exists>u \<in> set (users (acc s)). us_Email u = ''a@x.y'' \<or> us_EmailVerified u)"
proof -
  obtain f d toks where s: "full_reachable (\<lambda>_. '''') demo_mailer demo_crypto demo_signer demo_parse ''pem''
      (demo_full (net_mailed demo_mailer f) d toks)" (is "full_reachable _ _ _ _ _ _ ?s")
    using reach_demo_mailed by blast
  have "smtp_mail demo_mailer mail_a \<in> set (accepted (net ?s))"
    by (simp add: demo_full_def net_mailed_def)
  moreover obtain body where "smtp_mail demo_mailer mail_a = (''f@x.y'', ''a@x.y'', body)"
    by (simp add: smtp_mail_def demo_mailer_def NewMailer_def mail_a_def)
  ultimately have a: "(''f@x.y'', ''a@x.y'', body) \<in> set (accepted (net ?s))" by simp
  then show ?thesis
    using mailed_addresses_are_verified [OF s jwt_sound_demo a] s jwt_sound_demo by metis
qed

end
