(* ===== verification/Lockout.thy ===== *)
theory Lockout
  imports Accounts
begin

text \<open>
  What the auth service lacks: a second verification mail. An address that was registered and not
  verified in time can never be used again, by its owner or anybody else.
\<close>

section \<open>Operations in time\<close>

datatype auth_op =
    DoRegister int string string | DoVerify string | DoLogin int string string | DoLoginEnd string string int
  | DoRefresh int string | DoLogout string | DoTick

fun run_op :: "crypto \<Rightarrow> Signer \<Rightarrow> auth_op \<Rightarrow> auth_db world \<Rightarrow> auth_db" where
  "run_op cy s (DoRegister ttl email password) w = run_db (Register_Execute cy ttl email password) w"
| "run_op cy s (DoVerify token) w = run_db (VerifyEmail_Execute token) w"
| "run_op cy s (DoLogin ttl email password) w = run_db (Login_Execute cy s ttl email password) w"
| "run_op cy s (DoLoginEnd userID tok expiresAt) w = run_db (InsertRefreshToken Pool userID (hashToken cy tok) expiresAt) w"
| "run_op cy s (DoRefresh ttl raw) w = run_db (Refresh_Execute cy s ttl raw) w"
| "run_op cy s (DoLogout raw) w = run_db (Logout_Execute cy raw) w"
| "run_op cy s DoTick w = run_db auth_publishPending w"

lemma run_op_step: "txn w = None \<Longrightarrow> auth_step cy s (committed w) (run_op cy s op w)"
  by (cases op) (auto intro: auth_step.intros)

text \<open>Any operations in any environments, none of them before \<open>t\<close>.\<close>

inductive runs_from :: "crypto \<Rightarrow> Signer \<Rightarrow> int \<Rightarrow> auth_db \<Rightarrow> auth_db \<Rightarrow> bool" for cy s t where
  runs_from_refl: "runs_from cy s t d d"
| runs_from_step: "runs_from cy s t d (committed w) \<Longrightarrow> txn w = None \<Longrightarrow> t \<le> go_clock w \<Longrightarrow>
    runs_from cy s t d (run_op cy s op w)"

section \<open>The invariant\<close>

definition expired_user :: "int \<Rightarrow> User \<Rightarrow> auth_db \<Rightarrow> bool" where
  "expired_user t u d \<longleftrightarrow> u \<in> set (users d) \<and> \<not> us_EmailVerified u \<and>
     (\<forall>v \<in> set (email_verifications d). ve_UserID v = us_ID u \<longrightarrow> ve_ExpiresAt v < t)"

lemma expired_user_stmts:
  "stmt_keeps (expired_user t u) (insertRefreshTokenQuery userID h e)"
  "stmt_keeps (expired_user t u) (revokeRefreshTokenQuery h)"
  "stmt_keeps (expired_user t u) (markOutboxPublishedQuery auth_outbox auth_outbox_update ids)"
  by (rule stmt_keepsI, auto simp: auth_queries markOutboxPublishedQuery_def expired_user_def insert_refresh_def
      revoke_refresh_def split: if_splits)+

lemmas expired_user_ops = sessions_keep [OF expired_user_stmts(1,2)] auth_tick_keeps [OF expired_user_stmts(3)]

lemma expired_user_signed_up: "signed_up e h token x d d' \<Longrightarrow> expired_user t u d \<Longrightarrow> expired_user t u d'"
  by (auto simp: expired_user_def signed_up_def registrable_def registered_def insert_user_def)

lemma expired_user_verified:
  assumes "verification d token = Some v" "t \<le> ve_ExpiresAt v" "expired_user t u d"
  shows "expired_user t u (verified v now d)"
proof -
  have "ve_UserID v \<noteq> us_ID u"
    using assms by (auto simp: expired_user_def verification_def dest!: find_SomeD)
  then show ?thesis
    using assms(3) by (auto simp: expired_user_def verified_def verify_user_def use_verification_def in_set_update_where
        intro!: bexI [of _ u])
qed

lemma expired_user_op:
  assumes "txn w = None" "t \<le> go_clock w" "expired_user t u (committed w)"
  shows "expired_user t u (run_op cy s op w)"
proof (cases op)
  case (DoRegister ttl email password)
  then show ?thesis
    using wp_Register [OF assms(1), of cy ttl email password] assms(3) expired_user_signed_up
    by (auto simp: wp_run run_db_world)
next
  case (DoVerify token)
  then show ?thesis
    using wp_VerifyEmail [OF assms(1), of token] assms(2,3) expired_user_verified [of "committed w" token]
    by (auto simp: wp_run run_db_world)
qed (use assms expired_user_ops [THEN keeps_run_db, of w] in \<open>simp_all add: idle_def\<close>)

lemma runs_from_keep:
  "runs_from cy s t d d' \<Longrightarrow> auth_wf d \<Longrightarrow> expired_user t u d \<Longrightarrow> auth_wf d' \<and> expired_user t u d'"
  by (induction rule: runs_from.induct) (auto intro: expired_user_op auth_step_wf [OF run_op_step])

section \<open>The property\<close>

text \<open>C37: an address that is registered and not verified in time is lost. Once every verification token of
  an unverified user has expired, then after any operations of the service in any environments, by
  whomever: the user is still unverified; registering the address fails; logging in with it fails, even
  with the right password; and sending back any token of the user fails. None of them changes anything.\<close>

theorem expired_registration_blocks_address:
  assumes "auth_wf d" "u \<in> set (users d)" "\<not> us_EmailVerified u"
    and "\<forall>v \<in> set (email_verifications d). ve_UserID v = us_ID u \<longrightarrow> ve_ExpiresAt v < t"
    and "runs_from cy s t d (committed w)" "txn w = None" "t \<le> go_clock w" "normalizeEmail cy email = Inr (us_Email u)"
  shows "u \<in> set (users (committed w)) \<and>
    wp (Register_Execute cy ttl email password) (\<lambda>r w'. r \<noteq> Inr () \<and> committed w' = committed w) w \<and>
    wp (Login_Execute cy s rttl email password) (\<lambda>r w'. r \<in> range Inl \<and> committed w' = committed w) w \<and>
    (\<forall>v \<in> set (email_verifications (committed w)). ve_UserID v = us_ID u \<longrightarrow>
       wp (VerifyEmail_Execute (ve_Token v)) (\<lambda>r w'. r \<noteq> Inr () \<and> committed w' = committed w) w)"
proof -
  have inv: "auth_wf (committed w)" "expired_user t u (committed w)"
    using runs_from_keep [OF assms(5,1)] assms(2-4) by (simp_all add: expired_user_def)
  have u: "u \<in> set (users (committed w))" "\<not> us_EmailVerified u"
    using inv(2) by (simp_all add: expired_user_def)
  have no_other: "x = u" if "x \<in> set (users (committed w))" "us_Email x = us_Email u" for x
    using inv(1) that u(1) unfolding auth_wf_def by (metis distinct_map_eqD)
  have "wp (Register_Execute cy ttl email password) (\<lambda>r w'. r \<noteq> Inr () \<and> committed w' = committed w) w"
    by (rule wp_mono [OF wp_Register [OF assms(6)]])
      (use assms(8) u(1) in \<open>auto simp: signed_up_def registrable_def\<close>)
  moreover have "wp (Login_Execute cy s rttl email password) (\<lambda>r w'. r \<in> range Inl \<and> committed w' = committed w) w"
    by (rule wp_mono [OF wp_Login [OF assms(6)]])
      (use assms(8) u(2) no_other in \<open>auto simp: logs_in_def\<close>)
  moreover have "wp (VerifyEmail_Execute (ve_Token v)) (\<lambda>r w'. r \<noteq> Inr () \<and> committed w' = committed w) w"
    if v: "v \<in> set (email_verifications (committed w))" "ve_UserID v = us_ID u" for v
  proof -
    have "verification (committed w) (ve_Token v) = Some v"
      using inv(1) v(1) unfolding verification_def by (intro find_key_unique) (simp_all add: auth_wf_def)
    moreover have "ve_ExpiresAt v < go_clock w"
      using inv(2) v assms(7) by (auto simp: expired_user_def)
    ultimately show ?thesis
      by (intro wp_mono [OF wp_VerifyEmail [OF assms(6)]]) auto
  qed
  ultimately show ?thesis using u(1) by blast
qed

theorem expired_registration_blocks_address_witness:
  "run_result (Register_Execute demo_crypto 60 ''a@x.y'' ''another password'')
     (calm_world (run_op demo_crypto demo_signer DoTick (calm_world demo_signed_up 61 [])) 62 [''s'', ''t2'']) \<noteq> Inr ()"
proof -
  let ?w = "calm_world (run_op demo_crypto demo_signer DoTick (calm_world demo_signed_up 61 [])) 62 [''s'', ''t2'']"
  have d: "auth_wf demo_signed_up" "users demo_signed_up = [demo_user\<lparr>us_EmailVerified := False\<rparr>]"
    "\<forall>v \<in> set (email_verifications demo_signed_up). ve_ExpiresAt v < 61"
    unfolding demo_signed_up_eq
    by (rule registered_wf, rule empty_auth_registrable, rule empty_auth_registrable)
      (simp_all add: registered_def insert_user_def empty_auth_def empty_auth_db_def demo_user_def)
  have "runs_from demo_crypto demo_signer 61 demo_signed_up (committed ?w)"
    using runs_from_step [OF runs_from_refl, where w = "calm_world demo_signed_up 61 []" and op = DoTick] by simp
  then show ?thesis
    using expired_registration_blocks_address [OF d(1), of "demo_user\<lparr>us_EmailVerified := False\<rparr>" 61 demo_crypto demo_signer
        ?w "''a@x.y''" 60 "''another password''"] d(2,3) demo_normalizeEmail
    by (simp add: demo_user_def wp_run)
qed

end
