(* ===== verification/Spec2Isabelle.thy ===== *)
theory Spec2Isabelle
  imports Reaper Scan Accounts Config Releases Consent Metrics Copies Identity Lockout
begin

text \<open>
  A model of the GitHub release notification system: four Go services that let people subscribe to
  the releases of a GitHub repository, confirm by mail, and receive a mail for every new release.
  Paths below are relative to \<^verbatim>\<open>src/services\<close>.

  \<^bold>\<open>The program.\<close> The subscription service (\<^verbatim>\<open>subscription\<close>) keeps repositories and
  subscriptions in PostgreSQL. Subscribing checks the repository at GitHub, writes a pending
  subscription with a saga row and an outbox event in one transaction, and the outbox relay publishes
  the event to NATS JetStream. The notification service (\<^verbatim>\<open>notification\<close>) mails it and replies
  with \<^verbatim>\<open>saga.email.sent\<close> or \<^verbatim>\<open>saga.email.failed\<close>; the saga consumer and the reaper of
  expired sagas advance, complete or compensate the saga. The monitoring service (\<^verbatim>\<open>monitoring\<close>)
  lists the tracked repositories over gRPC, scans GitHub for new releases and, through its own
  outbox, publishes \<^verbatim>\<open>releases.found\<close>; the fan-out of the subscription service turns one such
  event into one mail event for each confirmed subscriber. The auth service (\<^verbatim>\<open>auth\<close>) registers
  users, verifies their addresses by mail and issues the tokens the subscription service accepts.

  \<^bold>\<open>The foundation.\<close> \<open>Prelude\<close>: lists as tables, lookups and updates by key. \<open>GoLib\<close>,
  \<open>Encoding\<close>, \<open>Json\<close>: what the services use of Go's \<^verbatim>\<open>strings\<close>, \<^verbatim>\<open>strconv\<close>,
  \<^verbatim>\<open>encoding/hex\<close>, \<^verbatim>\<open>encoding/base64\<close> and \<^verbatim>\<open>encoding/json\<close>; a Go string is a
  list of 8-bit characters, a payload a JSON value or bytes that are none. \<open>World\<close>: a handler is a
  state transformer (\<^theory_text>\<open>State_Monad\<close>) over a world with the committed database, the copy an
  open transaction works on, clocks, randomness, the stream of published messages, and the faults the
  environment has in store: a call to the database or to JetStream works, fails, or takes effect with
  its answer lost. A failed statement aborts its transaction, the deferred rollback drops the copy, and
  a commit installs it. Errors are values that keep the chain \<^verbatim>\<open>errors.Is\<close> walks. \<open>Effects\<close>: the
  weakest precondition \<open>wp\<close> of a handler, with one rule for every call (collection \<open>wp_simps\<close>), the
  invariance rules \<open>keeps\<close> (collection \<open>keeps_rules\<close>), and the well-behaved worlds \<open>calm\<close>.
  \<open>Contract\<close>: the events of \<^verbatim>\<open>contract/events.go\<close> with their encoding, and the redelivery of
  JetStream.

  \<^bold>\<open>The outbox.\<close> \<open>Outbox\<close>, \<open>Relay\<close>: table, store and one tick of the relay, the same code in
  three services (\<^verbatim>\<open>internal/outbox\<close>, \<^verbatim>\<open>monitoring/internal/relay\<close>), and runs of inserts and
  ticks. The locale \<open>outbox_store\<close> states what a store promises; at-least-once delivery and draining
  are proved in it and instantiated for each service.

  \<^bold>\<open>Subscription service.\<close> \<open>Github\<close>: \<^verbatim>\<open>internal/github\<close> (both copies). \<open>SubDB\<close>: tables
  and SQL statements, as the migrations and the query files give them, and the schema invariant
  \<open>sub_wf\<close>. \<open>Catalog\<close>: \<^verbatim>\<open>internal/catalog\<close> and its gRPC handler; the locales \<open>ensure_store\<close>
  and \<open>repo_counter\<close> are the interfaces of its use cases. \<open>SubStore\<close>, \<open>Subscribe\<close>:
  \<^verbatim>\<open>internal/subscription\<close>. \<open>Saga\<close>: \<^verbatim>\<open>internal/saga\<close>, each handler with its transactions, and
  what each transaction may commit. \<open>Fanout\<close>: \<^verbatim>\<open>internal/fanout\<close>. \<open>SagaSystem\<close> composes them
  into a step relation: a step is one transaction of one handler from any environment, handlers
  interleave and may crash between their transactions; \<open>effect\<close> is the abstract system the steps
  refine. \<open>SagaInvariant\<close>: the invariant of all reachable states, the moves of a saga against the state
  machine \<^verbatim>\<open>docs/SDD.md\<close> draws (\<open>documented_edge\<close>, and the two moves it lacks, \<open>undocumented_edge\<close>),
  runs, and the stuck compensation. \<open>SagaScenarios\<close>: the states a failed compensation leaves, concrete reachable
  states.
  \<open>Reaper\<close>: a pass of the reaper when nothing fails. \<open>Http\<close>: the handlers of
  \<^verbatim>\<open>transport/http\<close>, the bearer-token middleware, the client of the signing key, and the handlers
  of the auth service. \<open>Router\<close>: the route tables of both services, the logging and metrics middleware,
  the health checks and the probe \<^verbatim>\<open>cmd/healthcheck\<close>; \<open>routes_well\<close> is what the router library
  promises. \<open>Requests\<close>: whole requests through router, middleware, handler and use case.
  \<open>Background\<close>: the refresh of the key, the pool statistics, the metrics of a scan. \<open>Metrics\<close>: the
  metrics that are declared and registered, and what any sequence of requests, ticks of the pool collector
  and scans leaves in them; \<open>prometheus_well\<close> is what the client library promises.

  \<^bold>\<open>Monitoring service.\<close> \<open>Monitoring\<close>: cursors, outbox, catalog client and the processing of a
  repository; the locale \<open>cursor_store\<close> is the interface of the worker. \<open>Scan\<close>: the concurrent scan
  as a step relation over the program counter of the loop, the running goroutines, the semaphore and
  the cancellation, with a measure for termination; the loop of \<^verbatim>\<open>Start\<close>.

  \<^bold>\<open>Notification service.\<close> \<open>Templates\<close>: the mail templates and the contextual escaping of
  \<^verbatim>\<open>html/template\<close>. \<open>Mailer\<close>: the dialogue with the SMTP server. \<open>Notification\<close>: one
  delivery of a message, and all of them; the locale \<open>mail_sender\<close> is the interface of the mailer.
  \<open>Deliveries\<close>: the properties of deliveries, of dead letters, and of the fan-out's deliveries.
  \<open>Mails\<close>: what stands in a mail.

  \<^bold>\<open>The whole system.\<close> \<open>Journey\<close>, \<open>Releases\<close>: the way of one subscription, and that of one
  release, through all services when nothing fails. \<open>Network\<close>: the services as one step relation over
  their databases, the streams, the deliveries still to be made and the mails accepted; any call may fail
  or lose its answer, deliveries are repeated or lost, replies are handled at any time or never, the stream of notifications
  discards messages by its \<^verbatim>\<open>MaxAge\<close> and \<^verbatim>\<open>MaxBytes\<close>. The state also
  records what was asked for, confirmed, listed and found, which no step reads but the scan of a listed
  repository. \<open>NetworkInvariant\<close>: the invariant that ties them together. \<open>Consent\<close>: a run that
  reaches its interesting states, and the properties that follow.

  \<^bold>\<open>Auth service.\<close> \<open>Password\<close>: \<^verbatim>\<open>internal/user/password.go\<close> with base64 and
  \<^verbatim>\<open>fmt.Sscanf\<close>. \<open>AuthDB\<close>, \<open>Auth\<close>: tables, store, the five use cases, the token signer.
  \<open>AuthFacts\<close>: each use case under every pattern of faults. \<open>AuthRuns\<close>: runs of use cases, their
  invariants. \<open>Accounts\<close>: the properties of the service; \<open>Lockout\<close>: what becomes of an address that is
  not verified in time. \<open>Identity\<close>: the service joined to the system of \<open>Network\<close>: subscriptions are asked for with access tokens it has signed, and only verified
  users have any.

  \<^bold>\<open>Processes.\<close> \<open>Config\<close>: the configuration of the four services. \<open>Startup\<close>: how each service
  starts and stops (\<^verbatim>\<open>app.go\<close>, \<^verbatim>\<open>main.go\<close>), as a computation over what the process holds open,
  its goroutines, and the streams and consumers at the JetStream server; \<open>always_ends\<close> is what holds
  after every pattern of failures. When a run ends without an error everything is closed. On errors the
  subscription service keeps its connection to the auth service (until the process exits) if \<open>Build\<close>
  fails after it, the monitoring and notification services their NATS connection. \<open>Tls\<close>: the TLS
  configurations of the gRPC connections (\<^verbatim>\<open>contract/tlsutil\<close>, \<^verbatim>\<open>tls.go\<close>); \<open>handshake_well\<close>
  is what a handshake verifies. \<open>Wiring\<close>: what each service is wired from, its pings, its exit code, and
  what the probe of its container concludes. \<open>Copies\<close>: the packages that services keep copies of, each
  copy translated and proved equal; the health reports do not depend on the order of Go's maps.

  \<^bold>\<open>Properties.\<close> Those about one part or about a composition stand in its theory (\<open>Deliveries\<close>,
  \<open>Accounts\<close>, \<open>Reaper\<close>, \<open>Startup\<close>, \<open>Requests\<close>, \<open>Mails\<close>, \<open>Journey\<close>, \<open>Releases\<close>, \<open>Consent\<close>,
  \<open>Metrics\<close>, \<open>Wiring\<close>, \<open>Identity\<close>, \<open>Lockout\<close>); the others stand here:
  the saga (C1, C2, C4 to C8), subscribing, confirming and unsubscribing (C9, C10, C14, C15), the relays (C17, C18), the way of a release (C21, C23, C24),
  the scan (C26, C27); and the start of the worker.

  \<^bold>\<open>Bounds.\<close> The retry of \<open>create_attempts\<close> is the code's five attempts; \<open>redeliver\<close> is the
  \<^verbatim>\<open>MaxDeliver\<close> of the consumers; \<open>follow\<close> takes the nine redirects after which \<^verbatim>\<open>http.Client\<close> reports an
  error; loops over lists and rows are structural. Nothing runs on fuel
  that could give out before the code's own bound. Identifiers are unbounded integers where the code has \<^verbatim>\<open>int64\<close> serials, and
  the ranges of integers matter only where JSON is decoded, which checks them. Instants and
  durations are integers of nanoseconds.

  \<^bold>\<open>Parameters.\<close> Code outside the repository is an argument: one HTTP exchange and the parsing of URLs (the
  client around them follows redirects as \<^verbatim>\<open>net/http\<close> does), the RFC 3339
  reader, \<^verbatim>\<open>mail.ParseAddress\<close>, the Unicode half of \<^verbatim>\<open>strings.ToLower\<close>, argon2id, SHA-256,
  JWT signing and parsing, key files and PEM, \<^verbatim>\<open>time.ParseDuration\<close>, \<^verbatim>\<open>url.ParseRequestURI\<close>,
  finding the route of a request, registering and labelling metrics, key pairs, PEM and the TLS handshake,
  and the texts of library errors. Properties that need more than
  their type assume documented behaviour: the output length of argon2id, that a signed token parses
  to its claims until it expires and nobody else signs, that the router finds a route of its table that fits, or none only when none does (which pattern it reports then
  is left open, but for being ASCII), that valid metrics can be
  registered and labelled.

  \<^bold>\<open>Not modelled.\<close> Constructors that only fill a structure, time-outs and retry policies of
  connections, logging, the interfaces over pgx: calls into libraries. Generated gRPC code, the web front
  end. Inside the model: one statement of a handler outside a transaction is atomic, a
  transaction is isolated from the others (its reads are locking reads, or of rows nobody else
  changes), serial numbers of aborted inserts are not used up, a row lock held by another session shows
  only as the set of rows \<^verbatim>\<open>SKIP LOCKED\<close> skips, and a failing encoder is covered by the faults. A statement with
  \<^verbatim>\<open>LIMIT\<close> but no \<^verbatim>\<open>ORDER BY\<close>, such as the reaper's, takes the rows in the order of the table. In the step relations
  the fan-out reads the confirmed subscribers and commits their events in one step, although the code reads
  before its transaction. \<open>restarts\<close> lets services run one after the other, so that one never sees a stream
  that another is just declaring. The size of a stored message is a function nothing is assumed of; limits are
  modelled for the stream of notifications, while nothing is assumed of how long the streams of releases, replies
  and dead letters keep their messages.
\<close>

section \<open>The subscribe saga\<close>

text \<open>C1: in every reachable state of the subscription service, whatever fails and however its
  handlers interleave and crash, the tables satisfy their keys, a failed saga has no subscription
  left, a completed saga has no pending one, and every pending subscription has a saga that is
  still active.\<close>

theorem saga_outcomes:
  assumes "reachable s"
  shows "sub_wf (sdb s) \<and>
    (\<forall>r \<in> set (subscribe_sagas (sdb s)). sg_State r = StateFailed \<longrightarrow>
       (\<forall>x \<in> set (subscriptions (sdb s)). sb_ID x \<noteq> sg_SubscriptionID r)) \<and>
    (\<forall>r \<in> set (subscribe_sagas (sdb s)). sg_State r = StateCompleted \<longrightarrow>
       \<not> pending_sub (sdb s) (sg_SubscriptionID r)) \<and>
    (\<forall>x \<in> set (subscriptions (sdb s)). \<not> sb_Confirmed x \<longrightarrow>
       (\<exists>r \<in> set (subscribe_sagas (sdb s)). sg_SubscriptionID r = sb_ID x \<and>
          sg_State r \<in> {StateStarted, StateAwaitingConfirmation, StateCompensating}))"
proof -
  have inv: "sub_wf (sdb s)" "sagas_ok (sdb s)"
    using reachable_inv [OF assms] by (simp_all add: sys_inv_def)
  then show ?thesis
    using pending_has_saga [OF inv(2)] unfolding sagas_ok_def by blast
qed

theorem saga_outcomes_witness:
  "reachable (sys_of db_a) \<and> \<not> sb_Confirmed pending_a \<and>
   (\<exists>r \<in> set (subscribe_sagas db_a). sg_SubscriptionID r = sb_ID pending_a \<and>
      sg_State r \<in> {StateStarted, StateAwaitingConfirmation, StateCompensating})"
  using saga_outcomes [OF reach_a] reach_a by (simp add: pending_a_def)



text \<open>A saga that is completed or failed stays so in every run from a reachable state.\<close>

theorem terminal_sagas_are_final:
  assumes "reachable s" "sys_run s evs s'" "r \<in> set (subscribe_sagas (sdb s))"
    and "sg_State r \<in> {StateCompleted, StateFailed}"
  shows "\<exists>r' \<in> set (subscribe_sagas (sdb s')). same_saga r r' \<and> sg_State r' = sg_State r"
  using run_state_mono [OF assms(2) reachable_inv [OF assms(1)] assms(3)] terminal_max [OF assms(4)] by blast

theorem terminal_sagas_are_final_witness:
  "\<exists>r' \<in> set (subscribe_sagas (sdb (sys_of db_done))). same_saga (row_a\<lparr>sg_State := StateCompleted\<rparr>) r' \<and>
     sg_State r' = StateCompleted"
proof -
  have "sys_step (sys_of db_done) EvCrash (sys_of db_done)"
    using step_crash [of "sys_of db_done"] by (simp add: sys_of_def init_sys_def)
  then have "sys_run (sys_of db_done) [EvCrash] (sys_of db_done)"
    by (rule run_cons [OF _ run_nil])
  from terminal_sagas_are_final [OF reach_done this, of "row_a\<lparr>sg_State := StateCompleted\<rparr>"] show ?thesis
    by (simp add: db_done_sagas)
qed

text \<open>C4: a confirmed subscription survives every step, the compensation of its saga included,
  except its own unsubscription and the deletion of its repository.\<close>

theorem confirmed_subscription_survives:
  assumes "sys_step s ev s'" "x \<in> set (subscriptions (sdb s))" "sb_Confirmed x"
    and "ev \<noteq> EvUnsubscribe (sb_UnsubscribeToken x)" "ev \<noteq> EvCleanupDelete (sb_RepositoryID x)"
  shows "\<exists>y \<in> set (subscriptions (sdb s')). same_sub x y \<and> sb_Confirmed y"
  using assms by (rule step_keeps_confirmed)

theorem confirmed_subscription_survives_witness:
  "\<exists>y \<in> set (subscriptions (sdb (race\<lparr>inflight := [], confirming := [], cleaning := [], deleting := []\<rparr>))).
     sb_ID y = 2 \<and> sb_Confirmed y"
  using confirmed_subscription_survives [OF step_crash, of "hd (subscriptions race_db)" race]
  by (auto simp: race_def race_subscriber same_sub_def)

text \<open>C5: the refinement of the detailed handlers: the effect on the database of every step, with
  its transactions, retries, lost answers and aborted statements, is one the abstract system
  allows for that event.\<close>

theorem handlers_refine_effects:
  assumes "sys_step s ev s'"
  shows "effect ev (sdb s) (sdb s')"
  using assms by (rule step_effect)

theorem handlers_refine_effects_witness:
  "effect (EvEmailFailed ''sa'' ''bounced'') db_a (sdb marked_a)"
  using handlers_refine_effects [OF email_failed_a] by (simp add: marked_a_def)

text \<open>C6: a saga left in \<^verbatim>\<open>COMPENSATING\<close> with nobody working on it stays there, and its
  subscription stays pending, in every run in which the user neither confirms nor unsubscribes and
  the repository is not deleted: neither redelivered replies nor the reaper pick it up again.\<close>

theorem unfinished_compensation_is_stuck:
  assumes "reachable s" "stuck i x s" "sys_run s evs s'" "\<forall>ev \<in> set evs. \<not> releases ev x"
  shows "stuck i x s' \<and> pair_taken (sdb s') (sb_Email x) (sb_RepositoryID x)"
  using stuck_run [OF assms(3) reachable_inv [OF assms(1)] assms(2,4)]
  by (auto simp: stuck_def pair_taken_def)

theorem unfinished_compensation_is_stuck_witness:
  "stuck 1 pending_a marked_a \<and> pair_taken (sdb marked_a) ''a@x.y'' 1"
  using unfinished_compensation_is_stuck [OF reach_marked_a stuck_marked_a run_nil]
  by (simp add: pending_a_def)

text \<open>C7: one failing database call brings any active saga there. The e-mail of a saga with a pending
  subscription bounced, the news is consumed, the four calls of the first transaction of
  \<^verbatim>\<open>HandleEmailFailed\<close> succeed and one of the four of the second, whichever, fails: the consumer asks for
  redelivery, the state it leaves is reachable, and the saga is stuck in it. The redelivered message then changes
  nothing whatever happens, and is acknowledged as done when nothing fails.\<close>

theorem unfinished_compensation_is_reachable:
  assumes "reachable s" "g \<in> set (subscribe_sagas (sdb s))"
    and "sg_State g \<in> {StateStarted, StateAwaitingConfirmation}"
    and "x \<in> set (subscriptions (sdb s))" "sb_ID x = sg_SubscriptionID g" "\<not> sb_Confirmed x"
    and "runs_at w s" "faults w = replicate n Fine @ Fail # fs" "4 \<le> n" "n < 8"
  shows "let consume = saga_Consume orc SubjectEmailFailed
           (Marshal_EmailFailed \<lparr>ef_SagaID = sg_SagaID g, ef_Reason = reason\<rparr>);
         s' = s\<lparr>sdb := run_db consume w\<rparr> in
    run_result consume w = Nak \<and> reachable s' \<and> stuck (sg_ID g) x s' \<and>
    (\<forall>w'. runs_at w' s' \<longrightarrow> run_db consume w' = sdb s' \<and> (calm w' \<longrightarrow> run_result consume w' = Ack))"
proof -
  let ?c = "saga_Consume orc SubjectEmailFailed (Marshal_EmailFailed \<lparr>ef_SagaID = sg_SagaID g, ef_Reason = reason\<rparr>)"
  have "run_result ?c w = Nak" "run_db ?c w = sdb (bounced g reason s)"
    using bounce_fails [OF assms(1-3,7-10), of orc reason] by (simp_all add: wp_run run_db_world)
  moreover have "s\<lparr>sdb := sdb (bounced g reason s)\<rparr> = bounced g reason s" by (simp add: bounced_def)
  ultimately show ?thesis
    using bounced_reachable(1) [OF assms(1-3)] bounced_stuck [OF assms(1-6)]
      bounce_redelivered [OF assms(1,2), where orc = orc and reason = reason and again = reason]
    by (simp add: Let_def wp_run run_db_world)
qed

theorem unfinished_compensation_is_reachable_witness:
  "let consume = saga_Consume orchestrator SubjectEmailFailed
         (Marshal_EmailFailed \<lparr>ef_SagaID = ''sa'', ef_Reason = ''bounced''\<rparr>);
       w = calm_world db_a 0 []\<lparr>faults := [Fine, Fine, Fine, Fine, Fine, Fail]\<rparr> in
   run_result consume w = Nak \<and> stuck 1 pending_a (sys_of (run_db consume w))"
proof -
  let ?w = "calm_world db_a 0 []\<lparr>faults := [Fine, Fine, Fine, Fine, Fine, Fail]\<rparr>"
  have w: "runs_at ?w (sys_of db_a)" "faults ?w = replicate 5 Fine @ [Fail]"
    by (simp_all add: runs_at_def numeral_eq_Suc)
  have row: "sg_SagaID row_a = ''sa''" "sg_ID row_a = 1" "sg_State row_a = StateStarted"
    "sb_ID pending_a = sg_SubscriptionID row_a" "\<not> sb_Confirmed pending_a"
    by (simp_all add: row_a_def pending_a_def)
  show ?thesis
    using unfinished_compensation_is_reachable [OF reach_a _ _ _ row(4,5) w, of orchestrator "''bounced''"]
    unfolding row Let_def sys_of_simps by simp
qed

text \<open>C8: the cleanup of a repository without subscribers can delete a confirmed subscription: one
  that was created and confirmed between its check and its delete goes with the cascade.\<close>

theorem cleanup_can_lose_confirmed_subscription:
  "\<exists>s s' x. reachable s \<and> sys_step s (EvCleanupDelete (sb_RepositoryID x)) s' \<and>
     x \<in> set (subscriptions (sdb s)) \<and> sb_Confirmed x \<and>
     sb_ID x \<notin> sb_ID ` set (subscriptions (sdb s'))"
proof -
  have "sys_step race (EvCleanupDelete 1) (race\<lparr>sdb := delete_repository 1 race_db, deleting := []\<rparr>)"
    using delete_step [of 1 race] by (simp add: race_def)
  then show ?thesis
    using reach_race race_lost
    by (intro exI [of _ race] exI [of _ "race\<lparr>sdb := delete_repository 1 race_db, deleting := []\<rparr>"]
        exI [of _ "hd (subscriptions race_db)"]) (simp add: race_def race_subscriber)
qed

section \<open>Subscribing, confirming, unsubscribing\<close>

text \<open>C9: subscribing is atomic under every pattern of failures: the call creates one pending
  subscription for the trimmed address and the named repository together with its saga and its
  confirmation event, or none of the three; if it reports success they are there.\<close>

theorem subscribe_atomic:
  assumes "txn w = None"
  shows "wp (Subscribe_Execute parse_ok check_repo ttl email repo) (\<lambda>r w'. txn w' = None \<and>
    (r \<noteq> Inr () \<and> subscriptions (committed w') = subscriptions (committed w) \<and>
       subscribe_sagas (committed w') = subscribe_sagas (committed w) \<and>
       outbox (committed w') = outbox (committed w)
     \<or> (\<exists>d rid. (TrimSpace repo, rid) \<in> repo_names d \<and> same_rest (committed w) d \<and>
          subscribed (TrimSpace email) (TrimSpace repo) rid d (committed w')))) w"
  using assms by (rule wp_Subscribe)

theorem subscribe_atomic_witness:
  "txn (run_world (Subscribe_Execute (\<lambda>_. True) (\<lambda>_. None) 0 ''a@x.y'' ''o/r'') (calm_world db_repo 0 [])) = None"
  using subscribe_atomic [of "calm_world db_repo 0 []" "\<lambda>_. True" "\<lambda>_. None" 0 "''a@x.y''" "''o/r''"]
  by (simp add: wp_run)

text \<open>C10: tokens that clash with existing ones are drawn again: when fewer than five pairs clash
  and the next pair is free, the subscription is created with exactly that pair, its saga carries
  the hex identifier drawn first, and its event the confirmation token.\<close>

theorem token_conflicts_are_retried:
  assumes "calm w" "entropy w = g # draws ps @ a # b # es" "varchar255 email"
    and "all_clash (committed w) ps" "length ps < maxTokenAttempts"
    and "creatable (committed w) (hex_EncodeToString (take 8 (g @ replicate 8 CHR 0x00))) (draft email rid a b)"
  shows "wp (createPending ttl email repoName rid) (\<lambda>r w'. r = Inr () \<and>
    (let sagaID = hex_EncodeToString (take 8 (g @ replicate 8 CHR 0x00)) in
     committed w' = created sagaID (draft email rid a b)
       (confirmation_payload sagaID email repoName (token_of a)) (pg_clock w)
       (go_clock w + next_drift (drift w) + ttl) (committed w))) w"
proof -
  let ?v = "w\<lparr>entropy := draws ps @ a # b # es\<rparr>"
  let ?id = "hex_EncodeToString (take 8 (g @ replicate 8 CHR 0x00))"
  have "calm ?v" "all_clash (committed ?v) ps" "creatable (committed ?v) ?id (draft email rid a b)"
    using assms by (simp_all add: calm_def)
  from attempts_succeed [OF this(1) assms(3) this(2) assms(5) _ this(3), of es ttl repoName]
  show ?thesis
    using assms(2) by (simp add: createPending_def idgen_New_def wp_bind wp_rand_Read wp_return Let_def)
qed

theorem token_conflicts_are_retried_witness:
  "run_result (createPending 60 ''a@x.y'' ''o/r'' 1) (calm_world db_repo 0 [''g'', ''a'', ''b'']) = Inr ()"
proof -
  have "creatable db_repo (hex_EncodeToString (take 8 (''g'' @ replicate 8 CHR 0x00))) (draft ''a@x.y'' 1 ''a'' ''b'')"
    by (simp add: creatable_def db_repo_def empty_sub_db_def token_clash_def pair_taken_def varchar255_short)
  then show ?thesis
    using token_conflicts_are_retried [of "calm_world db_repo 0 [''g'', ''a'', ''b'']" "''g''" "[]" "''a''" "''b''"
        "[]" "''a@x.y''" 1 60 "''o/r''"]
    by (simp add: draws_def all_clash_def maxTokenAttempts_def varchar255_short wp_run)
qed

definition db_clash :: sub_db where
  "db_clash = db_a\<lparr>subscriptions := [draft ''a@x.y'' 1 ''a'' ''c'']\<rparr>"

text \<open>After five clashing pairs the call gives up with the token conflict and has changed
  nothing.\<close>

theorem token_conflicts_give_up:
  assumes "calm w" "entropy w = g # draws ps @ es" "varchar255 email"
    and "all_clash (committed w) ps" "length ps = maxTokenAttempts"
  shows "wp (createPending ttl email repoName rid) (\<lambda>r w'.
    r = Inl (Wrap ''create subscription tokens conflict after retries'' (Sentinel db_ErrTokenConflict)) \<and>
    committed w' = committed w) w"
proof -
  let ?v = "w\<lparr>entropy := draws ps @ es\<rparr>"
  have "calm ?v" "all_clash (committed ?v) ps"
    using assms by (simp_all add: calm_def)
  from attempts_exhausted [OF this(1) assms(3) this(2) assms(5), of es]
  show ?thesis
    using assms(2) by (simp add: createPending_def idgen_New_def wp_bind wp_rand_Read wp_return)
qed

theorem token_conflicts_give_up_witness:
  "run_result (createPending 60 ''b@x.y'' ''o/r'' 1)
     (calm_world db_clash 0 (''g'' # draws (replicate 5 (''a'', ''b'')))) =
   Inl (Wrap ''create subscription tokens conflict after retries'' (Sentinel db_ErrTokenConflict))"
proof -
  have "all_clash db_clash (replicate 5 (''a'', ''b''))"
    by (simp add: all_clash_def token_clash_def db_clash_def)
  then show ?thesis
    using token_conflicts_give_up [of "calm_world db_clash 0 (''g'' # draws (replicate 5 (''a'', ''b'')))" "''g''"
        "replicate 5 (''a'', ''b'')" "[]" "''b@x.y''" 60 "''o/r''" 1]
    by (simp add: maxTokenAttempts_def varchar255_short wp_run)
qed

text \<open>The input is accepted exactly when the trimmed address parses and the trimmed name is an
  \<^verbatim>\<open>owner/repo\<close> slug with two non-blank halves; the trimmed values are what is used.\<close>

theorem subscribe_input_accepted:
  "normalizeSubscribeInput parse_ok email repo = Inr (e, n) \<longleftrightarrow>
     e = TrimSpace email \<and> n = TrimSpace repo \<and> parse_ok e \<and> repo_slug n"
  by (auto simp: normalizeSubscribeInput_def ValidateEmail_def ValidateRepo_slug [symmetric] Let_def
      split: option.splits if_splits)

text \<open>C14: confirming with a token confirms the subscription that has it and completes its saga unless
  the saga has ended; an unknown token is reported and changes nothing.\<close>

theorem confirm_effect:
  assumes "calm w"
  shows "wp (Confirm_Execute token) (\<lambda>r w'.
    case find (\<lambda>s. sb_ConfirmToken s = token) (subscriptions (committed w)) of
      None \<Rightarrow> r = Inl (Wrap ''confirm token not found'' (Sentinel sub_ErrTokenNotFound)) \<and>
              committed w' = committed w
    | Some s \<Rightarrow> r = Inr () \<and> committed w' =
        (let d = confirm_where (\<lambda>s. sb_ConfirmToken s = token) (pg_clock w) (committed w) in
         case saga_by_sub d (sb_ID s) of
           None \<Rightarrow> d
         | Some row \<Rightarrow>
             if sg_State row \<in> {StateCompleted, StateFailed} then d
             else set_saga_state (sg_ID row) StateCompleted None d)) w"
  using assms by (rule calm_Confirm)

theorem confirm_effect_witness:
  "run_result (Confirm_Execute ''ca'') (calm_world db_a 0 []) = Inr () \<and>
   map sg_State (subscribe_sagas (run_db (Confirm_Execute ''ca'') (calm_world db_a 0 []))) = [StateCompleted]"
  using confirm_effect [of "calm_world db_a 0 []" "''ca''"]
  by (simp add: wp_run run_db_world pending_a_def confirm_where_def saga_by_sub_def row_a_def set_saga_state_def
      Let_def)

text \<open>C15: unsubscribing deletes the subscription with the token and, when its repository has no
  other subscriber, the repository; an unknown token is reported and changes nothing.\<close>

theorem unsubscribe_effect:
  assumes "calm w" "sub_wf (committed w)"
  shows "wp (Unsubscribe_Execute token) (\<lambda>r w'.
    case find (\<lambda>s. sb_UnsubscribeToken s = token) (subscriptions (committed w)) of
      None \<Rightarrow> r = Inl (Wrap ''unsubscribe token not found'' (Sentinel sub_ErrTokenNotFound)) \<and>
              committed w' = committed w
    | Some s \<Rightarrow> r = Inr () \<and> committed w' =
        (let d = delete_subscriptions (\<lambda>s. sb_UnsubscribeToken s = token) (committed w) in
         if subscribers d (sb_RepositoryID s) = {} then delete_repository (sb_RepositoryID s) d else d)) w"
  using calm_Unsubscribe [OF assms] unfolding unsubscribed_def .

theorem unsubscribe_effect_witness:
  "run_result (Unsubscribe_Execute ''ub'') (calm_world race_db 0 []) = Inr () \<and>
   repositories (run_db (Unsubscribe_Execute ''ub'') (calm_world race_db 0 [])) = []"
proof -
  have "sub_wf race_db" using reachable_inv [OF reach_race] by (simp add: sys_inv_def race_def)
  then show ?thesis
    using unsubscribe_effect [of "calm_world race_db 0 []" "''ub''"]
    by (simp add: wp_run run_db_world race_subscriber race_repository delete_subscriptions_def
        delete_repository_def subscribers_def Let_def db_repo_def)
qed

text \<open>What a new subscription sets in motion: its event is decoded by the notification service as
  the confirmation mail with its token and reports to its saga, and the token leads back to it.\<close>

theorem confirmation_round_trip:
  assumes "sub_wf d" "creatable d sagaID sub"
    and "d' = created sagaID sub
      (confirmation_payload sagaID (sb_Email sub) repoName (sb_ConfirmToken sub)) now dl d"
  shows "\<exists>row s r. pending (outbox d') = pending (outbox d) @ [row] \<and> ob_Subject row = SubjectConfirmation \<and>
    mail_of SubjectConfirmation (ob_Payload row) =
      Some (ConfirmationMail (sb_Email sub) repoName (sb_ConfirmToken sub)) \<and>
    saga_of SubjectConfirmation (ob_Payload row) = sagaID \<and>
    find (\<lambda>s. sb_ConfirmToken s = sb_ConfirmToken sub) (subscriptions d') = Some s \<and>
    sb_Email s = sb_Email sub \<and> sb_RepositoryID s = sb_RepositoryID sub \<and>
    saga_by_id d' sagaID = Some r \<and> sg_SubscriptionID r = sb_ID s"
proof -
  have "find (\<lambda>s. sb_ConfirmToken s = sb_ConfirmToken sub) (subscriptions d) = None"
    "find (\<lambda>r. sg_SagaID r = sagaID) (subscribe_sagas d) = None"
    using assms(2) by (auto simp: creatable_def token_clash_def find_None_iff)
  then show ?thesis
    using pending_insert [OF sub_wfD(8) [OF assms(1)]]
    by (simp add: assms(3) created_def confirmation_payload_def mail_of_def saga_of_def find_append
        saga_by_id_def new_subscription_row_def)
qed

theorem confirmation_round_trip_witness:
  "\<exists>row (s :: Subscription) (r :: SagaRow). pending (outbox (created ''sa'' sub_a (confirmation_payload ''sa'' ''a@x.y'' ''o/r'' ''ca'') 0 0 db_repo)) =
      pending (outbox db_repo) @ [row] \<and> sb_Email s = ''a@x.y'' \<and> sg_SubscriptionID r = sb_ID s"
proof -
  have "creatable db_repo ''sa'' sub_a" "sub_wf db_repo"
    using reachable_inv [OF reach_repo]
    by (simp_all add: creatable_def db_repo_def empty_sub_db_def sub_a_def varchar255_short token_clash_def
        pair_taken_def sys_inv_def)
  moreover have f: "sb_Email sub_a = ''a@x.y''" "sb_ConfirmToken sub_a = ''ca''"
    by (simp_all add: sub_a_def)
  ultimately show ?thesis
    using confirmation_round_trip [of db_repo "''sa''" sub_a _ "''o/r''" 0 0, OF _ _ refl, unfolded f] by blast
qed

section \<open>Outbox relays\<close>

text \<open>C17: the relay of the subscription service never loses and never invents an event, over any
  run of enqueues and of ticks that fail in any way: a row marked published has its message in the
  stream, every message in the stream is the message of a row, and messages with the same id are
  equal, so that JetStream's deduplication drops only repetitions.\<close>

theorem subscription_relay_at_least_once:
  assumes "txn w = None" "relay_inv sub_msgID (outbox (committed w)) (stream w)"
    and "w' = relay_run sub_publishPending (\<lambda>subject payload. outbox_update (insert_row subject payload)) evs w"
  shows "(\<forall>r \<in> set (ob_rows (outbox (committed w'))). ob_PublishedAt r \<noteq> None \<longrightarrow>
            msg_of sub_msgID (ob_row r) \<in> set (stream w')) \<and>
    set (stream w') \<subseteq> (\<lambda>r. msg_of sub_msgID (ob_row r)) ` set (ob_rows (outbox (committed w'))) \<and>
    (\<forall>m1 \<in> set (stream w'). \<forall>m2 \<in> set (stream w'). msg_id m1 = msg_id m2 \<longrightarrow> m1 = m2)"
proof -
  have inv: "relay_inv sub_msgID (outbox (committed w')) (stream w')"
    using sub_relay.run_inv [OF assms(1,2), of evs] assms(3) by (simp add: sub_publishPending_def)
  then show ?thesis
    using relay_inv_dedup [OF inv sub_msgID_inj]
    unfolding relay_inv_def marked_stored_def stored_enqueued_def by blast
qed

theorem subscription_relay_at_least_once_witness:
  "set (stream (relay_run sub_publishPending (\<lambda>subject payload. outbox_update (insert_row subject payload))
      [relay_event.Enqueue ''s'' (Json JNull), Tick \<lparr>env_faults = [], env_pub_faults = [Fail], env_locked = [], env_now = 1\<rparr>]
      (calm_world empty_sub_db 0 []))) \<subseteq>
   (\<lambda>r. msg_of sub_msgID (ob_row r)) ` set (ob_rows (outbox (committed
     (relay_run sub_publishPending (\<lambda>subject payload. outbox_update (insert_row subject payload))
      [relay_event.Enqueue ''s'' (Json JNull), Tick \<lparr>env_faults = [], env_pub_faults = [Fail], env_locked = [], env_now = 1\<rparr>]
      (calm_world empty_sub_db 0 [])))))"
proof -
  have pre: "txn (calm_world empty_sub_db 0 []) = None"
    "relay_inv sub_msgID (outbox (committed (calm_world empty_sub_db 0 []))) (stream (calm_world empty_sub_db 0 []))"
    by (simp_all add: relay_inv_def empty_sub_db_def outbox_wf_def marked_stored_def stored_enqueued_def)
  show ?thesis using subscription_relay_at_least_once [OF pre refl] by blast
qed

text \<open>C18: when nothing fails the relay publishes every pending event exactly once, in the order of
  the ids: after as many ticks as there are batches the queue is empty and the stream has grown by
  exactly its messages.\<close>

theorem subscription_relay_drains:
  assumes "txn w = None" "outbox_wf (outbox (committed w))" "list_all calm_tick evs"
    and "length (pending (outbox (committed w))) \<le> batchSize * length evs"
    and "w' = relay_run sub_publishPending (\<lambda>subject payload. outbox_update (insert_row subject payload)) evs w"
  shows "pending (outbox (committed w')) = [] \<and>
    stream w' = stream w @ map (\<lambda>r. msg_of sub_msgID (ob_row r)) (pending (outbox (committed w)))"
  using sub_relay.calm_run [OF assms(1-3), of sub_msgID] assms(4,5) by (simp add: sub_publishPending_def)

theorem subscription_relay_drains_witness:
  "pending (outbox (committed (relay_run sub_publishPending
     (\<lambda>subject payload. outbox_update (insert_row subject payload))
     [Tick \<lparr>env_faults = [], env_pub_faults = [], env_locked = [], env_now = 1\<rparr>] (calm_world db_a 0 [])))) = []"
proof -
  have "outbox_wf (outbox db_a)" using reachable_inv [OF reach_a] by (simp add: sys_inv_def sub_wf_def)
  moreover have "length (pending (outbox db_a)) = 1"
    by (simp add: db_a_def created_def db_repo_def empty_sub_db_def pending_def insert_row_def)
  ultimately show ?thesis
    using subscription_relay_drains [of "calm_world db_a 0 []"
        "[Tick \<lparr>env_faults = [], env_pub_faults = [], env_locked = [], env_now = 1\<rparr>]", OF _ _ _ _ refl]
    by (simp add: calm_tick_def batchSize_def)
qed

text \<open>The same guarantee for the relay of the monitoring service.\<close>

theorem monitoring_relay_at_least_once:
  assumes "txn w = None" "relay_inv mon_msgID (monitoring_outbox (committed w)) (stream w)"
    and "w' = relay_run mon_publishPending
      (\<lambda>subject payload. monitoring_outbox_update (insert_row subject payload)) evs w"
  shows "(\<forall>r \<in> set (ob_rows (monitoring_outbox (committed w'))). ob_PublishedAt r \<noteq> None \<longrightarrow>
            msg_of mon_msgID (ob_row r) \<in> set (stream w')) \<and>
    set (stream w') \<subseteq> (\<lambda>r. msg_of mon_msgID (ob_row r)) ` set (ob_rows (monitoring_outbox (committed w'))) \<and>
    (\<forall>m1 \<in> set (stream w'). \<forall>m2 \<in> set (stream w'). msg_id m1 = msg_id m2 \<longrightarrow> m1 = m2)"
proof -
  have inv: "relay_inv mon_msgID (monitoring_outbox (committed w')) (stream w')"
    using mon_relay.run_inv [OF assms(1,2), of evs] assms(3) by (simp add: mon_publishPending_def)
  then show ?thesis
    using relay_inv_dedup [OF inv mon_msgID_inj]
    unfolding relay_inv_def marked_stored_def stored_enqueued_def by blast
qed

theorem monitoring_relay_at_least_once_witness:
  "set (stream (relay_run mon_publishPending (\<lambda>subject payload. monitoring_outbox_update (insert_row subject payload))
      [relay_event.Enqueue ''s'' (Json JNull), Tick \<lparr>env_faults = [], env_pub_faults = [AckLost], env_locked = [], env_now = 1\<rparr>]
      (calm_world empty_mon_db 0 []))) \<subseteq>
   (\<lambda>r. msg_of mon_msgID (ob_row r)) ` set (ob_rows (monitoring_outbox (committed
     (relay_run mon_publishPending (\<lambda>subject payload. monitoring_outbox_update (insert_row subject payload))
      [relay_event.Enqueue ''s'' (Json JNull), Tick \<lparr>env_faults = [], env_pub_faults = [AckLost], env_locked = [], env_now = 1\<rparr>]
      (calm_world empty_mon_db 0 [])))))"
proof -
  have pre: "txn (calm_world empty_mon_db 0 []) = None"
    "relay_inv mon_msgID (monitoring_outbox (committed (calm_world empty_mon_db 0 []))) (stream (calm_world empty_mon_db 0 []))"
    by (simp_all add: relay_inv_def empty_mon_db_def outbox_wf_def marked_stored_def stored_enqueued_def)
  show ?thesis using monitoring_relay_at_least_once [OF pre refl] by blast
qed

text \<open>The relays of the three services never use the same message id, and each uses an id once.\<close>

theorem relay_message_ids_disjoint:
  "sub_msgID i \<noteq> mon_msgID j \<and> sub_msgID i \<noteq> auth_msgID j \<and> mon_msgID i \<noteq> auth_msgID j \<and>
   inj sub_msgID \<and> inj mon_msgID \<and> inj auth_msgID"
proof -
  have "hd (FormatInt i) \<noteq> CHR ''m''" "hd (FormatInt i) \<noteq> CHR ''a''"
    by (rule FormatInt_no_letter, simp)+
  then have "sub_msgID i \<noteq> mon_msgID j" "sub_msgID i \<noteq> auth_msgID j"
    by (auto simp: sub_msgID_def mon_msgID_def auth_msgID_def)
  then show ?thesis
    using sub_msgID_inj mon_msgID_inj auth_msgID_inj by (simp add: mon_msgID_def auth_msgID_def)
qed

section \<open>Releases\<close>

text \<open>C21: handling a found release is atomic under every pattern of failures: the tag of the
  repository and one event for each confirmed subscriber are committed together, or nothing is,
  and a message that is acknowledged was handled.\<close>

theorem fanout_atomic:
  assumes "txn w = None" "Unmarshal_ReleaseFound data = Some ev"
  shows "wp (fanout_Consume recipient_lister data) (\<lambda>v w'. txn w' = None \<and> stream w' = stream w \<and>
    (committed w' = committed w \<and> v = Nak
     \<or> committed w' = fanned_out ev (pg_clock w) (committed w))) w"
  unfolding fanout_Consume_def wp_bind
  by (rule wp_mono [OF wp_handleReleaseFound [OF assms]]) (auto simp: wp_return split: sum.splits)

text \<open>When nothing fails the message is acknowledged, and the outbox has grown by exactly one
  release event for each confirmed subscriber of the repository, in the order of the table, with
  the tag, name and address of the release and the subscriber's own unsubscribe token.\<close>

theorem fanout_events:
  assumes "calm w" "Unmarshal_ReleaseFound data = Some ev" "varchar255 (rf_ReleaseTag ev)"
    and "sub_wf (committed w)"
  shows "wp (fanout_Consume recipient_lister data) (\<lambda>v w'. v = Ack \<and>
    map (\<lambda>r. (ob_Subject r, ob_Payload r)) (pending (outbox (committed w'))) =
      map (\<lambda>r. (ob_Subject r, ob_Payload r)) (pending (outbox (committed w))) @
      map (\<lambda>s. (SubjectRelease, Marshal_ReleaseDetected
          \<lparr>rd_Email = sb_Email s, rd_UnsubscribeToken = sb_UnsubscribeToken s, rd_ReleaseTag = rf_ReleaseTag ev,
           rd_ReleaseName = rf_ReleaseName ev, rd_ReleaseURL = rf_ReleaseURL ev\<rparr>))
        (filter (\<lambda>s. sb_RepositoryID s = rf_RepoID ev \<and> sb_Confirmed s) (subscriptions (committed w)))) w"
  unfolding fanout_Consume_def wp_bind
  by (rule wp_mono [OF calm_handleReleaseFound [OF assms(1-3)]])
    (simp add: wp_return fanned_out_def tagged_def pending_enqueue_all sub_wfD(8) [OF assms(4)] confirmed_of_def
      release_payload_def comp_def)

theorem fanout_atomic_witness:
  "txn (run_world (fanout_Consume recipient_lister (Marshal_ReleaseFound demo_found))
     ((calm_world race_db 0 [])\<lparr>faults := [Fine, Fine, AckLost]\<rparr>)) = None"
  using fanout_atomic [of "(calm_world race_db 0 [])\<lparr>faults := [Fine, Fine, AckLost]\<rparr>"
      "Marshal_ReleaseFound demo_found" demo_found]
  by (simp add: wp_run demo_found_def)

theorem fanout_events_witness:
  "run_result (fanout_Consume recipient_lister (Marshal_ReleaseFound demo_found)) (calm_world race_db 0 []) = Ack \<and>
   length (pending (outbox (run_db (fanout_Consume recipient_lister (Marshal_ReleaseFound demo_found))
     (calm_world race_db 0 [])))) = Suc (length (pending (outbox race_db)))"
proof -
  have wf: "sub_wf race_db" using reachable_inv [OF reach_race] by (simp add: sys_inv_def race_def)
  have post: "run_result (fanout_Consume recipient_lister (Marshal_ReleaseFound demo_found)) (calm_world race_db 0 []) = Ack"
    "map (\<lambda>r. (ob_Subject r, ob_Payload r)) (pending (outbox (run_db (fanout_Consume recipient_lister
       (Marshal_ReleaseFound demo_found)) (calm_world race_db 0 [])))) =
     map (\<lambda>r. (ob_Subject r, ob_Payload r)) (pending (outbox race_db)) @
     map (\<lambda>s. (SubjectRelease, Marshal_ReleaseDetected
          \<lparr>rd_Email = sb_Email s, rd_UnsubscribeToken = sb_UnsubscribeToken s, rd_ReleaseTag = rf_ReleaseTag demo_found,
           rd_ReleaseName = rf_ReleaseName demo_found, rd_ReleaseURL = rf_ReleaseURL demo_found\<rparr>))
        (filter (\<lambda>s. sb_RepositoryID s = rf_RepoID demo_found \<and> sb_Confirmed s) (subscriptions race_db))"
    using fanout_events [of "calm_world race_db 0 []" "Marshal_ReleaseFound demo_found" demo_found] wf
    by (simp_all add: wp_run run_db_world varchar255_short demo_found_def)
  show ?thesis
    using post(1) arg_cong [where f = length, OF post(2)] by (simp add: race_subscriber demo_found_def)
qed

text \<open>C23: processing a repository whose cursor was just read keeps cursor and outbox in step under
  every pattern of failures: nothing changed; or the empty cursor was seeded and nothing was
  enqueued; or the cursor moved from another tag to that of the latest release and exactly the
  event of that release was enqueued with it.\<close>

theorem repository_processed_atomically:
  assumes "txn w = None" "mr_LastSeenTag repo = cursor_of (committed w) (mr_ID repo)"
  shows "wp (processRepository gh (client_UpdateLastSeenTagAtomic UpdateLastSeenTagAtomic) Monitoring.Enqueue repo)
    (\<lambda>r w'. txn w' = None \<and>
    (committed w' = committed w
     \<or> mr_LastSeenTag repo = '''' \<and> monitoring_outbox (committed w') = monitoring_outbox (committed w) \<and>
       (\<exists>rel. getLatestRelease gh repo = Inr rel \<and> cursor_of (committed w') = (cursor_of (committed w))
          (mr_ID repo := (case rel of None \<Rightarrow> noReleaseYet | Some x \<Rightarrow> gr_Tag x)))
     \<or> (\<exists>rel. getLatestRelease gh repo = Inr (Some rel) \<and> HasNewRelease repo (gr_Tag rel) \<and>
          cursor_of (committed w') = (cursor_of (committed w))(mr_ID repo := gr_Tag rel) \<and>
          monitoring_outbox (committed w') = insert_row SubjectReleaseFound
            (event_for (mr_ID repo) (mr_FullName repo) rel) (monitoring_outbox (committed w))))) w"
  using mon_cursors.process_post [OF assms] unfolding event_for_def .

theorem repository_processed_atomically_witness:
  "txn (run_world (processRepository (\<lambda>_. Inr \<lparr>gr_Tag = ''v1'', gr_Name = '''', gr_URL = '''', gr_PublishedAt = ''''\<rparr>)
      (client_UpdateLastSeenTagAtomic UpdateLastSeenTagAtomic) Monitoring.Enqueue
      \<lparr>mr_ID = 1, mr_FullName = ''o/r'', mr_LastSeenTag = ''''\<rparr>)
     ((calm_world empty_mon_db 0 [])\<lparr>faults := [Fine, AckLost]\<rparr>)) = None"
  using repository_processed_atomically [of "(calm_world empty_mon_db 0 [])\<lparr>faults := [Fine, AckLost]\<rparr>"
      "\<lparr>mr_ID = 1, mr_FullName = ''o/r'', mr_LastSeenTag = ''''\<rparr>"]
  by (simp add: wp_run cursor_of_def empty_mon_db_def)

text \<open>C24: over a series of scans of a repository that was never scanned, the tags of the events
  enqueued are exactly the changes of its latest tag: the first answer is the baseline (a repository
  without a release counts as one with its own tag), repetitions are silent, and every change is
  reported once, in order.\<close>

theorem scans_report_tag_changes:
  assumes "calm w" "cursor_of (committed w) i = ''''" "list_all2 (answers name) (gh # ghs) (rel # rels)"
    and "'''' \<notin> set (seen_tags (rel # rels))"
  shows "\<exists>releases. monitoring_outbox (committed (scans (gh # ghs) i name w)) =
      fold (insert_row SubjectReleaseFound) (map (event_for i name) releases) (monitoring_outbox (committed w)) \<and>
    map gr_Tag releases =
      tl (remdups_adj ((case rel of None \<Rightarrow> noReleaseYet | Some r \<Rightarrow> gr_Tag r) # seen_tags rels))"
  using calm_scans [OF assms(3,1), of i] observes_from_start [OF assms(4)] assms(2) by metis

definition demo_release :: "string \<Rightarrow> Release" where
  "demo_release tag = \<lparr>gr_Tag = tag, gr_Name = '''', gr_URL = '''', gr_PublishedAt = ''''\<rparr>"

theorem scans_report_tag_changes_witness:
  "\<exists>releases. monitoring_outbox (committed (scans
      [\<lambda>_. Inr (demo_release ''v1''), \<lambda>_. Inl gh_ErrNotFound, \<lambda>_. Inr (demo_release ''v1''),
       \<lambda>_. Inr (demo_release ''v2'')] 1 ''o/r'' (calm_world empty_mon_db 0 []))) =
      fold (insert_row SubjectReleaseFound) (map (event_for 1 ''o/r'') releases) (monitoring_outbox empty_mon_db) \<and>
    map gr_Tag releases = [''v2'']"
  using scans_report_tag_changes [of "calm_world empty_mon_db 0 []" 1 "''o/r''" "\<lambda>_. Inr (demo_release ''v1'')"
      "[\<lambda>_. Inl gh_ErrNotFound, \<lambda>_. Inr (demo_release ''v1''), \<lambda>_. Inr (demo_release ''v2'')]"
      "Some (demo_release ''v1'')" "[None, Some (demo_release ''v1''), Some (demo_release ''v2'')]"]
  by (simp add: cursor_of_def empty_mon_db_def answers_def gh_ErrNotFound_def demo_release_def)


section \<open>A scan of the monitoring worker\<close>

text \<open>C26: in every interleaving of a scan at most ten repositories are processed at once, none is
  processed twice, none is left out unless the scan was cancelled, and the scan is reported as rate
  limited exactly when GitHub limited the rate for one of them.\<close>

theorem scan_is_bounded_and_complete:
  assumes "scan_reach res repos s"
  shows "length (running s) \<le> 10 \<and>
    (\<exists>skipped. mset repos = mset (running s) + mset (finished s) + mset (todo (loop s)) + mset skipped \<and>
       (skipped \<noteq> [] \<longrightarrow> cancelled s)) \<and>
    (loop s = Done \<and> \<not> cancelled s \<longrightarrow> mset (finished s) = mset repos) \<and>
    (scan_result s = (Some (Sentinel gh_ErrRateLimited), ''rate_limited'') \<longleftrightarrow>
       (\<exists>r \<in> set (finished s). is_rate_limited (res r)))"
proof -
  have inv: "scan_inv res repos s" using assms by (rule scan_reach_inv)
  then obtain skipped where acc: "mset repos = mset (running s) + mset (finished s) + mset (todo (loop s)) + mset skipped"
    "skipped \<noteq> [] \<longrightarrow> cancelled s"
    unfolding scan_inv_def by blast
  have "length (running s) \<le> 10" "rateLimited s \<longleftrightarrow> (\<exists>r \<in> set (finished s). is_rate_limited (res r))"
    and done_idle: "loop s = Done \<longrightarrow> running s = []"
    using inv unfolding scan_inv_def maxConcurrentRepositoryScans_def by blast+
  moreover have "mset (finished s) = mset repos" if "loop s = Done" "\<not> cancelled s"
    using acc done_idle that by simp
  moreover have "scan_result s = (Some (Sentinel gh_ErrRateLimited), ''rate_limited'') \<longleftrightarrow> rateLimited s"
    by (simp add: scan_result_def)
  ultimately show ?thesis using acc by blast
qed

theorem scan_is_bounded_and_complete_witness:
  "length (running (scan_init [''o/r''])) \<le> 10 \<and>
   (\<exists>skipped. mset [''o/r''] = mset skipped + mset (todo (loop (scan_init [''o/r'']))))"
  using scan_is_bounded_and_complete [OF scan_start, of "[''o/r'']" "\<lambda>_. None"]
  by (auto simp: scan_init_def)

text \<open>C27: a scan always ends: as long as it is not done some step is possible, and every step makes
  the measure smaller, so no order of goroutines runs for ever or deadlocks on the semaphore.\<close>

theorem scan_terminates:
  assumes "scan_reach res repos s"
  shows "(loop s \<noteq> Done \<longrightarrow> (\<exists>s'. scan_step res s s')) \<and>
    (\<forall>s'. scan_step res s s' \<longrightarrow> scan_measure s' < scan_measure s)"
  using scan_progress [OF scan_reach_inv [OF assms]] scan_step_decreases by blast

theorem scan_terminates_witness:
  "\<exists>s'. scan_step (\<lambda>_. None) (scan_init [''o/r'']) s'"
  using scan_terminates [OF scan_start, of "[''o/r'']" "\<lambda>_. None"] by (simp add: scan_init_def)

text \<open>Once a scan is cancelled, by a rate limit or from outside, at most the one repository that
  already waits for the semaphore is still started.\<close>

theorem cancelled_scan_starts_at_most_one:
  assumes "scan_steps res s s'" "cancelled s"
  shows "started s' \<subseteq># started s + mset (waiting (loop s)) \<and> length (waiting (loop s)) \<le> 1"
proof -
  have "started s' + mset (waiting (loop s')) \<subseteq># started s + mset (waiting (loop s))"
    using cancelled_steps [OF assms] by simp
  then have "started s' \<subseteq># started s + mset (waiting (loop s))"
    by (rule subset_mset.order_trans [OF mset_subset_eq_add_left])
  then show ?thesis by (simp add: waiting_def split: pc.splits)
qed

theorem cancelled_scan_starts_at_most_one_witness:
  "started (scan_init [''o/r'']\<lparr>cancelled := True, loop := AtWait\<rparr>) \<subseteq>#
   started ((scan_init [''o/r''])\<lparr>cancelled := True\<rparr>)"
proof -
  have "scan_step (\<lambda>_. None) ((scan_init [''o/r''])\<lparr>cancelled := True\<rparr>)
      ((scan_init [''o/r''])\<lparr>cancelled := True\<rparr>\<lparr>loop := AtWait\<rparr>)"
    by (rule check_stop [where rs = "[''o/r'']"]) (simp_all add: scan_init_def)
  then have "scan_steps (\<lambda>_. None) ((scan_init [''o/r''])\<lparr>cancelled := True\<rparr>)
      ((scan_init [''o/r''])\<lparr>cancelled := True, loop := AtWait\<rparr>)"
    by (auto intro: steps_step steps_refl)
  from cancelled_scan_starts_at_most_one [OF this] show ?thesis
    by (simp add: scan_init_def waiting_def)
qed

section \<open>Starting the monitoring worker\<close>

text \<open>The validation of the configuration does not look at the scan interval: with a configuration
  that loads, the worker panics after its first scan exactly when the interval in the environment is
  negative, and in every other case, unreadable and zero intervals included, it keeps scanning.\<close>

theorem negative_scan_interval_panics:
  assumes "mon_Load duration env = (cfg, None)"
  shows "fst (worker_Start (mc_ScanInterval cfg) first es) = Panics \<longleftrightarrow>
    (\<exists>d < 0. duration (env ''SCAN_INTERVAL'') = Some d)"
proof -
  have "mc_ScanInterval cfg = (case duration (env ''SCAN_INTERVAL'') of None \<Rightarrow> 25 * second
      | Some d \<Rightarrow> if d = 0 then 25 * second else d)"
    using assms by (auto simp: mon_Load_def mon_applyDefaults_def mon_loadFromEnv_def Let_def split: option.splits)
  then show ?thesis
    by (auto simp: worker_Start_panics second_def split: option.splits)
qed

theorem negative_scan_interval_panics_witness:
  "\<exists>cfg. mon_Load (\<lambda>s. if s = ''-5s'' then Some (-5 * second) else None)
      (\<lambda>v. if v = ''SCAN_INTERVAL'' then ''-5s'' else ''set'') = (cfg, None) \<and>
    fst (worker_Start (mc_ScanInterval cfg) None []) = Panics"
proof -
  let ?d = "\<lambda>s. if s = ''-5s'' then Some (-5 * second) else None"
  let ?env = "\<lambda>v. if v = ''SCAN_INTERVAL'' then ''-5s'' else ''set''"
  have "mon_Load ?d ?env = (fst (mon_Load ?d ?env), None)"
    using mon_Load_valid [of ?d ?env] by (simp add: prod_eq_iff)
  from negative_scan_interval_panics [OF this, of None "[]"] this show ?thesis
    by (force simp: second_def)
qed

end
